(* ===== verification/Prelude.thy ===== *)
theory Prelude
  imports Main "HOL-Library.Word" "HOL-Library.Sublist"
begin

text \<open>
  What the components share: the Go standard-library string functions the sources call
  (\<^verbatim>\<open>strings.Join\<close>, \<^verbatim>\<open>strings.Split\<close> on a one-byte separator,
  \<^verbatim>\<open>strings.Contains\<close>), the result type of code that may panic, the error values,
  and the generic lemmas about them. A Go string is a sequence of bytes, and so is a HOL
  \<^typ>\<open>string\<close>: a \<^typ>\<open>char\<close> is eight bits.
\<close>

named_theorems go_simps \<open>unfolding of the result type of code that may panic\<close>
named_theorems key_simps \<open>definitions of the Redis keys\<close>

type_synonym bytes = string
type_synonym duration = int

section \<open>Results of code that may panic\<close>

text \<open>
  \<^term>\<open>Panic\<close> is a run-time panic (a nil-pointer dereference, a send on a closed channel) or a call that ends
  the program; \<^term>\<open>Ret x\<close> is a normal return. Errors returned as values are inside \<^term>\<open>Ret\<close>.
\<close>

datatype 'a go = Panic | Ret 'a

primrec panics :: "'a go \<Rightarrow> bool" where
  "panics Panic = True"
| "panics (Ret x) = False"

lemma panics_iff [go_simps]: "panics r \<longleftrightarrow> r = Panic"
  by (cases r) simp_all

lemma not_panics_iff: "\<not> panics r \<longleftrightarrow> (\<exists>x. r = Ret x)"
  by (cases r) simp_all

section \<open>Strings\<close>

fun Join :: "string list \<Rightarrow> string \<Rightarrow> string" where
  "Join [] sep = []"
| "Join [x] sep = x"
| "Join (x # y # xs) sep = x @ sep @ Join (y # xs) sep"

fun Split :: "string \<Rightarrow> char \<Rightarrow> string list" where
  "Split [] c = [[]]"
| "Split (x # xs) c =
     (if x = c then [] # Split xs c
      else (case Split xs c of [] \<Rightarrow> [[x]] | y # ys \<Rightarrow> (x # y) # ys))"

fun Contains :: "string \<Rightarrow> string \<Rightarrow> bool" where
  "Contains [] sub = (sub = [])"
| "Contains (x # xs) sub = (prefix sub (x # xs) \<or> Contains xs sub)"

lemma Split_not_Nil [simp]: "Split s c \<noteq> []"
  by (induction s c rule: Split.induct) (auto split: list.splits)

text \<open>The first part of a split, the only one \<^verbatim>\<open>PutStateMachine\<close> reads.\<close>

lemma hd_Split: "hd (Split s c) = takeWhile (\<lambda>x. x \<noteq> c) s"
proof (induction s c rule: Split.induct)
  case (2 x xs c)
  then show ?case by (cases "Split xs c") auto
qed simp

lemma Split_no_sep: "c \<notin> set s \<Longrightarrow> Split s c = [s]"
  by (induction s c rule: Split.induct) (auto split: list.splits)

lemma Split_append: "c \<notin> set s \<Longrightarrow> Split (s @ c # t) c = s # Split t c"
  by (induction s) auto

lemma Join_Split: "Join (Split s c) [c] = s"
proof (induction s c rule: Split.induct)
  case (2 x xs c)
  then show ?case
    by (cases "Split xs c"; cases "tl (Split xs c)") auto
qed simp

lemma Contains_iff: "Contains s sub \<longleftrightarrow> (\<exists>p q. s = p @ sub @ q)"
proof (induction s sub rule: Contains.induct)
  case (2 x xs sub)
  show ?case
  proof
    assume "Contains (x # xs) sub"
    then consider "prefix sub (x # xs)" | "Contains xs sub" by auto
    then show "\<exists>p q. x # xs = p @ sub @ q"
    proof cases
      case 1
      then obtain q where "x # xs = sub @ q" by (auto simp: prefix_def)
      then have "x # xs = [] @ sub @ q" by simp
      then show ?thesis by blast
    next
      case 2
      with "2.IH" obtain p q where "xs = p @ sub @ q" by blast
      then have "x # xs = (x # p) @ sub @ q" by simp
      then show ?thesis by blast
    qed
  next
    assume "\<exists>p q. x # xs = p @ sub @ q"
    then obtain p q where *: "x # xs = p @ sub @ q" by blast
    show "Contains (x # xs) sub"
    proof (cases p)
      case Nil
      with * have "prefix sub (x # xs)" by simp
      then show ?thesis by simp
    next
      case (Cons y p')
      with * have "xs = p' @ sub @ q" by simp
      with "2.IH" show ?thesis by auto
    qed
  qed
qed simp

text \<open>A separator that does not occur in the first parts makes a joined string unambiguous.\<close>

lemma append_sep_inject:
  fixes a a' :: string
  assumes "c \<notin> set a" and "c \<notin> set a'"
  shows "a @ c # b = a' @ c # b' \<longleftrightarrow> a = a' \<and> b = b'"
proof
  assume eq: "a @ c # b = a' @ c # b'"
  have "Split (a @ c # b) c = a # Split b c" and "Split (a' @ c # b') c = a' # Split b' c"
    using assms by (simp_all add: Split_append)
  with eq have "a = a'" by simp
  with eq show "a = a' \<and> b = b'" by simp
qed simp

lemma takeWhile_sep:
  assumes "c \<notin> set a"
  shows "takeWhile (\<lambda>x. x \<noteq> c) (a @ c # b) = a"
  using assms by (induction a) auto

end
