(* ===== verification/Protos.thy ===== *)
theory Protos
  imports Prelude
begin

text \<open>
  The messages of \<^verbatim>\<open>github.com/massenz/statemachine-proto\<close> that the sources read and
  write, as records with the fields the sources use, and the error values of the program.
  The package is not part of the repository: only the shape of its messages is fixed here,
  and (de)serialisation is a parameter of the definitions that need it (theory
  \<open>Redis_Client\<close>). A pointer field that may be nil is an \<open>option\<close>; elements of a repeated
  message field are never nil.
\<close>

section \<open>Messages\<close>

record Transition =
  t_From :: string
  t_To :: string
  t_Event :: string

record Configuration =
  cfg_Name :: string
  cfg_Version :: string
  cfg_States :: "string list"
  cfg_Transitions :: "Transition list"
  cfg_StartingState :: string

record Event =
  evt_EventId :: string
  evt_Timestamp :: "int option"
  evt_Transition :: "Transition option"
  evt_Originator :: string
  evt_Details :: string

record FiniteStateMachine =
  fsm_ConfigId :: string
  fsm_State :: string
  fsm_History :: "Event list"

datatype StatusCode =
    Ok | GenericError | EventNotAllowed | FsmNotFound | TransitionNotAllowed
  | InternalError | MissingDestination | ConfigurationNotFound

record EventOutcome =
  out_Code :: StatusCode
  out_Details :: string
  out_Config :: string
  out_Id :: string

record EventResponse =
  resp_EventId :: string
  resp_Outcome :: "EventOutcome option"

record EventRequest =
  req_Event :: "Event option"
  req_Config :: string
  req_Id :: string

section \<open>Errors\<close>

text \<open>The gRPC status codes of errors.\<close>

datatype code =
    Canceled | Unknown | InvalidArgument | DeadlineExceeded | NotFound | AlreadyExists
  | PermissionDenied | ResourceExhausted | FailedPrecondition | Aborted | OutOfRange
  | Unimplemented | Internal | Unavailable | DataLoss | Unauthenticated

text \<open>
  A Go \<^verbatim>\<open>error\<close>. \<open>Errorf s\<close> is a value made at run time by \<^verbatim>\<open>fmt.Errorf\<close> or by a
  library, known only by its text; the other constructors are the package-level error
  variables, which code may compare by identity, and the gRPC status errors.
\<close>

datatype go_error =
    Errorf string
  | MalformedConfigurationError
  | MissingNameConfigurationError
  | MissingStatesConfigurationError
  | MissingDestinationError
  | MissingEventNameError
  | MismatchStartingStateConfigurationError
  | EmptyStartingStateConfigurationError
  | UnexpectedTransitionError
  | UnexpectedError
  | RedisNil
  | TxFailedErr
  | ContextDeadlineExceeded
  | ContextCanceled
  | StatusError code string

fun code_text :: "code \<Rightarrow> string" where
  "code_text Canceled = ''Canceled''"
| "code_text Unknown = ''Unknown''"
| "code_text InvalidArgument = ''InvalidArgument''"
| "code_text DeadlineExceeded = ''DeadlineExceeded''"
| "code_text NotFound = ''NotFound''"
| "code_text AlreadyExists = ''AlreadyExists''"
| "code_text PermissionDenied = ''PermissionDenied''"
| "code_text ResourceExhausted = ''ResourceExhausted''"
| "code_text FailedPrecondition = ''FailedPrecondition''"
| "code_text Aborted = ''Aborted''"
| "code_text OutOfRange = ''OutOfRange''"
| "code_text Unimplemented = ''Unimplemented''"
| "code_text Internal = ''Internal''"
| "code_text Unavailable = ''Unavailable''"
| "code_text DataLoss = ''DataLoss''"
| "code_text Unauthenticated = ''Unauthenticated''"

text \<open>The method \<^verbatim>\<open>Error()\<close>.\<close>

fun Error_text :: "go_error \<Rightarrow> string" where
  "Error_text (Errorf s) = s"
| "Error_text MalformedConfigurationError = ''this configuration cannot be parsed''"
| "Error_text MissingNameConfigurationError =
     ''configuration must always specify a name (and optionally a version)''"
| "Error_text MissingStatesConfigurationError =
     ''configuration must always specify at least one state''"
| "Error_text MissingDestinationError =
     ''event must always have a `Destination` statemachine''"
| "Error_text MissingEventNameError = ''events must always specify the event type''"
| "Error_text MismatchStartingStateConfigurationError =
     ''the StartingState must be one of the possible FSM states''"
| "Error_text EmptyStartingStateConfigurationError = ''the StartingState must be non-empty''"
| "Error_text UnexpectedTransitionError = ''unexpected event transition''"
| "Error_text UnexpectedError = ''the request was malformed''"
| "Error_text RedisNil = ''redis: nil''"
| "Error_text TxFailedErr = ''redis: transaction failed''"
| "Error_text ContextDeadlineExceeded = ''context deadline exceeded''"
| "Error_text ContextCanceled = ''context canceled''"
| "Error_text (StatusError c s) = ''rpc error: code = '' @ code_text c @ '' desc = '' @ s"

section \<open>Services of the language runtime and of the uuid package\<close>

text \<open>
  Fresh identifiers, the clock, the random generator and sleeping, as operations on the
  world \<open>'w\<close> the program runs in.
\<close>

record 'w go_runtime =
  uuid_NewString :: "'w \<Rightarrow> string \<times> 'w"
  time_Now :: "'w \<Rightarrow> int \<times> 'w"
  rand_Intn :: "int \<Rightarrow> 'w \<Rightarrow> int \<times> 'w"
  time_Sleep :: "duration \<Rightarrow> 'w \<Rightarrow> 'w"

text \<open>What the program relies on: a generated identifier is not the empty string.\<close>

locale runtime =
  fixes rt :: "'w go_runtime"
  assumes uuid_nonempty: "fst (uuid_NewString rt w) \<noteq> ''''"

end
