(* ===== verification/Api.thy ===== *)
theory Api
  imports Protos
begin

text \<open>
  The package \<^verbatim>\<open>pkg/api\<close> (\<^verbatim>\<open>fsm.go\<close>): configurations and their validation, a configured
  state machine, the transition an event causes, new events. The lemmas show which
  transition an event takes and what it records, that the history of a machine is a path
  through its configuration, what validation guarantees, and where it does not suffice.
\<close>

section \<open>Definitions\<close>

definition ConfigurationVersionSeparator :: string where
  "ConfigurationVersionSeparator = '':''"

definition UnreachableStateConfigurationError :: "string \<Rightarrow> go_error" where
  "UnreachableStateConfigurationError s =
     Errorf (''state '' @ s @ '' is not used in any of the transitions'')"

record ConfiguredStateMachine =
  csm_Config :: Configuration
  csm_FSM :: FiniteStateMachine

definition NewStateMachine :: "Configuration \<Rightarrow> go_error + ConfiguredStateMachine" where
  "NewStateMachine configuration =
     (if cfg_Name configuration = '''' \<or> cfg_Version configuration = ''''
      then Inl MalformedConfigurationError
      else Inr \<lparr>csm_Config = configuration,
                csm_FSM = \<lparr>fsm_ConfigId =
                             Join [cfg_Name configuration, cfg_Version configuration]
                               ConfigurationVersionSeparator,
                           fsm_State = cfg_StartingState configuration,
                           fsm_History = []\<rparr>\<rparr>)"

text \<open>
  The loop of \<^verbatim>\<open>SendEvent\<close> over the transitions. \<open>newEvent\<close> is the clone of the event
  (\<open>None\<close> for nil); its transition is read only when \<open>t.From\<close> is the current state.
\<close>

fun SendEvent_loop ::
    "Transition list \<Rightarrow> Event option \<Rightarrow> FiniteStateMachine
       \<Rightarrow> (go_error option \<times> FiniteStateMachine) go" where
  "SendEvent_loop [] newEvent fsm = Ret (Some UnexpectedTransitionError, fsm)"
| "SendEvent_loop (t # ts) newEvent fsm =
     (if t_From t = fsm_State fsm then
        (case newEvent of
           None \<Rightarrow> Panic
         | Some e \<Rightarrow>
             (case evt_Transition e of
                None \<Rightarrow> Panic
              | Some tr \<Rightarrow>
                  if t_Event t = t_Event tr then
                    Ret (None,
                         fsm\<lparr>fsm_State := t_To t,
                             fsm_History := fsm_History fsm @
                               [e\<lparr>evt_Transition :=
                                    Some (tr\<lparr>t_From := fsm_State fsm, t_To := t_To t\<rparr>)\<rparr>]\<rparr>)
                  else SendEvent_loop ts newEvent fsm))
      else SendEvent_loop ts newEvent fsm)"

definition SendEvent ::
    "ConfiguredStateMachine \<Rightarrow> Event option
       \<Rightarrow> (go_error option \<times> ConfiguredStateMachine) go" where
  "SendEvent x evt =
     (case SendEvent_loop (cfg_Transitions (csm_Config x)) evt (csm_FSM x) of
        Panic \<Rightarrow> Panic
      | Ret (err, fsm) \<Rightarrow> Ret (err, x\<lparr>csm_FSM := fsm\<rparr>))"

definition Reset :: "ConfiguredStateMachine \<Rightarrow> ConfiguredStateMachine" where
  "Reset x = x\<lparr>csm_FSM := (csm_FSM x)\<lparr>fsm_State := cfg_StartingState (csm_Config x),
                                      fsm_History := []\<rparr>\<rparr>"

definition GetVersionId :: "Configuration \<Rightarrow> string" where
  "GetVersionId c = cfg_Name c @ ConfigurationVersionSeparator @ cfg_Version c"

definition HasState :: "Transition \<Rightarrow> string \<Rightarrow> bool" where
  "HasState transition state \<longleftrightarrow> state = t_From transition \<or> state = t_To transition"

fun CfgHasState_loop :: "string list \<Rightarrow> string \<Rightarrow> bool" where
  "CfgHasState_loop [] state = False"
| "CfgHasState_loop (s # ss) state = (if s = state then True else CfgHasState_loop ss state)"

definition CfgHasState :: "Configuration \<Rightarrow> string \<Rightarrow> bool" where
  "CfgHasState configuration state = CfgHasState_loop (cfg_States configuration) state"

text \<open>The two nested loops of \<^verbatim>\<open>CheckValid\<close>.\<close>

fun found_in :: "Transition list \<Rightarrow> string \<Rightarrow> bool" where
  "found_in [] s = False"
| "found_in (t # ts) s = (if HasState t s then True else found_in ts s)"

fun CheckValid_loop :: "string list \<Rightarrow> Transition list \<Rightarrow> go_error option" where
  "CheckValid_loop [] ts = None"
| "CheckValid_loop (s # ss) ts =
     (if \<not> found_in ts s then Some (UnreachableStateConfigurationError s)
      else CheckValid_loop ss ts)"

definition CheckValid :: "Configuration \<Rightarrow> go_error option" where
  "CheckValid c =
     (if cfg_Name c = '''' then Some MissingNameConfigurationError
      else if length (cfg_States c) = 0 then Some MissingStatesConfigurationError
      else if cfg_StartingState c = '''' then Some EmptyStartingStateConfigurationError
      else if \<not> CfgHasState c (cfg_StartingState c)
        then Some MismatchStartingStateConfigurationError
      else CheckValid_loop (cfg_States c) (cfg_Transitions c))"

definition CheckValid_machine :: "ConfiguredStateMachine \<Rightarrow> bool" where
  "CheckValid_machine x \<longleftrightarrow>
     CheckValid (csm_Config x) = None \<and>
     CfgHasState (csm_Config x) (fsm_State (csm_FSM x)) \<and>
     fsm_ConfigId (csm_FSM x) = GetVersionId (csm_Config x)"

text \<open>The event is updated in place: the updated event is the result, \<open>Panic\<close> for nil.\<close>

definition UpdateEvent :: "'w go_runtime \<Rightarrow> Event option \<Rightarrow> 'w \<Rightarrow> Event go \<times> 'w" where
  "UpdateEvent rt event w =
     (case event of
        None \<Rightarrow> (Panic, w)
      | Some e \<Rightarrow>
          (let (e1, w1) =
                 (if evt_EventId e = ''''
                  then (let (u, w1) = uuid_NewString rt w in (e\<lparr>evt_EventId := u\<rparr>, w1))
                  else (e, w));
               (e2, w2) =
                 (if evt_Timestamp e1 = None
                  then (let (n, w2) = time_Now rt w1 in (e1\<lparr>evt_Timestamp := Some n\<rparr>, w2))
                  else (e1, w1))
           in (Ret e2, w2)))"

definition NewEvent :: "'w go_runtime \<Rightarrow> string \<Rightarrow> 'w \<Rightarrow> Event go \<times> 'w" where
  "NewEvent rt eventName w =
     UpdateEvent rt
       (Some \<lparr>evt_EventId = '''', evt_Timestamp = None,
              evt_Transition = Some \<lparr>t_From = '''', t_To = '''', t_Event = eventName\<rparr>,
              evt_Originator = '''', evt_Details = ''''\<rparr>) w"

text \<open>The state a call of \<^verbatim>\<open>SendEvent\<close> leaves the machine in, if it does not panic.\<close>

fun map_go_state :: "('e \<times> ConfiguredStateMachine) go \<Rightarrow> string option" where
  "map_go_state Panic = None"
| "map_go_state (Ret (err, x)) = Some (fsm_State (csm_FSM x))"

section \<open>Which transition an event takes\<close>

text \<open>
  The specification: the first transition of the configuration that leaves the current
  state on this event, and the event as the history records it.
\<close>

definition enabled :: "Configuration \<Rightarrow> string \<Rightarrow> string \<Rightarrow> Transition option" where
  "enabled c st ev = find (\<lambda>t. t_From t = st \<and> t_Event t = ev) (cfg_Transitions c)"

definition recorded :: "Event \<Rightarrow> Transition \<Rightarrow> Event" where
  "recorded e t = e\<lparr>evt_Transition := Some t\<rparr>"

definition advance :: "FiniteStateMachine \<Rightarrow> Event \<Rightarrow> Transition \<Rightarrow> FiniteStateMachine" where
  "advance fsm e t =
     fsm\<lparr>fsm_State := t_To t, fsm_History := fsm_History fsm @ [recorded e t]\<rparr>"

lemma advance_simps [simp]:
  "fsm_State (advance fsm e t) = t_To t"
  "fsm_History (advance fsm e t) = fsm_History fsm @ [recorded e t]"
  "fsm_ConfigId (advance fsm e t) = fsm_ConfigId fsm"
  by (simp_all add: advance_def)

lemma enabledD:
  assumes "enabled c st ev = Some t"
  shows "t \<in> set (cfg_Transitions c)" and "t_From t = st" and "t_Event t = ev"
  using assms by (auto simp: enabled_def find_Some_iff)

lemma SendEvent_loop_eq:
  assumes "evt_Transition e = Some tr"
  shows "SendEvent_loop ts (Some e) fsm =
           (case find (\<lambda>t. t_From t = fsm_State fsm \<and> t_Event t = t_Event tr) ts of
              None \<Rightarrow> Ret (Some UnexpectedTransitionError, fsm)
            | Some t \<Rightarrow> Ret (None, advance fsm e t))"
  using assms by (induction ts) (auto simp: advance_def recorded_def)

lemma SendEvent_eq:
  assumes "evt_Transition e = Some tr"
  shows "SendEvent x (Some e) =
           (case enabled (csm_Config x) (fsm_State (csm_FSM x)) (t_Event tr) of
              None \<Rightarrow> Ret (Some UnexpectedTransitionError, x)
            | Some t \<Rightarrow> Ret (None, x\<lparr>csm_FSM := advance (csm_FSM x) e t\<rparr>))"
  using assms by (simp add: SendEvent_def SendEvent_loop_eq enabled_def split: option.split)

lemma SendEvent_panicD:
  assumes "SendEvent x evt = Panic"
  shows "Option.bind evt evt_Transition = None"
proof (rule ccontr)
  assume "Option.bind evt evt_Transition \<noteq> None"
  then obtain e tr where "evt = Some e" and "evt_Transition e = Some tr"
    by (cases evt) auto
  with assms show False by (simp add: SendEvent_eq split: option.splits)
qed

text \<open>
  C7. \<^verbatim>\<open>SendEvent\<close>, on an event that carries a transition name: it takes the first
  transition of the configuration that leaves the current state on that name. With such a
  transition the call succeeds, the state becomes the transition's target, and the history
  grows by one event, which carries the transition taken (from, to, name) and every other
  field of the event sent; the configuration and the configuration id do not change. With
  none, the call returns \<^verbatim>\<open>UnexpectedTransitionError\<close> and nothing changes.
\<close>

theorem SendEvent_takes_first_transition:
  assumes "evt_Transition e = Some tr"
  shows "SendEvent x (Some e) =
     (case find (\<lambda>t. t_From t = fsm_State (csm_FSM x) \<and> t_Event t = t_Event tr)
             (cfg_Transitions (csm_Config x)) of
        None \<Rightarrow> Ret (Some UnexpectedTransitionError, x)
      | Some t \<Rightarrow>
          Ret (None,
               \<lparr>csm_Config = csm_Config x,
                csm_FSM = \<lparr>fsm_ConfigId = fsm_ConfigId (csm_FSM x),
                           fsm_State = t_To t,
                           fsm_History = fsm_History (csm_FSM x) @
                             [\<lparr>evt_EventId = evt_EventId e, evt_Timestamp = evt_Timestamp e,
                               evt_Transition = Some t, evt_Originator = evt_Originator e,
                               evt_Details = evt_Details e\<rparr>]\<rparr>\<rparr>))"
  unfolding SendEvent_eq [OF assms]
  by (cases x; cases "csm_FSM x"; cases e)
     (simp add: enabled_def advance_def recorded_def split: option.split)

definition lander_cfg :: Configuration where
  "lander_cfg =
     \<lparr>cfg_Name = ''rover'', cfg_Version = ''v2'', cfg_States = [''earth'', ''orbit'', ''mars''],
      cfg_Transitions = [\<lparr>t_From = ''earth'', t_To = ''orbit'', t_Event = ''launch''\<rparr>,
                         \<lparr>t_From = ''orbit'', t_To = ''mars'', t_Event = ''land''\<rparr>],
      cfg_StartingState = ''earth''\<rparr>"

definition lander :: "string \<Rightarrow> ConfiguredStateMachine" where
  "lander st = \<lparr>csm_Config = lander_cfg,
                csm_FSM = \<lparr>fsm_ConfigId = ''rover:v2'', fsm_State = st, fsm_History = []\<rparr>\<rparr>"

definition event_named :: "string \<Rightarrow> Event" where
  "event_named n = \<lparr>evt_EventId = ''e1'', evt_Timestamp = Some 7,
                    evt_Transition = Some \<lparr>t_From = '''', t_To = '''', t_Event = n\<rparr>,
                    evt_Originator = ''me'', evt_Details = ''''\<rparr>"

theorem SendEvent_takes_first_transition_witness:
  "map_go_state (SendEvent (lander ''earth'') (Some (event_named ''launch''))) = Some ''orbit''"
proof -
  have "evt_Transition (event_named ''launch'') = Some \<lparr>t_From = '''', t_To = '''', t_Event = ''launch''\<rparr>"
    by (simp add: event_named_def)
  from SendEvent_takes_first_transition [OF this, of "lander ''earth''"] show ?thesis
    by (simp add: lander_def lander_cfg_def)
qed

text \<open>
  \<^verbatim>\<open>SendEvent\<close> panics exactly when the event, or its transition, is nil and the
  configuration has a transition that leaves the current state.
\<close>

theorem SendEvent_panics_iff:
  "SendEvent x evt = Panic \<longleftrightarrow>
     Option.bind evt evt_Transition = None \<and>
     (\<exists>t \<in> set (cfg_Transitions (csm_Config x)). t_From t = fsm_State (csm_FSM x))"
proof (cases "Option.bind evt evt_Transition")
  case None
  then have "SendEvent_loop ts evt fsm = Panic \<longleftrightarrow> (\<exists>t \<in> set ts. t_From t = fsm_State fsm)"
    for ts fsm
    by (induction ts) (auto split: option.splits)
  moreover have "SendEvent x evt = Panic \<longleftrightarrow>
      SendEvent_loop (cfg_Transitions (csm_Config x)) evt (csm_FSM x) = Panic"
    by (auto simp: SendEvent_def split: go.splits)
  ultimately show ?thesis using None by simp
next
  case (Some tr)
  then obtain e where "evt = Some e" and "evt_Transition e = Some tr"
    by (cases evt) auto
  with Some show ?thesis by (simp add: SendEvent_eq split: option.split)
qed

section \<open>The history of a machine\<close>

text \<open>
  The life of a machine: it is made by \<^verbatim>\<open>NewStateMachine\<close> and then receives events, accepted
  or not, and resets, in any order.
\<close>

inductive reachable_machine :: "Configuration \<Rightarrow> ConfiguredStateMachine \<Rightarrow> bool"
  for c :: Configuration where
  created: "NewStateMachine c = Inr x \<Longrightarrow> reachable_machine c x"
| sent: "reachable_machine c x \<Longrightarrow> SendEvent x evt = Ret (err, y) \<Longrightarrow> reachable_machine c y"
| was_reset: "reachable_machine c x \<Longrightarrow> reachable_machine c (Reset x)"

text \<open>A list of recorded events that leads through the transitions from one state to another.\<close>

fun path :: "Transition list \<Rightarrow> string \<Rightarrow> Event list \<Rightarrow> string \<Rightarrow> bool" where
  "path ts s [] s' \<longleftrightarrow> s = s'"
| "path ts s (e # es) s' \<longleftrightarrow>
     (case evt_Transition e of
        None \<Rightarrow> False
      | Some t \<Rightarrow> t \<in> set ts \<and> t_From t = s \<and> path ts (t_To t) es s')"

lemma path_append: "path ts s (es @ fs) s' \<longleftrightarrow> (\<exists>m. path ts s es m \<and> path ts m fs s')"
  by (induction es arbitrary: s) (auto split: option.splits)

lemma path_snoc:
  assumes "path ts s es m" and "t \<in> set ts" and "t_From t = m"
  shows "path ts s (es @ [recorded e t]) (t_To t)"
  using assms by (auto simp: path_append recorded_def)

text \<open>Every call of \<^verbatim>\<open>SendEvent\<close> that returns either refuses the event or takes a transition.\<close>

lemma SendEvent_cases:
  assumes "SendEvent x evt = Ret (err, y)"
  obtains (refused) "err = Some UnexpectedTransitionError" "y = x"
  | (taken) e tr t where "evt = Some e" "evt_Transition e = Some tr" "err = None"
      "enabled (csm_Config x) (fsm_State (csm_FSM x)) (t_Event tr) = Some t"
      "y = x\<lparr>csm_FSM := advance (csm_FSM x) e t\<rparr>"
proof (cases "Option.bind evt evt_Transition")
  case None
  have "SendEvent_loop ts evt fsm = Panic \<or>
        SendEvent_loop ts evt fsm = Ret (Some UnexpectedTransitionError, fsm)" for ts fsm
    using None by (induction ts) (auto split: option.splits)
  from this [of "cfg_Transitions (csm_Config x)" "csm_FSM x"] assms
  have "err = Some UnexpectedTransitionError \<and> y = x"
    by (auto simp: SendEvent_def)
  then show thesis using refused by blast
next
  case (Some tr)
  then obtain e where e: "evt = Some e" "evt_Transition e = Some tr"
    by (cases evt) auto
  show thesis
  proof (cases "enabled (csm_Config x) (fsm_State (csm_FSM x)) (t_Event tr)")
    case None
    with assms e show thesis by (intro refused) (simp_all add: SendEvent_eq)
  next
    case (Some t)
    with assms e have "err = None" and "y = x\<lparr>csm_FSM := advance (csm_FSM x) e t\<rparr>"
      by (simp_all add: SendEvent_eq)
    with e Some show thesis by (rule_tac taken)
  qed
qed

text \<open>The invariant of a machine's life.\<close>

definition machine_inv :: "Configuration \<Rightarrow> ConfiguredStateMachine \<Rightarrow> bool" where
  "machine_inv c x \<longleftrightarrow>
     csm_Config x = c \<and>
     fsm_ConfigId (csm_FSM x) = GetVersionId c \<and>
     path (cfg_Transitions c) (cfg_StartingState c)
       (fsm_History (csm_FSM x)) (fsm_State (csm_FSM x))"

lemma machine_inv_created: "NewStateMachine c = Inr x \<Longrightarrow> machine_inv c x"
  by (auto simp: NewStateMachine_def machine_inv_def GetVersionId_def split: if_splits)

lemma machine_inv_sent:
  assumes "machine_inv c x" and "SendEvent x evt = Ret (err, y)"
  shows "machine_inv c y"
  using assms(2)
proof (cases rule: SendEvent_cases)
  case refused
  with assms show ?thesis by simp
next
  case (taken e tr t)
  with assms(1) show ?thesis
    by (auto simp: machine_inv_def dest: enabledD intro!: path_snoc)
qed

lemma machine_inv_reset: "machine_inv c x \<Longrightarrow> machine_inv c (Reset x)"
  by (simp add: machine_inv_def Reset_def)

lemma reachable_machine_inv: "reachable_machine c x \<Longrightarrow> machine_inv c x"
  by (induction rule: reachable_machine.induct)
     (auto intro: machine_inv_created machine_inv_sent machine_inv_reset)

text \<open>
  C10. Over a machine's whole life, whatever events it receives, valid or not, and however often
  it is reset: the recorded history is a path through the configuration's transitions that
  starts in the configuration's starting state and ends in the machine's current state, and the
  machine keeps its configuration and its configuration id.
\<close>

theorem history_is_a_path:
  assumes "reachable_machine c x"
  shows "csm_Config x = c \<and> fsm_ConfigId (csm_FSM x) = GetVersionId c \<and>
         path (cfg_Transitions c) (cfg_StartingState c)
           (fsm_History (csm_FSM x)) (fsm_State (csm_FSM x))"
  using reachable_machine_inv [OF assms] by (simp add: machine_inv_def)

lemma reachable_lander: "reachable_machine lander_cfg (lander ''earth'')"
  by (rule reachable_machine.created)
     (simp add: NewStateMachine_def lander_def lander_cfg_def ConfigurationVersionSeparator_def)

lemma reachable_lander_orbit:
  "reachable_machine lander_cfg
     (lander ''earth''\<lparr>csm_FSM := advance (csm_FSM (lander ''earth'')) (event_named ''launch'')
        (hd (cfg_Transitions lander_cfg))\<rparr>)"
  by (rule reachable_machine.sent [OF reachable_lander, of "Some (event_named ''launch'')" None])
     (simp add: SendEvent_def lander_def lander_cfg_def event_named_def advance_def recorded_def)

theorem history_is_a_path_witness:
  "path (cfg_Transitions lander_cfg) ''earth''
     [recorded (event_named ''launch'') (hd (cfg_Transitions lander_cfg))] ''orbit''"
  using history_is_a_path [OF reachable_lander_orbit]
  by (simp add: lander_def lander_cfg_def)

section \<open>Validation\<close>

lemma CfgHasState_iff [simp]: "CfgHasState c s \<longleftrightarrow> s \<in> set (cfg_States c)"
proof -
  have "CfgHasState_loop ss s \<longleftrightarrow> s \<in> set ss" for ss
    by (induction ss) auto
  then show ?thesis by (simp add: CfgHasState_def)
qed

lemma found_in_iff [simp]: "found_in ts s \<longleftrightarrow> (\<exists>t \<in> set ts. HasState t s)"
  by (induction ts) auto

lemma CheckValid_loop_find:
  "CheckValid_loop ss ts =
     map_option UnreachableStateConfigurationError
       (find (\<lambda>s. \<forall>t \<in> set ts. \<not> HasState t s) ss)"
  by (induction ss) auto

lemma CheckValid_loop_None:
  "CheckValid_loop ss ts = None \<longleftrightarrow> (\<forall>s \<in> set ss. \<exists>t \<in> set ts. HasState t s)"
  by (induction ss) auto

lemma CheckValid_None_iff:
  "CheckValid c = None \<longleftrightarrow>
     cfg_Name c \<noteq> '''' \<and> cfg_StartingState c \<noteq> '''' \<and>
     cfg_StartingState c \<in> set (cfg_States c) \<and>
     (\<forall>s \<in> set (cfg_States c). \<exists>t \<in> set (cfg_Transitions c). HasState t s)"
  by (auto simp: CheckValid_def CheckValid_loop_None)

text \<open>
  \<^verbatim>\<open>CheckValid\<close>, completely: it returns the first of its errors that applies, in this
  order (no name, no states, empty starting state, starting state not among the states, a
  state that no transition uses, in which case the error names the first such state), and no
  error exactly for a configuration with a name, a non-empty starting state among its states,
  and every state the origin or target of some transition.
\<close>

theorem CheckValid_classifies:
  "CheckValid c =
     (if cfg_Name c = '''' then Some MissingNameConfigurationError
      else if cfg_States c = [] then Some MissingStatesConfigurationError
      else if cfg_StartingState c = '''' then Some EmptyStartingStateConfigurationError
      else if cfg_StartingState c \<notin> set (cfg_States c)
        then Some MismatchStartingStateConfigurationError
      else map_option UnreachableStateConfigurationError
             (find (\<lambda>s. s \<notin> t_From ` set (cfg_Transitions c) \<union> t_To ` set (cfg_Transitions c))
                (cfg_States c)))"
proof -
  have "(\<lambda>s. \<forall>t \<in> set ts. \<not> HasState t s) = (\<lambda>s. s \<notin> t_From ` set ts \<union> t_To ` set ts)" for ts
    by (auto simp: HasState_def fun_eq_iff)
  then show ?thesis
    by (simp add: CheckValid_def CheckValid_loop_find)
qed

text \<open>
  A configuration whose transitions stay within its states. \<^verbatim>\<open>CheckValid\<close> does not ask for it.
\<close>

definition closed_transitions :: "Configuration \<Rightarrow> bool" where
  "closed_transitions c \<longleftrightarrow> (\<forall>t \<in> set (cfg_Transitions c). t_To t \<in> set (cfg_States c))"

lemma path_end_state:
  assumes "path ts s es s'" and "s \<in> A" and "\<And>t. t \<in> set ts \<Longrightarrow> t_To t \<in> A"
  shows "s' \<in> A"
  using assms(1,2)
proof (induction es arbitrary: s)
  case (Cons e es)
  then obtain t where "t \<in> set ts" and "path ts (t_To t) es s'"
    by (auto split: option.splits)
  with Cons.IH assms(3) show ?case by blast
qed simp

text \<open>
  A machine made from a valid configuration with a version, whose transitions lead only to
  listed states, passes its own \<^verbatim>\<open>CheckValid\<close> at every moment of its life.
\<close>

theorem machine_stays_valid:
  assumes "reachable_machine c x" and "CheckValid c = None" and "closed_transitions c"
  shows "CheckValid_machine x"
proof -
  from assms(1) have inv: "machine_inv c x" by (rule reachable_machine_inv)
  then have "path (cfg_Transitions c) (cfg_StartingState c)
      (fsm_History (csm_FSM x)) (fsm_State (csm_FSM x))"
    by (simp add: machine_inv_def)
  moreover have "cfg_StartingState c \<in> set (cfg_States c)"
    using assms(2) by (simp add: CheckValid_None_iff)
  ultimately have "fsm_State (csm_FSM x) \<in> set (cfg_States c)"
    by (rule path_end_state) (use assms(3) in \<open>auto simp: closed_transitions_def\<close>)
  with inv assms(2) show ?thesis by (simp add: CheckValid_machine_def machine_inv_def)
qed

lemma lander_cfg_valid: "CheckValid lander_cfg = None" "closed_transitions lander_cfg"
  by (simp_all add: CheckValid_None_iff closed_transitions_def lander_cfg_def HasState_def)

theorem machine_stays_valid_witness:
  "CheckValid_machine
     (lander ''earth''\<lparr>csm_FSM := advance (csm_FSM (lander ''earth'')) (event_named ''launch'')
        (hd (cfg_Transitions lander_cfg))\<rparr>)"
  by (rule machine_stays_valid [OF reachable_lander_orbit lander_cfg_valid])

text \<open>
  \<^verbatim>\<open>CheckValid\<close> of the configuration alone does not give that: there is a configuration it
  accepts and a machine it accepts, in the life of that configuration, that an accepted event
  moves to a state the configuration does not list, after which \<^verbatim>\<open>CheckValid\<close> of the machine
  fails.
\<close>

theorem valid_machine_may_become_invalid:
  "\<exists>c x e y. reachable_machine c x \<and> CheckValid c = None \<and> CheckValid_machine x \<and>
     SendEvent x (Some e) = Ret (None, y) \<and> \<not> CheckValid_machine y"
proof -
  let ?c = "\<lparr>cfg_Name = ''c'', cfg_Version = ''v1'', cfg_States = [''a''],
      cfg_Transitions = [\<lparr>t_From = ''a'', t_To = ''b'', t_Event = ''go''\<rparr>],
      cfg_StartingState = ''a''\<rparr>"
  let ?x = "\<lparr>csm_Config = ?c,
      csm_FSM = \<lparr>fsm_ConfigId = ''c:v1'', fsm_State = ''a'', fsm_History = []\<rparr>\<rparr>"
  let ?e = "event_named ''go''"
  let ?y = "?x\<lparr>csm_FSM := advance (csm_FSM ?x) ?e (hd (cfg_Transitions ?c))\<rparr>"
  have "NewStateMachine ?c = Inr ?x"
    by (simp add: NewStateMachine_def ConfigurationVersionSeparator_def)
  then have "reachable_machine ?c ?x" by (rule reachable_machine.created)
  moreover have "CheckValid ?c = None"
    by (simp add: CheckValid_None_iff HasState_def)
  moreover from this have "CheckValid_machine ?x"
    by (simp add: CheckValid_machine_def GetVersionId_def ConfigurationVersionSeparator_def)
  moreover have "SendEvent ?x (Some ?e) = Ret (None, ?y)"
    by (simp add: SendEvent_def event_named_def advance_def recorded_def)
  moreover have "\<not> CheckValid_machine ?y"
    by (simp add: CheckValid_machine_def)
  ultimately show ?thesis by blast
qed

text \<open>
  \<^verbatim>\<open>NewStateMachine\<close> accepts every valid configuration that has a version, and then the
  machine is valid, in the starting state and without history; it refuses a configuration with
  no version, which \<^verbatim>\<open>CheckValid\<close> accepts.
\<close>

theorem NewStateMachine_of_valid:
  assumes "CheckValid c = None"
  shows "if cfg_Version c = '''' then NewStateMachine c = Inl MalformedConfigurationError
         else \<exists>x. NewStateMachine c = Inr x \<and> CheckValid_machine x \<and>
                  fsm_State (csm_FSM x) = cfg_StartingState c \<and> fsm_History (csm_FSM x) = []"
  using assms
  by (auto simp: NewStateMachine_def CheckValid_machine_def CheckValid_None_iff GetVersionId_def)

theorem NewStateMachine_of_valid_witness:
  "(\<exists>x. NewStateMachine lander_cfg = Inr x \<and> CheckValid_machine x \<and>
        fsm_State (csm_FSM x) = ''earth'') \<and>
   NewStateMachine (lander_cfg\<lparr>cfg_Version := ''''\<rparr>) = Inl MalformedConfigurationError"
proof
  show "\<exists>x. NewStateMachine lander_cfg = Inr x \<and> CheckValid_machine x \<and>
        fsm_State (csm_FSM x) = ''earth''"
    using NewStateMachine_of_valid [OF lander_cfg_valid(1)] by (auto simp: lander_cfg_def)
  have "CheckValid (lander_cfg\<lparr>cfg_Version := ''''\<rparr>) = None"
    using lander_cfg_valid(1) by (simp add: CheckValid_None_iff)
  from NewStateMachine_of_valid [OF this]
  show "NewStateMachine (lander_cfg\<lparr>cfg_Version := ''''\<rparr>) = Inl MalformedConfigurationError"
    by simp
qed

section \<open>New events\<close>

text \<open>The id and the timestamp \<^verbatim>\<open>UpdateEvent\<close> leaves in an event that exists.\<close>

definition updated_id :: "'w go_runtime \<Rightarrow> Event \<Rightarrow> 'w \<Rightarrow> string" where
  "updated_id rt e w =
     (if evt_EventId e = '''' then fst (uuid_NewString rt w) else evt_EventId e)"

definition updated_time :: "'w go_runtime \<Rightarrow> Event \<Rightarrow> 'w \<Rightarrow> int" where
  "updated_time rt e w =
     (case evt_Timestamp e of
        Some n \<Rightarrow> n
      | None \<Rightarrow>
          fst (time_Now rt (if evt_EventId e = '''' then snd (uuid_NewString rt w) else w)))"

lemma UpdateEvent_Some:
  "fst (UpdateEvent rt (Some e) w) =
     Ret (e\<lparr>evt_EventId := updated_id rt e w, evt_Timestamp := Some (updated_time rt e w)\<rparr>)"
  by (cases e) (auto simp: UpdateEvent_def updated_id_def updated_time_def Let_def
      split: prod.splits option.splits)

lemma UpdateEvent_idle:
  assumes "evt_EventId e \<noteq> ''''" and "evt_Timestamp e \<noteq> None"
  shows "UpdateEvent rt (Some e) w = (Ret e, w)"
  using assms by (auto simp: UpdateEvent_def)

context runtime
begin

lemma updated_id_nonempty: "updated_id rt e w \<noteq> ''''"
  using uuid_nonempty by (simp add: updated_id_def)

end

text \<open>
  \<^verbatim>\<open>UpdateEvent\<close> gives an event that exists a non-empty id and a timestamp, keeps an id or a
  timestamp that is already set, and changes no other field, whenever the uuid generator returns
  non-empty strings; a second call, in any world, changes nothing more.
\<close>

theorem UpdateEvent_completes:
  assumes "runtime rt"
  shows "\<exists>u n e'. fst (UpdateEvent rt (Some e) w) = Ret e' \<and>
           e' = e\<lparr>evt_EventId := u, evt_Timestamp := Some n\<rparr> \<and> u \<noteq> '''' \<and>
           (evt_EventId e \<noteq> '''' \<longrightarrow> u = evt_EventId e) \<and>
           (evt_Timestamp e \<noteq> None \<longrightarrow> evt_Timestamp e = Some n) \<and>
           (\<forall>w'. UpdateEvent rt (Some e') w' = (Ret e', w'))"
proof -
  let ?u = "updated_id rt e w" and ?n = "updated_time rt e w"
  have "?u \<noteq> ''''" by (rule runtime.updated_id_nonempty [OF assms])
  moreover have "evt_EventId e \<noteq> '''' \<longrightarrow> ?u = evt_EventId e" by (simp add: updated_id_def)
  moreover have "evt_Timestamp e \<noteq> None \<longrightarrow> evt_Timestamp e = Some ?n"
    by (auto simp: updated_time_def)
  moreover have "UpdateEvent rt (Some (e\<lparr>evt_EventId := ?u, evt_Timestamp := Some ?n\<rparr>)) w' =
      (Ret (e\<lparr>evt_EventId := ?u, evt_Timestamp := Some ?n\<rparr>), w')" for w'
    using \<open>?u \<noteq> ''''\<close> by (intro UpdateEvent_idle) simp_all
  ultimately show ?thesis
    using UpdateEvent_Some [of rt e w] by blast
qed

text \<open>A runtime for the witnesses: the world counts the calls.\<close>

definition counting_runtime :: "nat go_runtime" where
  "counting_runtime =
     \<lparr>uuid_NewString = (\<lambda>w. (''id'' @ replicate w CHR ''x'', Suc w)),
      time_Now = (\<lambda>w. (int w, Suc w)),
      rand_Intn = (\<lambda>n w. (0, w)),
      time_Sleep = (\<lambda>d w. w)\<rparr>"

interpretation counting: runtime counting_runtime
  by unfold_locales (simp add: counting_runtime_def)

theorem UpdateEvent_completes_witness:
  "\<exists>u n. fst (UpdateEvent counting_runtime
             (Some ((event_named ''go'')\<lparr>evt_EventId := '''', evt_Timestamp := None\<rparr>)) 3) =
           Ret ((event_named ''go'')\<lparr>evt_EventId := u, evt_Timestamp := Some n\<rparr>) \<and> u \<noteq> ''''"
  using UpdateEvent_completes [OF counting.runtime_axioms,
      of "(event_named ''go'')\<lparr>evt_EventId := '''', evt_Timestamp := None\<rparr>" 3]
  by auto

end
