(* ===== verification/Keys.thy ===== *)
theory Keys
  imports Api
begin

text \<open>
  The Redis keys (\<^verbatim>\<open>pkg/storage/keys.go\<close>). Every collection of the store has its family of
  keys; the lemmas show that keys of different objects differ as long as configuration names
  contain neither separator, and that they collide otherwise.
\<close>

section \<open>Definitions\<close>

definition ConfigsPrefix :: string where "ConfigsPrefix = ''configs''"
definition EventsPrefix :: string where "EventsPrefix = ''events''"
definition FsmPrefix :: string where "FsmPrefix = ''fsm''"
definition KeyPrefixComponentsSeparator :: string where "KeyPrefixComponentsSeparator = '':''"
definition KeyPrefixIDSeparator :: string where "KeyPrefixIDSeparator = ''#''"

definition NewKeyForConfig :: "string \<Rightarrow> string" where
  "NewKeyForConfig ident = Join [ConfigsPrefix, ident] KeyPrefixIDSeparator"

definition NewKeyForMachine :: "string \<Rightarrow> string \<Rightarrow> string" where
  "NewKeyForMachine ident cfgName =
     (let prefix = Join [FsmPrefix, cfgName] KeyPrefixComponentsSeparator
      in Join [prefix, ident] KeyPrefixIDSeparator)"

definition NewKeyForMachinesByState :: "string \<Rightarrow> string \<Rightarrow> string" where
  "NewKeyForMachinesByState cfgName state =
     (let prefix = Join [FsmPrefix, cfgName, ''state''] KeyPrefixComponentsSeparator
      in Join [prefix, state] KeyPrefixIDSeparator)"

definition NewKeyForEvent :: "string \<Rightarrow> string \<Rightarrow> string" where
  "NewKeyForEvent ident cfgName =
     (let prefix = Join [EventsPrefix, cfgName] KeyPrefixComponentsSeparator
      in Join [prefix, ident] KeyPrefixIDSeparator)"

definition NewKeyForOutcome :: "string \<Rightarrow> string \<Rightarrow> string" where
  "NewKeyForOutcome ident cfgName =
     (let prefix = Join [EventsPrefix, cfgName, ''outcome''] KeyPrefixComponentsSeparator
      in Join [prefix, ident] KeyPrefixIDSeparator)"

section \<open>The shape of the keys\<close>

lemmas prefix_defs = ConfigsPrefix_def EventsPrefix_def FsmPrefix_def
  KeyPrefixComponentsSeparator_def KeyPrefixIDSeparator_def

lemma NewKeyForConfig_eq: "NewKeyForConfig ident = ''configs'' @ CHR ''#'' # ident"
  by (simp add: NewKeyForConfig_def prefix_defs)

lemma NewKeyForMachine_eq: "NewKeyForMachine ident cfg = (''fsm:'' @ cfg) @ CHR ''#'' # ident"
  by (simp add: NewKeyForMachine_def prefix_defs)

lemma NewKeyForMachinesByState_eq:
  "NewKeyForMachinesByState cfg st = (''fsm:'' @ cfg @ '':state'') @ CHR ''#'' # st"
  by (simp add: NewKeyForMachinesByState_def prefix_defs)

lemma NewKeyForEvent_eq: "NewKeyForEvent ident cfg = (''events:'' @ cfg) @ CHR ''#'' # ident"
  by (simp add: NewKeyForEvent_def prefix_defs)

lemma NewKeyForOutcome_eq:
  "NewKeyForOutcome ident cfg = (''events:'' @ cfg @ '':outcome'') @ CHR ''#'' # ident"
  by (simp add: NewKeyForOutcome_def prefix_defs)

lemma GetVersionId_eq: "GetVersionId c = cfg_Name c @ CHR '':'' # cfg_Version c"
  by (simp add: GetVersionId_def ConfigurationVersionSeparator_def)

lemmas key_eqs = NewKeyForConfig_eq NewKeyForMachine_eq NewKeyForMachinesByState_eq
  NewKeyForEvent_eq NewKeyForOutcome_eq

section \<open>Keys of different objects differ\<close>

text \<open>What the store keeps in Redis, and the key it keeps it under.\<close>

datatype object =
    ConfigNames
  | Versions string                 \<comment> \<open>of the configurations with this name\<close>
  | Config string string            \<comment> \<open>name, version\<close>
  | Machine string string           \<comment> \<open>id, configuration name\<close>
  | ByState string string           \<comment> \<open>configuration name, state\<close>
  | StoredEvent string string       \<comment> \<open>event id, configuration name\<close>
  | Outcome string string           \<comment> \<open>event id, configuration name\<close>

fun key_of :: "object \<Rightarrow> string" where
  "key_of ConfigNames = ConfigsPrefix"
| "key_of (Versions n) = NewKeyForConfig n"
| "key_of (Config n v) = NewKeyForConfig (n @ ConfigurationVersionSeparator @ v)"
| "key_of (Machine i n) = NewKeyForMachine i n"
| "key_of (ByState n s) = NewKeyForMachinesByState n s"
| "key_of (StoredEvent i n) = NewKeyForEvent i n"
| "key_of (Outcome i n) = NewKeyForOutcome i n"

text \<open>A configuration name without separators.\<close>

definition plain :: "string \<Rightarrow> bool" where
  "plain n \<longleftrightarrow> CHR '':'' \<notin> set n \<and> CHR ''#'' \<notin> set n"

fun config_name :: "object \<Rightarrow> string" where
  "config_name ConfigNames = ''''"
| "config_name (Versions n) = n"
| "config_name (Config n v) = n"
| "config_name (Machine i n) = n"
| "config_name (ByState n s) = n"
| "config_name (StoredEvent i n) = n"
| "config_name (Outcome i n) = n"

text \<open>
  The part of a key before the first hash sign, the part after it, and the object they
  determine.
\<close>

definition head_of :: "string \<Rightarrow> string" where "head_of k = takeWhile (\<lambda>x. x \<noteq> CHR ''#'') k"
definition tail_of :: "string \<Rightarrow> string" where "tail_of k = drop (Suc (length (head_of k))) k"

lemma head_tail_sep:
  assumes "CHR ''#'' \<notin> set a"
  shows "head_of (a @ CHR ''#'' # b) = a" and "tail_of (a @ CHR ''#'' # b) = b"
  using takeWhile_sep [OF assms, of b] by (simp_all add: head_of_def tail_of_def)

definition object_of :: "string \<Rightarrow> object" where
  "object_of k =
     (if k = ''configs'' then ConfigNames
      else case (Split (head_of k) CHR '':'', tail_of k) of
        ([p], i) \<Rightarrow> (case Split i CHR '':'' of
                       [n] \<Rightarrow> Versions n
                     | n # _ \<Rightarrow> Config n (drop (Suc (length n)) i)
                     | [] \<Rightarrow> ConfigNames)
      | ([p, n], i) \<Rightarrow> if p = ''fsm'' then Machine i n else StoredEvent i n
      | (p # n # _, i) \<Rightarrow> if p = ''fsm'' then ByState n i else Outcome i n
      | ([], i) \<Rightarrow> ConfigNames)"

lemma head_tail_config_key [simp]:
  "head_of (NewKeyForConfig i) = ''configs''" "tail_of (NewKeyForConfig i) = i"
  unfolding key_eqs by (rule head_tail_sep, simp)+

lemma head_tail_key [simp]:
  assumes "CHR ''#'' \<notin> set n"
  shows "head_of (NewKeyForMachine i n) = ''fsm:'' @ n" "tail_of (NewKeyForMachine i n) = i"
    "head_of (NewKeyForMachinesByState n i) = ''fsm:'' @ n @ '':state''"
    "tail_of (NewKeyForMachinesByState n i) = i"
    "head_of (NewKeyForEvent i n) = ''events:'' @ n" "tail_of (NewKeyForEvent i n) = i"
    "head_of (NewKeyForOutcome i n) = ''events:'' @ n @ '':outcome''"
    "tail_of (NewKeyForOutcome i n) = i"
  unfolding key_eqs by (rule head_tail_sep, simp add: assms)+

lemma key_not_configs [simp]:
  "NewKeyForConfig i \<noteq> ''configs''" "NewKeyForMachine i n \<noteq> ''configs''"
  "NewKeyForMachinesByState n i \<noteq> ''configs''" "NewKeyForEvent i n \<noteq> ''configs''"
  "NewKeyForOutcome i n \<noteq> ''configs''"
  by (simp_all add: key_eqs)

lemma Split_names:
  assumes "CHR '':'' \<notin> set n"
  shows "Split (''fsm:'' @ n) CHR '':'' = [''fsm'', n]"
    "Split (''fsm:'' @ n @ '':state'') CHR '':'' = [''fsm'', n, ''state'']"
    "Split (''events:'' @ n) CHR '':'' = [''events'', n]"
    "Split (''events:'' @ n @ '':outcome'') CHR '':'' = [''events'', n, ''outcome'']"
    "Split (n @ CHR '':'' # v) CHR '':'' = n # Split v CHR '':''"
    "Split ''configs'' CHR '':'' = [''configs'']"
  using assms Split_append [OF assms, of "''state''"] Split_append [OF assms, of "''outcome''"]
  by (simp_all add: Split_no_sep Split_append)

lemma object_of_key: "plain (config_name x) \<Longrightarrow> object_of (key_of x) = x"
proof (cases x)
  case (Config n v)
  moreover assume "plain (config_name x)"
  ultimately show ?thesis
    by (cases "Split v CHR '':''")
       (auto simp: object_of_def plain_def ConfigurationVersionSeparator_def Split_names)
qed (auto simp: object_of_def plain_def Split_names Split_no_sep ConfigsPrefix_def)

lemma key_of_inject:
  "plain (config_name x) \<Longrightarrow> plain (config_name y) \<Longrightarrow> key_of x = key_of y \<longleftrightarrow> x = y"
  using object_of_key by metis

text \<open>
  C33. No two objects of the store share a key, whatever their kinds (the set of configuration
  names, the set of versions of a name, a configuration, a machine, the set of machines in a
  state, an event, an event outcome), whatever the ids, versions and states are, as long as the
  configuration names contain neither a colon nor a hash sign.
\<close>

theorem keys_distinct:
  assumes "plain (config_name x)" and "plain (config_name y)"
  shows "key_of x = key_of y \<longleftrightarrow> x = y"
  using assms by (rule key_of_inject)

theorem keys_distinct_witness:
  "NewKeyForMachine ''a#b'' ''orders'' \<noteq> NewKeyForMachinesByState ''orders'' ''a#b''"
  using keys_distinct [of "Machine ''a#b'' ''orders''" "ByState ''orders'' ''a#b''"]
  by (simp add: plain_def)

text \<open>
  With a colon in a configuration name the keys do collide, and \<^verbatim>\<open>CheckValid\<close> accepts such
  names: a machine of configuration \<open>n:state\<close> has the key of the set of machines of \<open>n\<close> in the
  state named like its id; an event of \<open>n:outcome\<close> has the key of an outcome of \<open>n\<close>; and the set
  of versions of \<open>n:v\<close> has the key of version \<open>v\<close> of configuration \<open>n\<close>.
\<close>

theorem keys_collide_for_names_with_colons:
  "NewKeyForMachine i (n @ '':state'') = NewKeyForMachinesByState n i \<and>
   NewKeyForEvent i (n @ '':outcome'') = NewKeyForOutcome i n \<and>
   (cfg_Name c = n \<and> cfg_Version c = v \<and> cfg_Name d = n @ '':'' @ v
      \<longrightarrow> NewKeyForConfig (cfg_Name d) = NewKeyForConfig (GetVersionId c)) \<and>
   CheckValid (lander_cfg\<lparr>cfg_Name := ''rover:state''\<rparr>) = None"
  using lander_cfg_valid(1) by (simp add: key_eqs GetVersionId_eq CheckValid_None_iff)

theorem keys_collide_for_names_with_colons_witness:
  "NewKeyForConfig (cfg_Name (lander_cfg\<lparr>cfg_Name := ''rover:v2''\<rparr>)) =
   NewKeyForConfig (GetVersionId lander_cfg)"
  using keys_collide_for_names_with_colons
    [of "''''" "''rover''" lander_cfg "''v2''" "lander_cfg\<lparr>cfg_Name := ''rover:v2''\<rparr>"]
  by (simp add: lander_cfg_def)

end
