(* ===== verification/Regexp.thy ===== *)
theory Regexp
  imports Prelude
begin

text \<open>
  The fragment of Go's \<^verbatim>\<open>regexp\<close> package the sources use: literals, character classes,
  concatenation and repetition. A pattern that starts with \<^verbatim>\<open>^\<close> and ends with \<^verbatim>\<open>$\<close> matches
  the whole text. \<open>rmatch\<close> is the meaning of a pattern; \<open>matches\<close> computes it by taking
  derivatives, and the two agree.
\<close>

datatype re = Zero | One | Cls "char \<Rightarrow> bool" | Seq re re | Alt re re | Star re

definition Plus :: "re \<Rightarrow> re" where "Plus r = Seq r (Star r)"

primrec Lit :: "string \<Rightarrow> re" where
  "Lit [] = One"
| "Lit (c # cs) = Seq (Cls ((=) c)) (Lit cs)"

inductive rmatch :: "re \<Rightarrow> string \<Rightarrow> bool" where
  one: "rmatch One []"
| cls: "P c \<Longrightarrow> rmatch (Cls P) [c]"
| seq: "rmatch r s \<Longrightarrow> rmatch q t \<Longrightarrow> rmatch (Seq r q) (s @ t)"
| altL: "rmatch r s \<Longrightarrow> rmatch (Alt r q) s"
| altR: "rmatch q s \<Longrightarrow> rmatch (Alt r q) s"
| star0: "rmatch (Star r) []"
| star1: "rmatch r s \<Longrightarrow> s \<noteq> [] \<Longrightarrow> rmatch (Star r) t \<Longrightarrow> rmatch (Star r) (s @ t)"

inductive_simps rmatch_Zero [simp]: "rmatch Zero s"
inductive_simps rmatch_One [simp]: "rmatch One s"
inductive_simps rmatch_Cls [simp]: "rmatch (Cls P) s"
inductive_simps rmatch_Seq: "rmatch (Seq r q) s"
inductive_simps rmatch_Alt [simp]: "rmatch (Alt r q) s"
inductive_cases rmatch_StarE: "rmatch (Star r) s"

primrec nullable :: "re \<Rightarrow> bool" where
  "nullable Zero = False"
| "nullable One = True"
| "nullable (Cls P) = False"
| "nullable (Seq r q) = (nullable r \<and> nullable q)"
| "nullable (Alt r q) = (nullable r \<or> nullable q)"
| "nullable (Star r) = True"

primrec deriv :: "char \<Rightarrow> re \<Rightarrow> re" where
  "deriv c Zero = Zero"
| "deriv c One = Zero"
| "deriv c (Cls P) = (if P c then One else Zero)"
| "deriv c (Seq r q) =
     (if nullable r then Alt (Seq (deriv c r) q) (deriv c q) else Seq (deriv c r) q)"
| "deriv c (Alt r q) = Alt (deriv c r) (deriv c q)"
| "deriv c (Star r) = Seq (deriv c r) (Star r)"

fun matches :: "re \<Rightarrow> string \<Rightarrow> bool" where
  "matches r [] = nullable r"
| "matches r (c # s) = matches (deriv c r) s"

lemma nullable_rmatch: "nullable r \<longleftrightarrow> rmatch r []"
proof (induction r)
  case (Seq r q)
  then show ?case by (auto simp: rmatch_Seq)
next
  case (Star r)
  then show ?case by (auto intro: rmatch.star0)
qed auto

lemma rmatch_Seq_Cons:
  "rmatch (Seq r q) (c # s) \<longleftrightarrow>
     (\<exists>t u. rmatch r (c # t) \<and> rmatch q u \<and> s = t @ u) \<or> rmatch r [] \<and> rmatch q (c # s)"
  unfolding rmatch_Seq by (auto simp: Cons_eq_append_conv; fastforce)

lemma rmatch_Star_Cons:
  "rmatch (Star r) (c # s) \<longleftrightarrow> (\<exists>t u. rmatch r (c # t) \<and> rmatch (Star r) u \<and> s = t @ u)"
proof
  assume "rmatch (Star r) (c # s)"
  then show "\<exists>t u. rmatch r (c # t) \<and> rmatch (Star r) u \<and> s = t @ u"
    by (cases rule: rmatch_StarE) (auto simp: Cons_eq_append_conv, blast)
next
  assume "\<exists>t u. rmatch r (c # t) \<and> rmatch (Star r) u \<and> s = t @ u"
  then obtain t u where "rmatch r (c # t)" "rmatch (Star r) u" "s = t @ u" by blast
  then show "rmatch (Star r) (c # s)" using rmatch.star1 [of r "c # t" u] by simp
qed

lemma deriv_rmatch: "rmatch (deriv c r) s \<longleftrightarrow> rmatch r (c # s)"
proof (induction r arbitrary: s)
  case (Seq r q)
  then show ?case
    by (auto simp: nullable_rmatch rmatch_Seq_Cons) (auto simp: rmatch_Seq)
next
  case (Star r)
  then show ?case by (auto simp: rmatch_Star_Cons rmatch_Seq)
qed auto

lemma matches_rmatch: "matches r s \<longleftrightarrow> rmatch r s"
  by (induction s arbitrary: r) (simp_all add: nullable_rmatch deriv_rmatch)

lemma rmatch_Lit [simp]: "rmatch (Lit l) s \<longleftrightarrow> s = l"
  by (induction l arbitrary: s) (auto simp: rmatch_Seq)

declare Lit.simps [simp del]

lemma rmatch_Star_Cls [simp]: "rmatch (Star (Cls P)) s \<longleftrightarrow> list_all P s"
proof (induction s)
  case Nil
  show ?case by (simp add: rmatch.star0)
next
  case (Cons c s)
  then show ?case by (auto simp: rmatch_Star_Cons)
qed

lemma rmatch_Plus_Cls [simp]: "rmatch (Plus (Cls P)) s \<longleftrightarrow> s \<noteq> [] \<and> list_all P s"
  by (cases s) (simp_all add: Plus_def rmatch_Seq_Cons, simp add: rmatch_Seq)

end
