(* ===== verification/Store_Types.thy ===== *)
theory Store_Types
  imports Keys Regexp
begin

text \<open>
  The errors of the store and how a caller recognises one (\<^verbatim>\<open>pkg/storage/types.go\<close>). The
  store's interface is in theory \<open>Store_Manager\<close>.
\<close>

section \<open>Definitions\<close>

text \<open>
  \<^verbatim>\<open>fmt.Errorf\<close> with one string argument: the first \<^verbatim>\<open>%s\<close> or \<^verbatim>\<open>%v\<close> is replaced, and an
  argument no verb consumes is appended the way the package does it.
\<close>

fun Sprintf1 :: "string \<Rightarrow> string option \<Rightarrow> string" where
  "Sprintf1 [] None = []"
| "Sprintf1 [] (Some a) = ''%!(EXTRA string='' @ a @ '')''"
| "Sprintf1 [c] arg = c # Sprintf1 [] arg"
| "Sprintf1 (c # d # s) arg =
     (case arg of
        Some a \<Rightarrow>
          if c = CHR ''%'' \<and> (d = CHR ''s'' \<or> d = CHR ''v'') then a @ Sprintf1 s None
          else c # Sprintf1 (d # s) arg
      | None \<Rightarrow> c # Sprintf1 (d # s) arg)"

text \<open>The lifetime of values that are to be kept.\<close>

definition NeverExpire :: duration where "NeverExpire = 0"

definition Error :: "string \<Rightarrow> string \<Rightarrow> go_error" where
  "Error msg = (\<lambda>key. Errorf (Sprintf1 msg (Some key)))"

definition AlreadyExistsError :: "string \<Rightarrow> go_error" where
  "AlreadyExistsError = Error ''key %s already exists''"

definition GenericStoreError :: "string \<Rightarrow> go_error" where
  "GenericStoreError = Error ''store error: %v''"

definition InvalidDataError :: "string \<Rightarrow> go_error" where
  "InvalidDataError = Error ''error storing invalid data: %v''"

definition NotFoundError :: "string \<Rightarrow> go_error" where
  "NotFoundError = Error ''key %s not found''"

definition NotImplementedError :: "string \<Rightarrow> go_error" where
  "NotImplementedError = Error ''functionality %s has not been implemented yet''"

definition TooManyAttempts :: "string \<Rightarrow> go_error" where
  "TooManyAttempts = Error ''retries exceeded''"

text \<open>The class \<^verbatim>\<open>\s\<close> of the regular expressions.\<close>

definition is_space :: "char \<Rightarrow> bool" where
  "is_space c \<longleftrightarrow> c \<in> {CHR '' '', CHR 0x09, CHR 0x0A, CHR 0x0C, CHR 0x0D}"

definition not_found_pattern :: re where
  "not_found_pattern =
     Seq (Lit ''key'')
       (Seq (Plus (Cls is_space))
         (Seq (Plus (Cls (\<lambda>c. \<not> is_space c)))
           (Seq (Plus (Cls is_space))
             (Seq (Lit ''not'') (Seq (Cls is_space) (Lit ''found''))))))"

definition IsNotFoundErr :: "go_error \<Rightarrow> bool" where
  "IsNotFoundErr err \<longleftrightarrow> matches not_found_pattern (Error_text err)"

section \<open>The texts of the errors\<close>

lemma Sprintf1_None [simp]: "Sprintf1 s None = s"
  by (induction s "None :: string option" rule: Sprintf1.induct) auto

lemma store_error_texts [simp]:
  "Error_text (AlreadyExistsError k) = ''key '' @ k @ '' already exists''"
  "Error_text (GenericStoreError k) = ''store error: '' @ k"
  "Error_text (InvalidDataError k) = ''error storing invalid data: '' @ k"
  "Error_text (NotFoundError k) = ''key '' @ k @ '' not found''"
  "Error_text (TooManyAttempts k) = ''retries exceeded%!(EXTRA string='' @ k @ '')''"
  by (simp_all add: Error_def AlreadyExistsError_def GenericStoreError_def InvalidDataError_def
      NotFoundError_def TooManyAttempts_def)

lemma store_errors_are_values [simp]:
  "AlreadyExistsError k \<noteq> TxFailedErr" "GenericStoreError k \<noteq> TxFailedErr"
  "InvalidDataError k \<noteq> TxFailedErr" "NotFoundError k \<noteq> TxFailedErr"
  "TooManyAttempts k \<noteq> TxFailedErr"
  by (simp_all add: Error_def AlreadyExistsError_def GenericStoreError_def InvalidDataError_def
      NotFoundError_def TooManyAttempts_def)

section \<open>Recognising a missing key\<close>

lemma is_space_letters [simp]:
  "\<not> is_space CHR ''n''" "\<not> is_space CHR ''k''" "\<not> is_space CHR ''d''" "is_space CHR '' ''"
  by (simp_all add: is_space_def)

lemma IsNotFoundErr_iff:
  "IsNotFoundErr err \<longleftrightarrow>
     (\<exists>a k b x. Error_text err = ''key'' @ a @ k @ b @ ''not'' @ [x] @ ''found'' \<and>
        a \<noteq> [] \<and> list_all is_space a \<and> k \<noteq> [] \<and> list_all (\<lambda>c. \<not> is_space c) k \<and>
        b \<noteq> [] \<and> list_all is_space b \<and> is_space x)" (is "_ \<longleftrightarrow> ?rhs")
proof
  assume "IsNotFoundErr err"
  then show ?rhs
    unfolding IsNotFoundErr_def matches_rmatch not_found_pattern_def
    by (auto simp: rmatch_Seq) metis
next
  assume ?rhs
  then obtain a k b x where
    shape: "Error_text err = ''key'' @ a @ k @ b @ ''not'' @ [x] @ ''found''"
    and parts: "a \<noteq> []" "list_all is_space a" "k \<noteq> []" "list_all (\<lambda>c. \<not> is_space c) k"
      "b \<noteq> []" "list_all is_space b" "is_space x"
    by blast
  show "IsNotFoundErr err"
    unfolding IsNotFoundErr_def matches_rmatch not_found_pattern_def shape
    using parts by (intro rmatch.seq) simp_all
qed

text \<open>A word between white space on either side.\<close>

definition one_word :: "string \<Rightarrow> bool" where
  "one_word k \<longleftrightarrow>
     (let s = dropWhile is_space k
      in s \<noteq> [] \<and> list_all is_space (dropWhile (\<lambda>x. \<not> is_space x) s))"

lemma one_word_iff:
  "one_word k \<longleftrightarrow>
     (\<exists>p c q. k = p @ c @ q \<and> list_all is_space p \<and> list_all is_space q \<and>
        c \<noteq> [] \<and> list_all (\<lambda>x. \<not> is_space x) c)" (is "_ \<longleftrightarrow> ?rhs")
proof
  let ?s = "dropWhile is_space k"
  let ?c = "takeWhile (\<lambda>x. \<not> is_space x) ?s" and ?q = "dropWhile (\<lambda>x. \<not> is_space x) ?s"
  assume k: "one_word k"
  then have "?c \<noteq> []" using hd_dropWhile [of is_space k] by (cases ?s) (auto simp: one_word_def Let_def)
  moreover have "k = takeWhile is_space k @ ?c @ ?q" by simp
  moreover have "list_all is_space ?q" using k by (simp add: one_word_def Let_def)
  moreover have "list_all is_space (takeWhile is_space k)" "list_all (\<lambda>x. \<not> is_space x) ?c"
    by (auto simp: list_all_iff dest: set_takeWhileD)
  ultimately show ?rhs by blast
next
  assume ?rhs
  then obtain p c q where k: "k = p @ c @ q" "list_all is_space p" "list_all is_space q"
    "c \<noteq> []" "list_all (\<lambda>x. \<not> is_space x) c" by blast
  then have "dropWhile is_space k = c @ q"
    by (cases c) (auto simp: list_all_iff dropWhile_append2)
  moreover have "dropWhile (\<lambda>x. \<not> is_space x) (c @ q) = q"
    using k by (cases q) (auto simp: list_all_iff dropWhile_append2)
  ultimately show "one_word k" using k by (simp add: one_word_def)
qed

lemma IsNotFoundErr_NotFoundError: "IsNotFoundErr (NotFoundError k) \<longleftrightarrow> one_word k"
proof
  assume "IsNotFoundErr (NotFoundError k)"
  then obtain a c b x where
    "''key'' @ ('' '' @ k @ '' '') @ ''not found'' = ''key'' @ (a @ c @ b) @ ''not'' @ [x] @ ''found''"
    and parts: "a \<noteq> []" "list_all is_space a" "c \<noteq> []" "list_all (\<lambda>c. \<not> is_space c) c"
      "b \<noteq> []" "list_all is_space b"
    unfolding IsNotFoundErr_iff by auto
  then have "('' '' @ k @ '' '') @ ''not found'' = (a @ c @ b) @ ''not'' @ [x] @ ''found''"
    by (simp only: same_append_eq)
  then have eq: "'' '' @ k @ '' '' = a @ c @ b"
    by (rule append_eq_append_conv [THEN iffD1, THEN conjunct1, rotated]) simp
  obtain a' where a: "a = CHR '' '' # a'" using eq parts(1) by (cases a) auto
  obtain b' where b: "b = b' @ '' ''"
    using eq parts(5) a by (cases b rule: rev_cases) auto
  have "k = a' @ c @ b'" using eq a b by simp
  with parts a b show "one_word k" by (auto simp: one_word_iff)
next
  assume "one_word k"
  then obtain p c q where "k = p @ c @ q" "list_all is_space p" "list_all is_space q"
    "c \<noteq> []" "list_all (\<lambda>x. \<not> is_space x) c"
    by (auto simp: one_word_iff)
  then show "IsNotFoundErr (NotFoundError k)"
    unfolding IsNotFoundErr_iff
    by (intro exI [of _ "'' '' @ p"] exI [of _ c] exI [of _ "q @ '' ''"] exI [of _ "CHR '' ''"])
       simp
qed

lemma one_word_middle_space:
  assumes "\<not> is_space (hd k)" and "\<not> is_space (last k)" and "k \<noteq> []" and "x \<in> set k" and "is_space x"
  shows "\<not> one_word k"
proof
  assume "one_word k"
  then obtain p c q where k: "k = p @ c @ q" "list_all is_space p" "list_all is_space q"
    "list_all (\<lambda>x. \<not> is_space x) c"
    by (auto simp: one_word_iff)
  have "p = []" using assms(1) k by (cases p) auto
  moreover have "q = []" using assms(2) k by (cases q rule: rev_cases) auto
  ultimately show False using assms(4,5) k by (auto simp: list_all_iff)
qed

lemma IsNotFoundErr_first_letter:
  "IsNotFoundErr err \<Longrightarrow> \<exists>s. Error_text err = CHR ''k'' # s"
  by (auto simp: IsNotFoundErr_iff)

lemma IsNotFoundErr_last_letter: "IsNotFoundErr err \<Longrightarrow> last (Error_text err) = CHR ''d''"
  by (auto simp: IsNotFoundErr_iff)

lemma IsNotFoundErr_others [simp]:
  "\<not> IsNotFoundErr (NotFoundError (Error_text (NotFoundError k)))"
  "\<not> IsNotFoundErr (AlreadyExistsError k)" "\<not> IsNotFoundErr (GenericStoreError k)"
  "\<not> IsNotFoundErr (InvalidDataError k)" "\<not> IsNotFoundErr (TooManyAttempts k)"
  "\<not> IsNotFoundErr UnexpectedTransitionError"
proof -
  have "\<not> one_word (''key '' @ k @ '' not found'')"
    by (rule one_word_middle_space [of _ "CHR '' ''"]) simp_all
  then show "\<not> IsNotFoundErr (NotFoundError (Error_text (NotFoundError k)))"
    by (simp add: IsNotFoundErr_NotFoundError)
  show "\<not> IsNotFoundErr (AlreadyExistsError k)"
    using IsNotFoundErr_last_letter [of "AlreadyExistsError k"] by auto
  show "\<not> IsNotFoundErr (GenericStoreError k)" "\<not> IsNotFoundErr (InvalidDataError k)"
    "\<not> IsNotFoundErr (TooManyAttempts k)" "\<not> IsNotFoundErr UnexpectedTransitionError"
    by (auto dest: IsNotFoundErr_first_letter)
qed

text \<open>
  \<^verbatim>\<open>IsNotFoundErr\<close>, on the errors of the store: it accepts \<^verbatim>\<open>NotFoundError\<close> of a key exactly
  when the key is one word, up to white space around it, so a missing key that contains a space
  is not recognised; it never accepts a not-found error that wraps the text of another one, as
  \<^verbatim>\<open>TxProcessEvent\<close> makes for a missing configuration; and it accepts none of the other errors.
\<close>

theorem IsNotFoundErr_classifies:
  "(IsNotFoundErr (NotFoundError k) \<longleftrightarrow> one_word k) \<and>
   \<not> IsNotFoundErr (NotFoundError (Error_text (NotFoundError k))) \<and>
   \<not> IsNotFoundErr (AlreadyExistsError k) \<and> \<not> IsNotFoundErr (GenericStoreError k) \<and>
   \<not> IsNotFoundErr (InvalidDataError k) \<and> \<not> IsNotFoundErr (TooManyAttempts k) \<and>
   \<not> IsNotFoundErr UnexpectedTransitionError"
  using IsNotFoundErr_others IsNotFoundErr_NotFoundError by blast

lemmas store_error_defs = Error_def AlreadyExistsError_def GenericStoreError_def
  InvalidDataError_def NotFoundError_def TooManyAttempts_def

end
