(* ===== verification/Redis_Client.thy ===== *)
theory Redis_Client
  imports Store_Types "HOL-Library.FSet" "HOL-Library.List_Lexorder" "HOL-Library.Char_ord"
begin

text \<open>
  The services the store is built on and that are not part of the repository, as parameters:
  the Redis client (\<^verbatim>\<open>github.com/go-redis/redis/v8\<close>), one operation of the record per call the
  sources make, and the serialisation of messages (\<^verbatim>\<open>google.golang.org/protobuf/proto\<close>). The
  locales state what is documented of them and used here: \<open>redis_server\<close> for a server that no
  other client uses meanwhile and whose calls may fail or time out at any moment, with the
  command applied or not; \<open>reliable_redis\<close> for one that answers; \<open>wire\<close> for serialisation. Both
  server contracts are interpreted on executable servers.
\<close>

section \<open>The client\<close>

type_synonym 'w tx = "'w \<Rightarrow> go_error option go \<times> 'w"

text \<open>
  A call with a context returns, besides its reply, whether the context's deadline had passed
  (\<^verbatim>\<open>ctx.Err() == context.DeadlineExceeded\<close>). \<open>rdb_Watch\<close> runs a function between \<^verbatim>\<open>WATCH\<close> and the
  end of the transaction; \<open>rdb_TxPipelined\<close> runs a function that queues commands and then executes
  the queue with \<^verbatim>\<open>EXEC\<close>.
\<close>

record 'w redis_client =
  rdb_Get :: "string \<Rightarrow> duration \<Rightarrow> 'w \<Rightarrow> (go_error + bytes) \<times> bool \<times> 'w"
  rdb_Set :: "string \<Rightarrow> bytes \<Rightarrow> duration \<Rightarrow> duration \<Rightarrow> 'w \<Rightarrow> go_error option \<times> bool \<times> 'w"
  rdb_Exists :: "string \<Rightarrow> 'w \<Rightarrow> (go_error + int) \<times> 'w"
  rdb_SAdd :: "string \<Rightarrow> string \<Rightarrow> 'w \<Rightarrow> go_error option \<times> 'w"
  rdb_SRem :: "string \<Rightarrow> string \<Rightarrow> 'w \<Rightarrow> go_error option \<times> 'w"
  rdb_SMembers :: "string \<Rightarrow> 'w \<Rightarrow> (go_error + string list) \<times> 'w"
  rdb_Ping :: "duration \<Rightarrow> 'w \<Rightarrow> go_error option \<times> 'w"
  rdb_Watch :: "duration \<Rightarrow> string \<Rightarrow> 'w tx \<Rightarrow> 'w tx"
  rdb_TxPipelined :: "duration \<Rightarrow> 'w tx \<Rightarrow> 'w tx"
  pipe_Set :: "string \<Rightarrow> bytes \<Rightarrow> duration \<Rightarrow> 'w \<Rightarrow> go_error option \<times> 'w"

section \<open>The database behind it\<close>

datatype rval = RString bytes | RSet "string fset"

type_synonym database = "string \<rightharpoonup> rval"

fun holds_string :: "rval option \<Rightarrow> bool" where
  "holds_string (Some (RString b)) = True"
| "holds_string _ = False"

fun holds_set :: "rval option \<Rightarrow> bool" where
  "holds_set (Some (RSet S)) = True"
| "holds_set _ = False"

fun elements :: "rval option \<Rightarrow> string fset" where
  "elements (Some (RSet S)) = S"
| "elements _ = {||}"

definition set_string :: "string \<Rightarrow> bytes \<Rightarrow> database \<Rightarrow> database" where
  "set_string k b d = d(k \<mapsto> RString b)"

definition add_member :: "string \<Rightarrow> string \<Rightarrow> database \<Rightarrow> database" where
  "add_member k m d = d(k \<mapsto> RSet (finsert m (elements (d k))))"

text \<open>A set without elements is not kept.\<close>

definition remove_member :: "string \<Rightarrow> string \<Rightarrow> database \<Rightarrow> database" where
  "remove_member k m d =
     (if holds_set (d k)
      then d(k := (if elements (d k) |-| {|m|} = {||} then None
                   else Some (RSet (elements (d k) |-| {|m|}))))
      else d)"

text \<open>
  What can be observed of a server: the database, the commands the transaction has queued, the
  key it watches and whether that key has changed since.
\<close>

record redis_view =
  v_db :: database
  v_queue :: "(string \<times> bytes) list"
  v_watch :: "string option"
  v_dirty :: bool

definition wrote :: "string \<Rightarrow> database \<Rightarrow> redis_view \<Rightarrow> redis_view" where
  "wrote k d v = v\<lparr>v_db := d, v_dirty := v_dirty v \<or> v_watch v = Some k\<rparr>"

definition changed :: "string \<Rightarrow> database \<Rightarrow> redis_view \<Rightarrow> redis_view" where
  "changed k d v = (if d k = v_db v k then v\<lparr>v_db := d\<rparr> else wrote k d v)"

definition run_queue :: "(string \<times> bytes) list \<Rightarrow> database \<Rightarrow> database" where
  "run_queue q d = fold (\<lambda>(k, b). set_string k b) q d"

definition started :: "string \<Rightarrow> redis_view \<Rightarrow> redis_view" where
  "started k v = v\<lparr>v_watch := Some k, v_dirty := False\<rparr>"

definition finished :: "redis_view \<Rightarrow> redis_view" where
  "finished v = v\<lparr>v_watch := None, v_dirty := False, v_queue := []\<rparr>"

lemma view_simps [simp]:
  "v_db (wrote k d v) = d" "v_db (changed k d v) = d" "v_db (started k v) = v_db v"
  "v_db (finished v) = v_db v"
  "v_queue (wrote k d v) = v_queue v" "v_queue (changed k d v) = v_queue v"
  "v_watch (wrote k d v) = v_watch v" "v_watch (changed k d v) = v_watch v"
  "v_watch (started k v) = Some k" "\<not> v_dirty (started k v)"
  by (simp_all add: wrote_def changed_def started_def finished_def)

lemma changed_dirty: "v_dirty (changed k d v) \<Longrightarrow> v_dirty v \<or> v_watch v = Some k"
  by (auto simp: changed_def wrote_def split: if_splits)

section \<open>What is documented of it\<close>

locale redis_server =
  fixes rc :: "'w redis_client" and rt :: "'w go_runtime" and view :: "'w \<Rightarrow> redis_view"
  assumes uuid_view: "view (snd (uuid_NewString rt w)) = view w"
    and now_view: "view (snd (time_Now rt w)) = view w"
    and rand_view: "view (snd (rand_Intn rt n w)) = view w"
    and sleep_view: "view (time_Sleep rt d w) = view w"
    and ping_view: "rdb_Ping rc t w = (e, w') \<Longrightarrow> view w' = view w"
    and get_law: "rdb_Get rc k t w = (g, x, w') \<Longrightarrow>
      view w' = view w \<and>
      (\<forall>b. g = Inr b \<longrightarrow> v_db (view w) k = Some (RString b)) \<and>
      (g = Inl RedisNil \<longrightarrow> v_db (view w) k = None)"
    and set_law: "rdb_Set rc k b 0 t w = (e, x, w') \<Longrightarrow>
      view w' = wrote k (set_string k b (v_db (view w))) (view w) \<or> e \<noteq> None \<and> view w' = view w"
    and exists_law: "rdb_Exists rc k w = (c, w') \<Longrightarrow>
      view w' = view w \<and> (\<forall>i. c = Inr i \<longrightarrow> i = (if v_db (view w) k = None then 0 else 1))"
    and sadd_law: "rdb_SAdd rc k m w = (e, w') \<Longrightarrow>
      \<not> holds_string (v_db (view w) k) \<and>
      view w' = changed k (add_member k m (v_db (view w))) (view w) \<or>
      e \<noteq> None \<and> view w' = view w"
    and srem_law: "rdb_SRem rc k m w = (e, w') \<Longrightarrow>
      \<not> holds_string (v_db (view w) k) \<and>
      view w' = changed k (remove_member k m (v_db (view w))) (view w) \<or>
      e \<noteq> None \<and> view w' = view w"
    and smembers_law: "rdb_SMembers rc k w = (l, w') \<Longrightarrow>
      view w' = view w \<and>
      (\<forall>xs. l = Inr xs \<longrightarrow> fset_of_list xs = elements (v_db (view w) k) \<and> distinct xs \<and>
         \<not> holds_string (v_db (view w) k))"
    and pipe_law: "pipe_Set rc k b 0 w = (e, w') \<Longrightarrow>
      view w' = (view w)\<lparr>v_queue := v_queue (view w) @ [(k, b)]\<rparr> \<or> e \<noteq> None \<and> view w' = view w"
    and watch_law: "rdb_Watch rc t k fn w = (r, w') \<Longrightarrow>
      (\<exists>e. r = Ret (Some e) \<and> view w' = view w) \<or>
      (\<exists>w1 w2. view w1 = started k (view w) \<and> fn w1 = (r, w2) \<and> view w' = finished (view w2))"
    and tx_law: "rdb_TxPipelined rc t fn w = (r, w') \<Longrightarrow>
      \<exists>w1 w2 r1. view w1 = (view w)\<lparr>v_queue := []\<rparr> \<and> fn w1 = (r1, w2) \<and>
        (if r1 = Ret None
         then (v_db (view w') = run_queue (v_queue (view w2)) (v_db (view w2)) \<and>
                 r \<in> {Ret None} \<union> (Ret \<circ> Some) ` (- {TxFailedErr})) \<or>
              v_db (view w') = v_db (view w2) \<and> r \<in> range (Ret \<circ> Some)
         else r = r1 \<and> v_db (view w') = v_db (view w2))"

text \<open>
  A server that answers: a call fails only when the key holds the wrong kind of value, and a
  transaction only when its watched key was written.
\<close>

locale reliable_redis = redis_server +
  assumes ping_ok: "rdb_Ping rc t w = (e, w') \<Longrightarrow> e = None"
    and get_ok: "rdb_Get rc k t w = (g, x, w') \<Longrightarrow> \<not> holds_set (v_db (view w) k) \<Longrightarrow>
      g = Inl RedisNil \<or> (\<exists>b. g = Inr b)"
    and set_ok: "rdb_Set rc k b 0 t w = (e, x, w') \<Longrightarrow> e = None"
    and exists_ok: "rdb_Exists rc k w = (c, w') \<Longrightarrow> \<exists>i. c = Inr i"
    and sadd_ok: "rdb_SAdd rc k m w = (e, w') \<Longrightarrow> \<not> holds_string (v_db (view w) k) \<Longrightarrow> e = None"
    and srem_ok: "rdb_SRem rc k m w = (e, w') \<Longrightarrow> \<not> holds_string (v_db (view w) k) \<Longrightarrow> e = None"
    and smembers_ok: "rdb_SMembers rc k w = (l, w') \<Longrightarrow> \<not> holds_string (v_db (view w) k) \<Longrightarrow>
      \<exists>xs. l = Inr xs"
    and pipe_ok: "pipe_Set rc k b 0 w = (e, w') \<Longrightarrow> e = None"
    and watch_ok: "rdb_Watch rc t k fn w = (r, w') \<Longrightarrow>
      \<exists>w1 w2. view w1 = started k (view w) \<and> fn w1 = (r, w2) \<and> view w' = finished (view w2)"
    and tx_ok: "rdb_TxPipelined rc t fn w = (r, w') \<Longrightarrow>
      \<exists>w1 w2 r1. view w1 = (view w)\<lparr>v_queue := []\<rparr> \<and> fn w1 = (r1, w2) \<and>
        (if r1 \<noteq> Ret None then r = r1 \<and> v_db (view w') = v_db (view w2)
         else if v_dirty (view w2) then r = Ret (Some TxFailedErr) \<and> v_db (view w') = v_db (view w2)
         else r = Ret None \<and> v_db (view w') = run_queue (v_queue (view w2)) (v_db (view w2)))"

section \<open>Executable servers\<close>

text \<open>
  A server over any world that holds a view: every call first asks the world whether it is
  answered, lost on the way in, or applied with its reply lost. Lost calls look like time-outs.
\<close>

datatype fault = Answered | Lost | ReplyLost

definition timeout_error :: go_error where "timeout_error = Errorf ''i/o timeout''"
definition wrongtype_error :: go_error where
  "wrongtype_error = Errorf ''WRONGTYPE Operation against a key holding the wrong kind of value''"

text \<open>A command that returns a value and changes nothing, and one that writes.\<close>

definition read_cmd ::
    "('w \<Rightarrow> fault \<times> 'w) \<Rightarrow> ('w \<Rightarrow> redis_view) \<Rightarrow> (redis_view \<Rightarrow> go_error + 'a) \<Rightarrow> 'w
       \<Rightarrow> (go_error + 'a) \<times> bool \<times> 'w" where
  "read_cmd next_fault view f w =
     (case next_fault w of
        (Answered, w1) \<Rightarrow> (f (view w1), False, w1)
      | (_, w1) \<Rightarrow> (Inl timeout_error, True, w1))"

definition write_cmd ::
    "('w \<Rightarrow> fault \<times> 'w) \<Rightarrow> ('w \<Rightarrow> redis_view) \<Rightarrow> (redis_view \<Rightarrow> 'w \<Rightarrow> 'w)
       \<Rightarrow> (redis_view \<Rightarrow> bool) \<Rightarrow> (redis_view \<Rightarrow> redis_view) \<Rightarrow> 'w
       \<Rightarrow> go_error option \<times> bool \<times> 'w" where
  "write_cmd next_fault view put_view allowed f w =
     (case next_fault w of
        (Lost, w1) \<Rightarrow> (Some timeout_error, True, w1)
      | (a, w1) \<Rightarrow>
          if \<not> allowed (view w1) then (Some wrongtype_error, False, w1)
          else if a = Answered then (None, False, put_view (f (view w1)) w1)
          else (Some timeout_error, True, put_view (f (view w1)) w1))"

definition drop_flag :: "'a \<times> bool \<times> 'w \<Rightarrow> 'a \<times> 'w" where
  "drop_flag r = (fst r, snd (snd r))"

definition server ::
    "('w \<Rightarrow> fault \<times> 'w) \<Rightarrow> ('w \<Rightarrow> redis_view) \<Rightarrow> (redis_view \<Rightarrow> 'w \<Rightarrow> 'w) \<Rightarrow> 'w redis_client" where
  "server next_fault view put_view =
     \<lparr>rdb_Get = (\<lambda>k t. read_cmd next_fault view
        (\<lambda>v. case v_db v k of None \<Rightarrow> Inl RedisNil | Some (RString b) \<Rightarrow> Inr b
             | Some (RSet S) \<Rightarrow> Inl wrongtype_error)),
      rdb_Set = (\<lambda>k b ttl t. write_cmd next_fault view put_view (\<lambda>v. True)
        (\<lambda>v. wrote k (set_string k b (v_db v)) v)),
      rdb_Exists = (\<lambda>k w. drop_flag (read_cmd next_fault view
        (\<lambda>v. Inr (if v_db v k = None then 0 else 1)) w)),
      rdb_SAdd = (\<lambda>k m w. drop_flag (write_cmd next_fault view put_view
        (\<lambda>v. \<not> holds_string (v_db v k)) (\<lambda>v. changed k (add_member k m (v_db v)) v) w)),
      rdb_SRem = (\<lambda>k m w. drop_flag (write_cmd next_fault view put_view
        (\<lambda>v. \<not> holds_string (v_db v k)) (\<lambda>v. changed k (remove_member k m (v_db v)) v) w)),
      rdb_SMembers = (\<lambda>k w. drop_flag (read_cmd next_fault view
        (\<lambda>v. if holds_string (v_db v k) then Inl wrongtype_error
             else Inr (sorted_list_of_fset (elements (v_db v k)))) w)),
      rdb_Ping = (\<lambda>t w. drop_flag (write_cmd next_fault view put_view (\<lambda>v. True) (\<lambda>v. v) w)),
      rdb_Watch = (\<lambda>t k fn w.
        case next_fault w of
          (Answered, w1) \<Rightarrow>
            (case fn (put_view (started k (view w1)) w1) of
               (r, w2) \<Rightarrow> (r, put_view (finished (view w2)) w2))
        | (_, w1) \<Rightarrow> (Ret (Some timeout_error), w1)),
      rdb_TxPipelined = (\<lambda>t fn w.
        case fn (put_view ((view w)\<lparr>v_queue := []\<rparr>) w) of
          (r1, w2) \<Rightarrow>
            if r1 \<noteq> Ret None then (r1, w2)
            else if v_dirty (view w2) then (Ret (Some TxFailedErr), w2)
            else (case write_cmd next_fault view put_view (\<lambda>v. True)
                         (\<lambda>v. v\<lparr>v_db := run_queue (v_queue v) (v_db v)\<rparr>) w2 of
                    (e, x, w3) \<Rightarrow> (Ret e, w3))),
      pipe_Set = (\<lambda>k b ttl w.
        (None, put_view ((view w)\<lparr>v_queue := v_queue (view w) @ [(k, b)]\<rparr>) w))\<rparr>"

lemma distinct_sorted_list_of_fset: "distinct (sorted_list_of_fset S)"
  by (simp add: sorted_list_of_fset.rep_eq)

locale server_world =
  fixes next_fault :: "'w \<Rightarrow> fault \<times> 'w" and view :: "'w \<Rightarrow> redis_view"
    and put_view :: "redis_view \<Rightarrow> 'w \<Rightarrow> 'w" and rt :: "'w go_runtime"
  assumes view_put [simp]: "view (put_view v w) = v"
    and fault_view: "view (snd (next_fault w)) = view w"
    and runtime_view: "view (snd (uuid_NewString rt w)) = view w"
      "view (snd (time_Now rt w)) = view w" "view (snd (rand_Intn rt n w)) = view w"
      "view (time_Sleep rt d w) = view w"
begin

lemma fault_viewD: "next_fault w = (f, w1) \<Longrightarrow> view w1 = view w"
  using fault_view [of w] by simp

lemma read_cmdD:
  assumes "read_cmd next_fault view f w = (r, x, w')"
  shows "view w' = view w \<and> (r = f (view w) \<or> r = Inl timeout_error)"
  using assms by (auto simp: read_cmd_def fault_viewD split: prod.splits fault.splits)

lemma write_cmdD:
  assumes "write_cmd next_fault view put_view allowed f w = (e, x, w')"
  shows "allowed (view w) \<and> view w' = f (view w) \<and> e \<in> {None, Some timeout_error} \<or>
         e \<noteq> None \<and> view w' = view w"
  using assms by (auto simp: write_cmd_def fault_viewD split: prod.splits fault.splits if_splits)

lemma drop_flagD: "drop_flag c = (r, w') \<Longrightarrow> \<exists>x. c = (r, x, w')"
  by (cases c) (auto simp: drop_flag_def)

end

sublocale server_world \<subseteq> redis_server "server next_fault view put_view" rt view
proof (unfold_locales, goal_cases)
  case (5 t w e w')
  then show ?case by (auto simp: server_def dest!: drop_flagD write_cmdD)
next
  case (6 k t w g x w')
  then show ?case
    by (auto simp: server_def timeout_error_def wrongtype_error_def dest!: read_cmdD
        split: option.splits rval.splits)
next
  case (7 k b t w e x w')
  then show ?case by (auto simp: server_def dest!: write_cmdD)
next
  case (8 k w c w')
  then show ?case by (auto simp: server_def dest!: drop_flagD read_cmdD)
next
  case (9 k m w e w')
  then show ?case by (auto simp: server_def dest!: drop_flagD write_cmdD)
next
  case (10 k m w e w')
  then show ?case by (auto simp: server_def dest!: drop_flagD write_cmdD)
next
  case (11 k w l w')
  then show ?case
    by (auto simp: server_def distinct_sorted_list_of_fset dest!: drop_flagD read_cmdD
        split: if_splits)
next
  case (12 k b w e w')
  then show ?case by (auto simp: server_def)
next
  case (13 t k fn w r w')
  obtain f v where f: "next_fault w = (f, v)" by fastforce
  then have v: "view v = view w" by (rule fault_viewD)
  obtain s u where s: "fn (put_view (started k (view w)) v) = (s, u)" by fastforce
  show ?case
  proof (cases "f = Answered")
    case True
    then have "r = s" and "view w' = finished (view u)"
      using 13 f v s by (auto simp: server_def)
    with s show ?thesis
      by (intro disjI2 exI [of _ "put_view (started k (view w)) v"] exI [of _ u]) simp
  next
    case False
    then show ?thesis using 13 f v by (cases f) (auto simp: server_def)
  qed
next
  case (14 t fn w r w')
  let ?exec = "\<lambda>v. v\<lparr>v_db := run_queue (v_queue v) (v_db v)\<rparr>"
  obtain r1 w2 where fn: "fn (put_view ((view w)\<lparr>v_queue := []\<rparr>) w) = (r1, w2)" by fastforce
  obtain e x w3 where c: "write_cmd next_fault view put_view (\<lambda>v. True) ?exec w2 = (e, x, w3)"
    using prod_cases3 by blast
  have "if r1 = Ret None
        then (v_db (view w') = run_queue (v_queue (view w2)) (v_db (view w2)) \<and>
                r \<in> {Ret None} \<union> (Ret \<circ> Some) ` (- {TxFailedErr})) \<or>
             v_db (view w') = v_db (view w2) \<and> r \<in> range (Ret \<circ> Some)
        else r = r1 \<and> v_db (view w') = v_db (view w2)"
  proof (cases "r1 = Ret None \<and> \<not> v_dirty (view w2)")
    case True
    then have "r = Ret e" and "w' = w3" using 14 fn c by (simp_all add: server_def)
    from write_cmdD [OF c]
    consider "view w3 = ?exec (view w2)" "e = None \<or> e = Some timeout_error"
      | y where "e = Some y" "view w3 = view w2"
      by blast
    then show ?thesis
    proof cases
      case 1
      then have "v_db (view w') = run_queue (v_queue (view w2)) (v_db (view w2))"
        using \<open>w' = w3\<close> by simp
      moreover have "r \<in> {Ret None} \<union> (Ret \<circ> Some) ` (- {TxFailedErr})"
        using 1(2) \<open>r = Ret e\<close> by (auto simp: timeout_error_def)
      ultimately show ?thesis using True by simp
    next
      case 2
      then show ?thesis using True \<open>r = Ret e\<close> \<open>w' = w3\<close> by simp
    qed
  next
    case False
    then show ?thesis using 14 fn by (auto simp: server_def split: if_splits)
  qed
  with fn show ?case
    by (intro exI [of _ "put_view ((view w)\<lparr>v_queue := []\<rparr>) w"] exI [of _ w2] exI [of _ r1]) simp
qed (simp_all add: runtime_view)

text \<open>When the world never loses a call, the server is reliable.\<close>

locale reliable_world = server_world +
  assumes never_lost: "next_fault w = (Answered, w)"
begin

lemma read_cmd_eq: "read_cmd next_fault view f w = (f (view w), False, w)"
  by (simp add: read_cmd_def never_lost)

lemma write_cmd_eq:
  "write_cmd next_fault view put_view allowed f w =
     (if allowed (view w) then (None, False, put_view (f (view w)) w)
      else (Some wrongtype_error, False, w))"
  by (simp add: write_cmd_def never_lost)

end

sublocale reliable_world \<subseteq> reliable_redis "server next_fault view put_view" rt view
proof (unfold_locales, goal_cases)
  case (2 k t w g x w')
  then show ?case
    by (auto simp: server_def read_cmd_eq split: option.splits rval.splits)
next
  case (9 t k fn w r w')
  obtain s u where s: "fn (put_view (started k (view w)) w) = (s, u)" by fastforce
  then have "r = s" and "view w' = finished (view u)"
    using 9 by (auto simp: server_def never_lost)
  with s show ?case
    by (intro exI [of _ "put_view (started k (view w)) w"] exI [of _ u]) simp
next
  case (10 t fn w r w')
  obtain r1 w2 where fn: "fn (put_view ((view w)\<lparr>v_queue := []\<rparr>) w) = (r1, w2)"
    by fastforce
  with 10 show ?case
    by (intro exI [of _ "put_view ((view w)\<lparr>v_queue := []\<rparr>) w"] exI [of _ w2] exI [of _ r1])
       (auto simp: server_def write_cmd_eq split: if_splits prod.splits)
qed (auto simp: server_def read_cmd_eq write_cmd_eq drop_flag_def split: if_splits)

section \<open>Two worlds\<close>

text \<open>A world with a server in memory and a counter for ids and time; and one that also plans faults.\<close>

record mem =
  mem_view :: redis_view
  mem_tick :: nat

record planned_mem = mem +
  mem_faults :: "fault list"

definition mem_runtime :: "'a mem_scheme go_runtime" where
  "mem_runtime =
     \<lparr>uuid_NewString = (\<lambda>w. (CHR ''u'' # replicate (mem_tick w) CHR ''x'', w\<lparr>mem_tick := Suc (mem_tick w)\<rparr>)),
      time_Now = (\<lambda>w. (int (mem_tick w), w\<lparr>mem_tick := Suc (mem_tick w)\<rparr>)),
      rand_Intn = (\<lambda>n w. (0, w)),
      time_Sleep = (\<lambda>d w. w\<lparr>mem_tick := Suc (mem_tick w)\<rparr>)\<rparr>"

definition mem_client :: "mem redis_client" where
  "mem_client = server (\<lambda>w. (Answered, w)) mem_view (\<lambda>v w. w\<lparr>mem_view := v\<rparr>)"

fun next_planned :: "planned_mem \<Rightarrow> fault \<times> planned_mem" where
  "next_planned w =
     (case mem_faults w of [] \<Rightarrow> (Answered, w) | f # fs \<Rightarrow> (f, w\<lparr>mem_faults := fs\<rparr>))"

definition planned_client :: "planned_mem redis_client" where
  "planned_client = server next_planned mem_view (\<lambda>v w. w\<lparr>mem_view := v\<rparr>)"

interpretation mem: reliable_world "\<lambda>w. (Answered, w)" mem_view "\<lambda>v w. w\<lparr>mem_view := v\<rparr>"
    "mem_runtime :: mem go_runtime"
  by unfold_locales (simp_all add: mem_runtime_def)

interpretation planned: server_world next_planned mem_view "\<lambda>v w. w\<lparr>mem_view := v\<rparr>"
    "mem_runtime :: planned_mem go_runtime"
  by unfold_locales (simp_all add: mem_runtime_def split: list.split)

lemma mem_reliable: "reliable_redis mem_client mem_runtime mem_view"
  unfolding mem_client_def by (rule mem.reliable_redis_axioms)

lemma planned_server: "redis_server planned_client mem_runtime mem_view"
  unfolding planned_client_def by (rule planned.redis_server_axioms)

end
