(* ===== verification/Wire.thy ===== *)
theory Wire
  imports Protos
begin

text \<open>
  Serialisation of messages, a parameter of the store and of the queues
  (\<^verbatim>\<open>proto.Marshal\<close> and \<^verbatim>\<open>proto.Unmarshal\<close>, not part of the repository). Marshalling may fail, as
  it does for a string that is not UTF-8. The locale states the one thing the program relies on:
  what was marshalled is what unmarshalling gives back. It is interpreted on a total
  length-prefixed encoding of the messages.
\<close>

record 'a codec =
  marshal :: "'a \<Rightarrow> go_error + bytes"
  unmarshal :: "bytes \<Rightarrow> go_error + 'a"

definition faithful :: "'a codec \<Rightarrow> bool" where
  "faithful c \<longleftrightarrow> (\<forall>x b. marshal c x = Inr b \<longrightarrow> unmarshal c b = Inr x)"

lemma faithfulD: "faithful c \<Longrightarrow> marshal c x = Inr b \<Longrightarrow> unmarshal c b = Inr x"
  by (simp add: faithful_def)

record codecs =
  cfg_codec :: "Configuration codec"
  fsm_codec :: "FiniteStateMachine codec"
  evt_codec :: "Event codec"
  out_codec :: "EventOutcome codec"
  req_codec :: "EventRequest codec"
  resp_codec :: "EventResponse codec"

locale wire =
  fixes cs :: codecs
  assumes cfg_faithful: "faithful (cfg_codec cs)"
    and fsm_faithful: "faithful (fsm_codec cs)"
    and evt_faithful: "faithful (evt_codec cs)"
    and out_faithful: "faithful (out_codec cs)"
    and req_faithful: "faithful (req_codec cs)"
    and resp_faithful: "faithful (resp_codec cs)"

section \<open>An encoding\<close>

text \<open>
  An encoder appends to nothing; a decoder takes its value off the front of the bytes. A number is
  written in unary, a string or a list with its length first.
\<close>

type_synonym 'a decoder = "bytes \<Rightarrow> ('a \<times> bytes) option"

definition decodes :: "('a \<Rightarrow> bytes) \<Rightarrow> 'a decoder \<Rightarrow> bool" where
  "decodes enc dec \<longleftrightarrow> (\<forall>x rest. dec (enc x @ rest) = Some (x, rest))"

lemma decodesD: "decodes enc dec \<Longrightarrow> dec (enc x @ rest) = Some (x, rest)"
  by (simp add: decodes_def)

fun enc_nat :: "nat \<Rightarrow> bytes" where
  "enc_nat 0 = ''.''"
| "enc_nat (Suc n) = CHR ''1'' # enc_nat n"

fun dec_nat :: "nat decoder" where
  "dec_nat [] = None"
| "dec_nat (c # cs) =
     (if c = CHR ''1'' then map_option (\<lambda>(n, r). (Suc n, r)) (dec_nat cs) else Some (0, cs))"

lemma nat_decodes: "decodes enc_nat dec_nat"
proof -
  have "dec_nat (enc_nat n @ rest) = Some (n, rest)" for n rest
    by (induction n) auto
  then show ?thesis by (simp add: decodes_def)
qed

definition enc_str :: "string \<Rightarrow> bytes" where
  "enc_str s = enc_nat (length s) @ s"

definition dec_str :: "string decoder" where
  "dec_str b = Option.bind (dec_nat b) (\<lambda>(n, r). Some (take n r, drop n r))"

lemma str_decodes: "decodes enc_str dec_str"
  by (simp add: decodes_def enc_str_def dec_str_def decodesD [OF nat_decodes])

definition enc_int :: "int \<Rightarrow> bytes" where
  "enc_int i = (if i < 0 then CHR ''-'' # enc_nat (nat (- i)) else CHR ''+'' # enc_nat (nat i))"

definition dec_int :: "int decoder" where
  "dec_int b = (case b of
     [] \<Rightarrow> None
   | c # r \<Rightarrow> map_option (\<lambda>(n, s). (if c = CHR ''-'' then - int n else int n, s)) (dec_nat r))"

lemma int_decodes: "decodes enc_int dec_int"
  by (simp add: decodes_def enc_int_def dec_int_def decodesD [OF nat_decodes])

fun enc_opt :: "('a \<Rightarrow> bytes) \<Rightarrow> 'a option \<Rightarrow> bytes" where
  "enc_opt enc None = ''N''"
| "enc_opt enc (Some x) = CHR ''S'' # enc x"

definition dec_opt :: "'a decoder \<Rightarrow> 'a option decoder" where
  "dec_opt dec b = (case b of
     [] \<Rightarrow> None
   | c # r \<Rightarrow> if c = CHR ''N'' then Some (None, r) else map_option (\<lambda>(x, s). (Some x, s)) (dec r))"

lemma opt_decodes: "decodes enc dec \<Longrightarrow> decodes (enc_opt enc) (dec_opt dec)"
  unfolding decodes_def
proof (intro allI)
  fix x :: "'a option" and rest
  assume "\<forall>x rest. dec (enc x @ rest) = Some (x, rest)"
  then show "dec_opt dec (enc_opt enc x @ rest) = Some (x, rest)"
    by (cases x) (auto simp: dec_opt_def)
qed

definition enc_pair :: "('a \<Rightarrow> bytes) \<Rightarrow> ('b \<Rightarrow> bytes) \<Rightarrow> 'a \<times> 'b \<Rightarrow> bytes" where
  "enc_pair e f p = e (fst p) @ f (snd p)"

definition dec_pair :: "'a decoder \<Rightarrow> 'b decoder \<Rightarrow> ('a \<times> 'b) decoder" where
  "dec_pair d e b = Option.bind (d b) (\<lambda>(x, r). Option.bind (e r) (\<lambda>(y, s). Some ((x, y), s)))"

lemma pair_decodes: "decodes e d \<Longrightarrow> decodes f d' \<Longrightarrow> decodes (enc_pair e f) (dec_pair d d')"
  by (auto simp: decodes_def enc_pair_def dec_pair_def)

fun dec_many :: "'a decoder \<Rightarrow> nat \<Rightarrow> 'a list decoder" where
  "dec_many d 0 b = Some ([], b)"
| "dec_many d (Suc n) b =
     Option.bind (d b) (\<lambda>(x, r). map_option (\<lambda>(xs, s). (x # xs, s)) (dec_many d n r))"

definition enc_list :: "('a \<Rightarrow> bytes) \<Rightarrow> 'a list \<Rightarrow> bytes" where
  "enc_list e xs = enc_nat (length xs) @ concat (map e xs)"

definition dec_list :: "'a decoder \<Rightarrow> 'a list decoder" where
  "dec_list d b = Option.bind (dec_nat b) (\<lambda>(n, r). dec_many d n r)"

lemma list_decodes:
  assumes "decodes e d"
  shows "decodes (enc_list e) (dec_list d)"
proof -
  have "dec_many d (length xs) (concat (map e xs) @ rest) = Some (xs, rest)" for xs rest
    by (induction xs) (simp_all add: decodesD [OF assms])
  then show ?thesis
    by (simp add: decodes_def enc_list_def dec_list_def decodesD [OF nat_decodes])
qed

text \<open>A bijection with a type that has an encoding gives an encoding.\<close>

definition dec_iso :: "('b \<Rightarrow> 'a) \<Rightarrow> 'b decoder \<Rightarrow> 'a decoder" where
  "dec_iso g d b = map_option (\<lambda>(y, s). (g y, s)) (d b)"

lemma iso_decodes: "decodes e d \<Longrightarrow> (\<And>x. g (f x) = x) \<Longrightarrow> decodes (\<lambda>x. e (f x)) (dec_iso g d)"
  by (simp add: decodes_def dec_iso_def)

definition codec_of :: "('a \<Rightarrow> bytes) \<Rightarrow> 'a decoder \<Rightarrow> 'a codec" where
  "codec_of enc dec =
     \<lparr>marshal = (\<lambda>x. Inr (enc x)),
      unmarshal = (\<lambda>b. case dec b of Some (x, []) \<Rightarrow> Inr x | _ \<Rightarrow> Inl (Errorf ''cannot parse''))\<rparr>"

lemma codec_of_faithful: "decodes enc dec \<Longrightarrow> faithful (codec_of enc dec)"
  unfolding faithful_def codec_of_def
proof (intro allI impI)
  fix x b
  assume "decodes enc dec" and "marshal \<lparr>marshal = (\<lambda>x. Inr (enc x)),
      unmarshal = (\<lambda>b. case dec b of Some (x, []) \<Rightarrow> Inr x | _ \<Rightarrow> Inl (Errorf ''cannot parse''))\<rparr> x = Inr b"
  then show "unmarshal \<lparr>marshal = (\<lambda>x. Inr (enc x)),
      unmarshal = (\<lambda>b. case dec b of Some (x, []) \<Rightarrow> Inr x | _ \<Rightarrow> Inl (Errorf ''cannot parse''))\<rparr> b = Inr x"
    using decodesD [of enc dec x "[]"] by auto
qed

section \<open>The messages\<close>

definition transition_tuple :: "Transition \<Rightarrow> string \<times> string \<times> string" where
  "transition_tuple t = (t_From t, t_To t, t_Event t)"

definition transition_of :: "string \<times> string \<times> string \<Rightarrow> Transition" where
  "transition_of = (\<lambda>(f, t, e). \<lparr>t_From = f, t_To = t, t_Event = e\<rparr>)"

definition enc_transition :: "Transition \<Rightarrow> bytes" where
  "enc_transition t = enc_pair enc_str (enc_pair enc_str enc_str) (transition_tuple t)"

definition dec_transition :: "Transition decoder" where
  "dec_transition = dec_iso transition_of (dec_pair dec_str (dec_pair dec_str dec_str))"

lemma transition_decodes: "decodes enc_transition dec_transition"
  unfolding enc_transition_def dec_transition_def
  by (intro iso_decodes pair_decodes str_decodes) (simp add: transition_of_def transition_tuple_def)

definition event_tuple ::
    "Event \<Rightarrow> string \<times> int option \<times> Transition option \<times> string \<times> string" where
  "event_tuple e = (evt_EventId e, evt_Timestamp e, evt_Transition e, evt_Originator e, evt_Details e)"

definition event_of ::
    "string \<times> int option \<times> Transition option \<times> string \<times> string \<Rightarrow> Event" where
  "event_of = (\<lambda>(i, n, t, or, d).
     \<lparr>evt_EventId = i, evt_Timestamp = n, evt_Transition = t, evt_Originator = or, evt_Details = d\<rparr>)"

definition enc_event :: "Event \<Rightarrow> bytes" where
  "enc_event e = enc_pair enc_str (enc_pair (enc_opt enc_int) (enc_pair (enc_opt enc_transition)
     (enc_pair enc_str enc_str))) (event_tuple e)"

definition dec_event :: "Event decoder" where
  "dec_event = dec_iso event_of (dec_pair dec_str (dec_pair (dec_opt dec_int)
     (dec_pair (dec_opt dec_transition) (dec_pair dec_str dec_str))))"

lemma event_decodes: "decodes enc_event dec_event"
  unfolding enc_event_def dec_event_def
  by (intro iso_decodes pair_decodes str_decodes opt_decodes int_decodes transition_decodes)
     (simp add: event_of_def event_tuple_def)

definition fsm_tuple :: "FiniteStateMachine \<Rightarrow> string \<times> string \<times> Event list" where
  "fsm_tuple m = (fsm_ConfigId m, fsm_State m, fsm_History m)"

definition fsm_of :: "string \<times> string \<times> Event list \<Rightarrow> FiniteStateMachine" where
  "fsm_of = (\<lambda>(c, s, h). \<lparr>fsm_ConfigId = c, fsm_State = s, fsm_History = h\<rparr>)"

definition enc_fsm :: "FiniteStateMachine \<Rightarrow> bytes" where
  "enc_fsm m = enc_pair enc_str (enc_pair enc_str (enc_list enc_event)) (fsm_tuple m)"

definition dec_fsm :: "FiniteStateMachine decoder" where
  "dec_fsm = dec_iso fsm_of (dec_pair dec_str (dec_pair dec_str (dec_list dec_event)))"

lemma fsm_decodes: "decodes enc_fsm dec_fsm"
  unfolding enc_fsm_def dec_fsm_def
  by (intro iso_decodes pair_decodes str_decodes list_decodes event_decodes)
     (simp add: fsm_of_def fsm_tuple_def)

definition cfg_tuple ::
    "Configuration \<Rightarrow> string \<times> string \<times> string list \<times> Transition list \<times> string" where
  "cfg_tuple c =
     (cfg_Name c, cfg_Version c, cfg_States c, cfg_Transitions c, cfg_StartingState c)"

definition cfg_of ::
    "string \<times> string \<times> string list \<times> Transition list \<times> string \<Rightarrow> Configuration" where
  "cfg_of = (\<lambda>(n, v, ss, ts, s).
     \<lparr>cfg_Name = n, cfg_Version = v, cfg_States = ss, cfg_Transitions = ts, cfg_StartingState = s\<rparr>)"

definition enc_cfg :: "Configuration \<Rightarrow> bytes" where
  "enc_cfg c = enc_pair enc_str (enc_pair enc_str (enc_pair (enc_list enc_str)
     (enc_pair (enc_list enc_transition) enc_str))) (cfg_tuple c)"

definition dec_cfg :: "Configuration decoder" where
  "dec_cfg = dec_iso cfg_of (dec_pair dec_str (dec_pair dec_str (dec_pair (dec_list dec_str)
     (dec_pair (dec_list dec_transition) dec_str))))"

lemma cfg_decodes: "decodes enc_cfg dec_cfg"
  unfolding enc_cfg_def dec_cfg_def
  by (intro iso_decodes pair_decodes str_decodes list_decodes transition_decodes)
     (simp add: cfg_of_def cfg_tuple_def)

text \<open>The numbers of the status codes, as the README lists them.\<close>

fun status_number :: "StatusCode \<Rightarrow> nat" where
  "status_number Ok = 0"
| "status_number GenericError = 1"
| "status_number EventNotAllowed = 2"
| "status_number FsmNotFound = 3"
| "status_number TransitionNotAllowed = 4"
| "status_number InternalError = 5"
| "status_number MissingDestination = 6"
| "status_number ConfigurationNotFound = 7"

definition status_of :: "nat \<Rightarrow> StatusCode" where
  "status_of n =
     (if n = 0 then Ok else if n = 1 then GenericError else if n = 2 then EventNotAllowed
      else if n = 3 then FsmNotFound else if n = 4 then TransitionNotAllowed
      else if n = 5 then InternalError else if n = 6 then MissingDestination
      else ConfigurationNotFound)"

lemma status_of_number: "status_of (status_number c) = c"
  by (cases c) (simp_all add: status_of_def)

definition out_tuple :: "EventOutcome \<Rightarrow> nat \<times> string \<times> string \<times> string" where
  "out_tuple r = (status_number (out_Code r), out_Details r, out_Config r, out_Id r)"

definition out_of :: "nat \<times> string \<times> string \<times> string \<Rightarrow> EventOutcome" where
  "out_of = (\<lambda>(n, d, c, i).
     \<lparr>out_Code = status_of n, out_Details = d, out_Config = c, out_Id = i\<rparr>)"

definition enc_out :: "EventOutcome \<Rightarrow> bytes" where
  "enc_out r = enc_pair enc_nat (enc_pair enc_str (enc_pair enc_str enc_str)) (out_tuple r)"

definition dec_out :: "EventOutcome decoder" where
  "dec_out = dec_iso out_of (dec_pair dec_nat (dec_pair dec_str (dec_pair dec_str dec_str)))"

lemma out_decodes: "decodes enc_out dec_out"
  unfolding enc_out_def dec_out_def
  by (intro iso_decodes pair_decodes str_decodes nat_decodes)
     (simp add: out_of_def out_tuple_def status_of_number)

definition req_tuple :: "EventRequest \<Rightarrow> Event option \<times> string \<times> string" where
  "req_tuple r = (req_Event r, req_Config r, req_Id r)"

definition req_of :: "Event option \<times> string \<times> string \<Rightarrow> EventRequest" where
  "req_of = (\<lambda>(e, c, i). \<lparr>req_Event = e, req_Config = c, req_Id = i\<rparr>)"

definition enc_req :: "EventRequest \<Rightarrow> bytes" where
  "enc_req r = enc_pair (enc_opt enc_event) (enc_pair enc_str enc_str) (req_tuple r)"

definition dec_req :: "EventRequest decoder" where
  "dec_req = dec_iso req_of (dec_pair (dec_opt dec_event) (dec_pair dec_str dec_str))"

lemma req_decodes: "decodes enc_req dec_req"
  unfolding enc_req_def dec_req_def
  by (intro iso_decodes pair_decodes str_decodes opt_decodes event_decodes)
     (simp add: req_of_def req_tuple_def)

definition resp_tuple :: "EventResponse \<Rightarrow> string \<times> EventOutcome option" where
  "resp_tuple r = (resp_EventId r, resp_Outcome r)"

definition resp_of :: "string \<times> EventOutcome option \<Rightarrow> EventResponse" where
  "resp_of = (\<lambda>(i, r). \<lparr>resp_EventId = i, resp_Outcome = r\<rparr>)"

definition enc_resp :: "EventResponse \<Rightarrow> bytes" where
  "enc_resp r = enc_pair enc_str (enc_opt enc_out) (resp_tuple r)"

definition dec_resp :: "EventResponse decoder" where
  "dec_resp = dec_iso resp_of (dec_pair dec_str (dec_opt dec_out))"

lemma resp_decodes: "decodes enc_resp dec_resp"
  unfolding enc_resp_def dec_resp_def
  by (intro iso_decodes pair_decodes str_decodes opt_decodes out_decodes)
     (simp add: resp_of_def resp_tuple_def)

definition plain_codecs :: codecs where
  "plain_codecs =
     \<lparr>cfg_codec = codec_of enc_cfg dec_cfg, fsm_codec = codec_of enc_fsm dec_fsm,
      evt_codec = codec_of enc_event dec_event, out_codec = codec_of enc_out dec_out,
      req_codec = codec_of enc_req dec_req, resp_codec = codec_of enc_resp dec_resp\<rparr>"

interpretation plain: wire plain_codecs
  by unfold_locales
     (simp_all add: plain_codecs_def codec_of_faithful cfg_decodes fsm_decodes event_decodes
       out_decodes req_decodes resp_decodes)

text \<open>With this encoding every message can be marshalled.\<close>

lemma plain_marshals [simp]:
  "marshal (cfg_codec plain_codecs) c = Inr (enc_cfg c)"
  "marshal (fsm_codec plain_codecs) m = Inr (enc_fsm m)"
  "marshal (evt_codec plain_codecs) e = Inr (enc_event e)"
  "marshal (out_codec plain_codecs) r = Inr (enc_out r)"
  "marshal (req_codec plain_codecs) q = Inr (enc_req q)"
  "marshal (resp_codec plain_codecs) p = Inr (enc_resp p)"
  by (simp_all add: plain_codecs_def codec_of_def)

end
