(* ===== verification/Redis_Store.thy ===== *)
theory Redis_Store
  imports Redis_Client Wire
begin

text \<open>
  The store over Redis (\<^verbatim>\<open>pkg/storage/redis_store.go\<close>). Definitions follow the methods of
  \<^verbatim>\<open>RedisStore\<close>; the world they run in is passed along. \<open>rt\<close> is the Go runtime, \<open>cs\<close> the
  serialisation of messages; a nil message argument is \<open>None\<close>.
\<close>

section \<open>Definitions\<close>

definition DefaultMaxRetries :: nat where "DefaultMaxRetries = 3"
definition DefaultTimeout :: duration where "DefaultTimeout = 200 * 1000000"

record 'w RedisStore =
  rs_client :: "'w redis_client"
  rs_Timeout :: duration
  rs_MaxRetries :: "64 word"

text \<open>
  \<^verbatim>\<open>wait\<close> and the loop of \<^verbatim>\<open>get\<close>. The counter of attempts is a 64-bit integer that is decremented
  before it is compared with zero; this is what makes the loop end.
\<close>

definition wait :: "'w go_runtime \<Rightarrow> 'w \<Rightarrow> 'w" where
  "wait rt w = (case rand_Intn rt 500 w of (waitForMsec, w1) \<Rightarrow> time_Sleep rt (waitForMsec * 1000000) w1)"

lemma attempts_decrease: "(left :: 64 word) \<noteq> 1 \<Longrightarrow> unat (left - 2) < unat (left - 1)"
  using measure_unat [of "left - 1"] by simp

function get_loop ::
    "'w go_runtime \<Rightarrow> 'a codec \<Rightarrow> 'w RedisStore \<Rightarrow> string \<Rightarrow> 64 word \<Rightarrow> 'w
       \<Rightarrow> (go_error + 'a) \<times> 'w" where
  "get_loop rt c csm key attemptsLeft w =
     (case rdb_Get (rs_client csm) key (rs_Timeout csm) w of
        (Inl err, expired, w1) \<Rightarrow>
          if err = RedisNil then (Inl (NotFoundError key), w1)
          else if expired then
            (if attemptsLeft - 1 = 0 then (Inl err, w1)
             else get_loop rt c csm key (attemptsLeft - 1) (wait rt w1))
          else (Inl (GenericStoreError (Error_text err)), w1)
      | (Inr data, expired, w1) \<Rightarrow> (unmarshal c data, w1))"
  by pat_completeness auto
termination
  by (relation "measure (\<lambda>(rt, c, csm, key, left, w). unat (left - 1))")
     (auto simp: attempts_decrease)

declare get_loop.simps [simp del]

definition RedisStore_get ::
    "'w go_runtime \<Rightarrow> 'a codec \<Rightarrow> 'w RedisStore \<Rightarrow> string \<Rightarrow> 'w \<Rightarrow> (go_error + 'a) \<times> 'w" where
  "RedisStore_get rt c csm key w = get_loop rt c csm key (rs_MaxRetries csm) w"

function put_loop ::
    "'w go_runtime \<Rightarrow> 'a codec \<Rightarrow> 'w RedisStore \<Rightarrow> string \<Rightarrow> 'a \<Rightarrow> duration \<Rightarrow> 64 word \<Rightarrow> 'w
       \<Rightarrow> go_error option \<times> 'w" where
  "put_loop rt c csm key val ttl attemptsLeft w =
     (case marshal c val of
        Inl err \<Rightarrow> (Some (InvalidDataError (Error_text err)), w)
      | Inr data \<Rightarrow>
          (case rdb_Set (rs_client csm) key data ttl (rs_Timeout csm) w of
             (Some err, expired, w1) \<Rightarrow>
               if expired then
                 (if attemptsLeft - 1 = 0 then (Some (TooManyAttempts ''''), w1)
                  else put_loop rt c csm key val ttl (attemptsLeft - 1) (wait rt w1))
               else (Some (GenericStoreError (Error_text err)), w1)
           | (None, expired, w1) \<Rightarrow> (None, w1)))"
  by pat_completeness auto
termination
  by (relation "measure (\<lambda>(rt, c, csm, key, val, ttl, left, w). unat (left - 1))")
     (auto simp: attempts_decrease)

declare put_loop.simps [simp del]

definition RedisStore_put ::
    "'w go_runtime \<Rightarrow> 'a codec \<Rightarrow> 'w RedisStore \<Rightarrow> string \<Rightarrow> 'a \<Rightarrow> duration \<Rightarrow> 'w
       \<Rightarrow> go_error option \<times> 'w" where
  "RedisStore_put rt c csm key val ttl w = put_loop rt c csm key val ttl (rs_MaxRetries csm) w"

definition RedisStore_Health :: "'w RedisStore \<Rightarrow> 'w \<Rightarrow> go_error option \<times> 'w" where
  "RedisStore_Health csm w =
     (case rdb_Ping (rs_client csm) (rs_Timeout csm) w of
        (Some err, w1) \<Rightarrow> (Some (GenericStoreError (Error_text err)), w1)
      | (None, w1) \<Rightarrow> (None, w1))"

definition RedisStore_SetTimeout :: "'w RedisStore \<Rightarrow> duration \<Rightarrow> 'w RedisStore" where
  "RedisStore_SetTimeout csm d = csm\<lparr>rs_Timeout := d\<rparr>"

definition RedisStore_GetTimeout :: "'w RedisStore \<Rightarrow> duration" where
  "RedisStore_GetTimeout csm = rs_Timeout csm"

subsection \<open>Configurations\<close>

definition RedisStore_GetConfig ::
    "'w go_runtime \<Rightarrow> codecs \<Rightarrow> 'w RedisStore \<Rightarrow> string \<Rightarrow> 'w \<Rightarrow> (go_error + Configuration) \<times> 'w" where
  "RedisStore_GetConfig rt cs csm ident w =
     RedisStore_get rt (cfg_codec cs) csm (NewKeyForConfig ident) w"

text \<open>\<^verbatim>\<open>Exists(...).Val()\<close> is zero when the call fails; the replies of \<^verbatim>\<open>SAdd\<close> are not read.\<close>

definition Val :: "go_error + int \<Rightarrow> int" where
  "Val r = (case r of Inl e \<Rightarrow> 0 | Inr n \<Rightarrow> n)"

definition RedisStore_PutConfig ::
    "'w go_runtime \<Rightarrow> codecs \<Rightarrow> 'w RedisStore \<Rightarrow> Configuration option \<Rightarrow> 'w
       \<Rightarrow> go_error option \<times> 'w" where
  "RedisStore_PutConfig rt cs csm cfg w =
     (case cfg of
        None \<Rightarrow> (Some (InvalidDataError ''nil config''), w)
      | Some c \<Rightarrow>
          (let key = NewKeyForConfig (GetVersionId c) in
           case rdb_Exists (rs_client csm) key w of
             (n, w1) \<Rightarrow>
               if Val n = 1 then (Some (AlreadyExistsError key), w1)
               else
                 (case rdb_SAdd (rs_client csm) ConfigsPrefix (cfg_Name c) w1 of
                    (_, w2) \<Rightarrow>
                      (case rdb_SAdd (rs_client csm) (NewKeyForConfig (cfg_Name c)) (GetVersionId c) w2 of
                         (_, w3) \<Rightarrow> RedisStore_put rt (cfg_codec cs) csm key c NeverExpire w3))))"

definition members_or_nil :: "(go_error + string list) \<times> 'w \<Rightarrow> string list \<times> 'w" where
  "members_or_nil r = (case r of (Inl err, w) \<Rightarrow> ([], w) | (Inr xs, w) \<Rightarrow> (xs, w))"

definition RedisStore_GetAllConfigs :: "'w RedisStore \<Rightarrow> 'w \<Rightarrow> string list \<times> 'w" where
  "RedisStore_GetAllConfigs csm w =
     members_or_nil (rdb_SMembers (rs_client csm) ConfigsPrefix w)"

definition RedisStore_GetAllVersions :: "'w RedisStore \<Rightarrow> string \<Rightarrow> 'w \<Rightarrow> string list \<times> 'w" where
  "RedisStore_GetAllVersions csm name w =
     members_or_nil (rdb_SMembers (rs_client csm) (NewKeyForConfig name) w)"

subsection \<open>State machines\<close>

definition RedisStore_GetStateMachine ::
    "'w go_runtime \<Rightarrow> codecs \<Rightarrow> 'w RedisStore \<Rightarrow> string \<Rightarrow> string \<Rightarrow> 'w
       \<Rightarrow> (go_error + FiniteStateMachine) \<times> 'w" where
  "RedisStore_GetStateMachine rt cs csm ident cfg w =
     RedisStore_get rt (fsm_codec cs) csm (NewKeyForMachine ident cfg) w"

definition RedisStore_PutStateMachine ::
    "'w go_runtime \<Rightarrow> codecs \<Rightarrow> 'w RedisStore \<Rightarrow> string \<Rightarrow> FiniteStateMachine option \<Rightarrow> 'w
       \<Rightarrow> go_error option \<times> 'w" where
  "RedisStore_PutStateMachine rt cs csm ident stateMachine w =
     (case stateMachine of
        None \<Rightarrow> (Some (InvalidDataError ''nil statemachine''), w)
      | Some m \<Rightarrow>
          (let configName = hd (Split (fsm_ConfigId m) CHR '':'');
               key = NewKeyForMachine ident configName
           in RedisStore_put rt (fsm_codec cs) csm key m NeverExpire w))"

definition RedisStore_GetAllInState ::
    "'w RedisStore \<Rightarrow> string \<Rightarrow> string \<Rightarrow> 'w \<Rightarrow> string list \<times> 'w" where
  "RedisStore_GetAllInState csm cfg state w =
     members_or_nil (rdb_SMembers (rs_client csm) (NewKeyForMachinesByState cfg state) w)"

definition RedisStore_UpdateState ::
    "'w RedisStore \<Rightarrow> string \<Rightarrow> string \<Rightarrow> string \<Rightarrow> string \<Rightarrow> 'w \<Rightarrow> go_error option \<times> 'w" where
  "RedisStore_UpdateState csm cfgName ident oldState newState w =
     (case (if oldState \<noteq> ''''
            then rdb_SRem (rs_client csm) (NewKeyForMachinesByState cfgName oldState) ident w
            else (None, w)) of
        (Some err, w1) \<Rightarrow>
          (Some (Errorf (''cannot remove FSM ['' @ cfgName @ ''#'' @ ident @ ''] from state set `''
             @ oldState @ ''`: '' @ Error_text err)), w1)
      | (None, w1) \<Rightarrow>
          (case (if newState \<noteq> ''''
                 then rdb_SAdd (rs_client csm) (NewKeyForMachinesByState cfgName newState) ident w1
                 else (None, w1)) of
             (Some err, w2) \<Rightarrow>
               (Some (Errorf (''cannot add FSM ['' @ cfgName @ ''#'' @ ident @ ''] to state set `''
                  @ newState @ ''`: '' @ Error_text err)), w2)
           | (None, w2) \<Rightarrow> (None, w2)))"

text \<open>The function \<^verbatim>\<open>TxProcessEvent\<close> hands to \<^verbatim>\<open>TxPipelined\<close>, and the one it hands to \<^verbatim>\<open>Watch\<close>.\<close>

definition tx_commit ::
    "codecs \<Rightarrow> 'w RedisStore \<Rightarrow> string \<Rightarrow> string \<Rightarrow> string \<Rightarrow> FiniteStateMachine \<Rightarrow> 'w tx" where
  "tx_commit cs csm ident cfgName oldState fsm w =
     (case marshal (fsm_codec cs) fsm of
        Inl err \<Rightarrow> (Ret (Some (InvalidDataError (Error_text err))), w)
      | Inr data \<Rightarrow>
          (case pipe_Set (rs_client csm) (NewKeyForMachine ident cfgName) data NeverExpire w of
             (Some err, w1) \<Rightarrow> (Ret (Some err), w1)
           | (None, w1) \<Rightarrow>
               (case RedisStore_UpdateState csm cfgName ident oldState (fsm_State fsm) w1 of
                  (err, w2) \<Rightarrow> (Ret err, w2))))"

definition txf ::
    "'w go_runtime \<Rightarrow> codecs \<Rightarrow> 'w RedisStore \<Rightarrow> string \<Rightarrow> string \<Rightarrow> Event option \<Rightarrow> 'w tx" where
  "txf rt cs csm ident cfgName evt w =
     (case RedisStore_GetStateMachine rt cs csm ident cfgName w of
        (Inl err, w1) \<Rightarrow> (Ret (Some (NotFoundError (NewKeyForMachine ident cfgName))), w1)
      | (Inr fsm, w1) \<Rightarrow>
          (case RedisStore_GetConfig rt cs csm (fsm_ConfigId fsm) w1 of
             (Inl err, w2) \<Rightarrow> (Ret (Some (NotFoundError (Error_text err))), w2)
           | (Inr cfg, w2) \<Rightarrow>
               (case SendEvent \<lparr>csm_Config = cfg, csm_FSM = fsm\<rparr> evt of
                  Panic \<Rightarrow> (Panic, w2)
                | Ret (Some err, x) \<Rightarrow> (Ret (Some err), w2)
                | Ret (None, x) \<Rightarrow>
                    rdb_TxPipelined (rs_client csm) DefaultTimeout
                      (tx_commit cs csm ident cfgName (fsm_State fsm) (csm_FSM x)) w2)))"

fun TxProcessEvent_loop ::
    "'w go_runtime \<Rightarrow> codecs \<Rightarrow> 'w RedisStore \<Rightarrow> string \<Rightarrow> string \<Rightarrow> Event option \<Rightarrow> nat \<Rightarrow> 'w tx" where
  "TxProcessEvent_loop rt cs csm ident cfgName evt 0 w = (Ret (Some (TooManyAttempts '''')), w)"
| "TxProcessEvent_loop rt cs csm ident cfgName evt (Suc n) w =
     (case rdb_Watch (rs_client csm) DefaultTimeout (NewKeyForMachine ident cfgName)
             (txf rt cs csm ident cfgName evt) w of
        (r, w1) \<Rightarrow>
          if r = Ret (Some TxFailedErr) then TxProcessEvent_loop rt cs csm ident cfgName evt n w1
          else (r, w1))"

definition RedisStore_TxProcessEvent ::
    "'w go_runtime \<Rightarrow> codecs \<Rightarrow> 'w RedisStore \<Rightarrow> string \<Rightarrow> string \<Rightarrow> Event option \<Rightarrow> 'w tx" where
  "RedisStore_TxProcessEvent rt cs csm ident cfgName evt w =
     TxProcessEvent_loop rt cs csm ident cfgName evt DefaultMaxRetries w"

subsection \<open>Events and outcomes\<close>

definition RedisStore_GetEvent ::
    "'w go_runtime \<Rightarrow> codecs \<Rightarrow> 'w RedisStore \<Rightarrow> string \<Rightarrow> string \<Rightarrow> 'w \<Rightarrow> (go_error + Event) \<times> 'w" where
  "RedisStore_GetEvent rt cs csm ident cfg w =
     RedisStore_get rt (evt_codec cs) csm (NewKeyForEvent ident cfg) w"

definition RedisStore_PutEvent ::
    "'w go_runtime \<Rightarrow> codecs \<Rightarrow> 'w RedisStore \<Rightarrow> Event option \<Rightarrow> string \<Rightarrow> duration \<Rightarrow> 'w
       \<Rightarrow> go_error option \<times> 'w" where
  "RedisStore_PutEvent rt cs csm event cfg ttl w =
     (case event of
        None \<Rightarrow> (Some (InvalidDataError ''nil event''), w)
      | Some e \<Rightarrow> RedisStore_put rt (evt_codec cs) csm (NewKeyForEvent (evt_EventId e) cfg) e ttl w)"

definition RedisStore_AddEventOutcome ::
    "'w go_runtime \<Rightarrow> codecs \<Rightarrow> 'w RedisStore \<Rightarrow> string \<Rightarrow> string \<Rightarrow> EventOutcome option \<Rightarrow> duration
       \<Rightarrow> 'w \<Rightarrow> go_error option \<times> 'w" where
  "RedisStore_AddEventOutcome rt cs csm ident cfg response ttl w =
     (case response of
        None \<Rightarrow> (Some (InvalidDataError ''nil response''), w)
      | Some r \<Rightarrow> RedisStore_put rt (out_codec cs) csm (NewKeyForOutcome ident cfg) r ttl w)"

definition RedisStore_GetOutcomeForEvent ::
    "'w go_runtime \<Rightarrow> codecs \<Rightarrow> 'w RedisStore \<Rightarrow> string \<Rightarrow> string \<Rightarrow> 'w
       \<Rightarrow> (go_error + EventOutcome) \<times> 'w" where
  "RedisStore_GetOutcomeForEvent rt cs csm ident cfg w =
     RedisStore_get rt (out_codec cs) csm (NewKeyForOutcome ident cfg) w"

section \<open>The retry loops\<close>

lemma get_loop_timeouts:
  fixes left :: "64 word"
  assumes "\<And>w. rdb_Get (rs_client csm) key (rs_Timeout csm) w = (Inl err, True, tick w)"
    and "err \<noteq> RedisNil" and "unat (left - 1) = n"
  shows "get_loop rt c csm key left w = (Inl err, tick (((\<lambda>w. wait rt (tick w)) ^^ n) w))"
  using assms(3)
proof (induction n arbitrary: left w)
  case 0
  then have "left - 1 = 0" by (simp add: unat_eq_0)
  with assms(1,2) show ?case by (subst get_loop.simps) simp
next
  case (Suc n)
  then have ne: "left - 1 \<noteq> 0" by auto
  then have "unat (left - 1 - 1) = n"
    using unat_minus_one [OF ne] Suc.prems by simp
  from Suc.IH [OF this] ne assms(1,2) show ?case
    by (subst get_loop.simps) (simp add: funpow_Suc_right del: funpow.simps)
qed

lemma put_loop_timeouts:
  fixes left :: "64 word"
  assumes "\<And>w. rdb_Set (rs_client csm) key data ttl (rs_Timeout csm) w = (Some err, True, tick w)"
    and "marshal c val = Inr data" and "unat (left - 1) = n"
  shows "put_loop rt c csm key val ttl left w =
           (Some (TooManyAttempts ''''), tick (((\<lambda>w. wait rt (tick w)) ^^ n) w))"
  using assms(3)
proof (induction n arbitrary: left w)
  case 0
  then have "left - 1 = 0" by (simp add: unat_eq_0)
  with assms(1,2) show ?case by (subst put_loop.simps) simp
next
  case (Suc n)
  then have ne: "left - 1 \<noteq> 0" by auto
  then have "unat (left - 1 - 1) = n"
    using unat_minus_one [OF ne] Suc.prems by simp
  from Suc.IH [OF this] ne assms(1,2) show ?case
    by (subst put_loop.simps) (simp add: funpow_Suc_right del: funpow.simps)
qed

text \<open>The number of attempts that a setting of \<^verbatim>\<open>MaxRetries\<close> allows.\<close>

definition attempts :: "64 word \<Rightarrow> nat" where
  "attempts m = (if m = 0 then 2 ^ 64 else unat m)"

lemma attempts_eq: "attempts m = Suc (unat (m - 1))"
proof (cases "m = 0")
  case True
  have "unat (- 1 :: 64 word) = 2 ^ 64 - 1" by (simp add: unsigned_minus_1_eq_mask mask_eq_exp_minus_1)
  with True show ?thesis by (simp add: attempts_def)
next
  case False
  then have "unat (m - 1) = unat m - 1" by (rule unat_minus_one)
  moreover from False have "0 < unat m" by (simp add: unat_gt_0)
  ultimately show ?thesis using False by (simp add: attempts_def)
qed

text \<open>
  C34. Against a server that never answers in time, \<^verbatim>\<open>get\<close> and \<^verbatim>\<open>put\<close> give up after exactly
  \<^verbatim>\<open>MaxRetries\<close> attempts, with a wait between one and the next; \<^verbatim>\<open>get\<close> then returns the client's
  error and \<^verbatim>\<open>put\<close> returns \<^verbatim>\<open>TooManyAttempts\<close>. The counter is decremented before it is compared
  with zero, so \<^verbatim>\<open>MaxRetries = 0\<close> allows not one attempt but \<open>2 ^ 64\<close>.
\<close>

theorem retries_are_bounded:
  assumes "\<And>w. rdb_Get (rs_client csm) key (rs_Timeout csm) w = (Inl err, True, tick w)"
    and "err \<noteq> RedisNil"
    and "\<And>b w. rdb_Set (rs_client csm) key b ttl (rs_Timeout csm) w = (Some err', True, tock w)"
    and "marshal c val = Inr data"
  defines "n \<equiv> attempts (rs_MaxRetries csm) - 1"
  shows "RedisStore_get rt c csm key w =
           (Inl err, tick (((\<lambda>w. wait rt (tick w)) ^^ n) w)) \<and>
         RedisStore_put rt c csm key val ttl w =
           (Some (TooManyAttempts ''''), tock (((\<lambda>w. wait rt (tock w)) ^^ n) w)) \<and>
         Suc n = (if rs_MaxRetries csm = 0 then 2 ^ 64 else unat (rs_MaxRetries csm))"
proof -
  have n: "unat (rs_MaxRetries csm - 1) = n" by (simp add: n_def attempts_eq)
  have "RedisStore_get rt c csm key w = (Inl err, tick (((\<lambda>w. wait rt (tick w)) ^^ n) w))"
    unfolding RedisStore_get_def by (rule get_loop_timeouts [OF assms(1,2) n])
  moreover have "RedisStore_put rt c csm key val ttl w =
      (Some (TooManyAttempts ''''), tock (((\<lambda>w. wait rt (tock w)) ^^ n) w))"
    unfolding RedisStore_put_def by (rule put_loop_timeouts [OF assms(3,4) n])
  moreover have "Suc n = (if rs_MaxRetries csm = 0 then 2 ^ 64 else unat (rs_MaxRetries csm))"
    using attempts_eq [of "rs_MaxRetries csm"] by (simp add: n_def attempts_def)
  ultimately show ?thesis by blast
qed

text \<open>A client that counts the calls and never answers in time.\<close>

definition silent_client :: "nat redis_client" where
  "silent_client =
     \<lparr>rdb_Get = (\<lambda>k t w. (Inl timeout_error, True, Suc w)),
      rdb_Set = (\<lambda>k b ttl t w. (Some timeout_error, True, Suc w)),
      rdb_Exists = (\<lambda>k w. (Inl timeout_error, Suc w)),
      rdb_SAdd = (\<lambda>k m w. (Some timeout_error, Suc w)),
      rdb_SRem = (\<lambda>k m w. (Some timeout_error, Suc w)),
      rdb_SMembers = (\<lambda>k w. (Inl timeout_error, Suc w)),
      rdb_Ping = (\<lambda>t w. (Some timeout_error, Suc w)),
      rdb_Watch = (\<lambda>t k fn w. (Ret (Some timeout_error), Suc w)),
      rdb_TxPipelined = (\<lambda>t fn w. (Ret (Some timeout_error), Suc w)),
      pipe_Set = (\<lambda>k b ttl w. (Some timeout_error, w))\<rparr>"

theorem retries_are_bounded_witness:
  "RedisStore_get counting_runtime (cfg_codec plain_codecs)
     \<lparr>rs_client = silent_client, rs_Timeout = 1, rs_MaxRetries = 3\<rparr> ''k'' 0 =
   (Inl timeout_error, 3) \<and>
   RedisStore_put counting_runtime (cfg_codec plain_codecs)
     \<lparr>rs_client = silent_client, rs_Timeout = 1, rs_MaxRetries = 3\<rparr> ''k'' lander_cfg 0 0 =
   (Some (TooManyAttempts ''''), 3)"
proof -
  have w: "wait counting_runtime n = n" for n
    by (simp add: wait_def counting_runtime_def)
  have s: "((\<lambda>w. Suc w) ^^ 2) (0 :: nat) = 2" by (simp add: numeral_2_eq_2)
  show ?thesis
    using retries_are_bounded [of "\<lparr>rs_client = silent_client, rs_Timeout = 1, rs_MaxRetries = 3\<rparr>"
        "''k''" timeout_error Suc 0 timeout_error Suc "cfg_codec plain_codecs" lander_cfg _
        counting_runtime 0]
    by (simp add: silent_client_def timeout_error_def attempts_def w s)
qed

end
