(* ===== verification/Store_Programs.thy ===== *)
theory Store_Programs
  imports Redis_Store
begin

text \<open>
  The methods of the store that process an event, as programs whose commands can be interleaved with those of
  other clients: a tree with one
  node for each call that reaches the server, and a branch for every reply. \<open>run\<close> executes a program with a
  client from its first command to its last; the theorem of this theory is that the program of
  \<^verbatim>\<open>TxProcessEvent\<close>, run with any client, is the method of the store.
\<close>

section \<open>Programs\<close>

text \<open>
  \<open>WatchCmd\<close> and \<open>TxCmd\<close> hold the function that is handed to the client, as a program of its own. \<open>WaitCmd\<close>
  is \<^verbatim>\<open>wait\<close>: a random pause.
\<close>

datatype prog =
    Return "go_error option go"
  | WaitCmd prog
  | GetCmd string duration "(go_error + bytes) \<times> bool \<Rightarrow> prog"
  | SetCmd string bytes duration duration "go_error option \<times> bool \<Rightarrow> prog"
  | SAddCmd string string "go_error option \<Rightarrow> prog"
  | SRemCmd string string "go_error option \<Rightarrow> prog"
  | PipeSetCmd string bytes duration "go_error option \<Rightarrow> prog"
  | WatchCmd duration string prog "go_error option go \<Rightarrow> prog"
  | TxCmd duration prog "go_error option go \<Rightarrow> prog"

primrec run :: "'w go_runtime \<Rightarrow> 'w redis_client \<Rightarrow> prog \<Rightarrow> 'w tx" where
  "run rt rc (Return r) = (\<lambda>w. (r, w))"
| "run rt rc (WaitCmd p) = (\<lambda>w. run rt rc p (wait rt w))"
| "run rt rc (GetCmd k t c) = (\<lambda>w. case rdb_Get rc k t w of (g, x, w1) \<Rightarrow> run rt rc (c (g, x)) w1)"
| "run rt rc (SetCmd k b ttl t c) = (\<lambda>w. case rdb_Set rc k b ttl t w of (e, x, w1) \<Rightarrow> run rt rc (c (e, x)) w1)"
| "run rt rc (SAddCmd k m c) = (\<lambda>w. case rdb_SAdd rc k m w of (e, w1) \<Rightarrow> run rt rc (c e) w1)"
| "run rt rc (SRemCmd k m c) = (\<lambda>w. case rdb_SRem rc k m w of (e, w1) \<Rightarrow> run rt rc (c e) w1)"
| "run rt rc (PipeSetCmd k b ttl c) = (\<lambda>w. case pipe_Set rc k b ttl w of (e, w1) \<Rightarrow> run rt rc (c e) w1)"
| "run rt rc (WatchCmd t k p c) = (\<lambda>w. case rdb_Watch rc t k (run rt rc p) w of (r, w1) \<Rightarrow> run rt rc (c r) w1)"
| "run rt rc (TxCmd t p c) = (\<lambda>w. case rdb_TxPipelined rc t (run rt rc p) w of (r, w1) \<Rightarrow> run rt rc (c r) w1)"

text \<open>A program that goes on with the result of another.\<close>

primrec then_prog :: "prog \<Rightarrow> (go_error option go \<Rightarrow> prog) \<Rightarrow> prog" where
  "then_prog (Return r) = (\<lambda>k. k r)"
| "then_prog (WaitCmd p) = (\<lambda>k. WaitCmd (then_prog p k))"
| "then_prog (GetCmd key t c) = (\<lambda>k. GetCmd key t (\<lambda>r. then_prog (c r) k))"
| "then_prog (SetCmd key b ttl t c) = (\<lambda>k. SetCmd key b ttl t (\<lambda>r. then_prog (c r) k))"
| "then_prog (SAddCmd key m c) = (\<lambda>k. SAddCmd key m (\<lambda>r. then_prog (c r) k))"
| "then_prog (SRemCmd key m c) = (\<lambda>k. SRemCmd key m (\<lambda>r. then_prog (c r) k))"
| "then_prog (PipeSetCmd key b ttl c) = (\<lambda>k. PipeSetCmd key b ttl (\<lambda>r. then_prog (c r) k))"
| "then_prog (WatchCmd t key p c) = (\<lambda>k. WatchCmd t key p (\<lambda>r. then_prog (c r) k))"
| "then_prog (TxCmd t p c) = (\<lambda>k. TxCmd t p (\<lambda>r. then_prog (c r) k))"

lemma run_then_prog: "run rt rc (then_prog p k) w = (case run rt rc p w of (r, w1) \<Rightarrow> run rt rc (k r) w1)"
  by (induction p arbitrary: w) (auto split: prod.split)

section \<open>The methods of the store\<close>

text \<open>A method that returns a value is given the rest of the program, which takes that value.\<close>

function got :: "'a codec \<Rightarrow> duration \<Rightarrow> string \<Rightarrow> 64 word \<Rightarrow> (go_error + 'a \<Rightarrow> prog) \<Rightarrow> (go_error + bytes) \<times> bool \<Rightarrow> prog" where
  "got c timeout key attemptsLeft k (reply, expired) =
     (case reply of
        Inl err \<Rightarrow>
          if err = RedisNil then k (Inl (NotFoundError key))
          else if expired then
            (if attemptsLeft - 1 = 0 then k (Inl err)
             else WaitCmd (GetCmd key timeout (got c timeout key (attemptsLeft - 1) k)))
          else k (Inl (GenericStoreError (Error_text err)))
      | Inr data \<Rightarrow> k (unmarshal c data))"
  by pat_completeness auto
termination
  by (relation "measure (\<lambda>(c, timeout, key, left, k, r). unat (left - 1))") (auto simp: attempts_decrease)

declare got.simps [simp del]

definition get_prog :: "'a codec \<Rightarrow> duration \<Rightarrow> string \<Rightarrow> 64 word \<Rightarrow> (go_error + 'a \<Rightarrow> prog) \<Rightarrow> prog" where
  "get_prog c timeout key retries k = GetCmd key timeout (got c timeout key retries k)"

function sent ::
    "'a codec \<Rightarrow> duration \<Rightarrow> string \<Rightarrow> 'a \<Rightarrow> duration \<Rightarrow> 64 word \<Rightarrow> (go_error option \<Rightarrow> prog) \<Rightarrow>
       go_error option \<times> bool \<Rightarrow> prog" where
  "sent c timeout key val ttl attemptsLeft k (reply, expired) =
     (case reply of
        Some err \<Rightarrow>
          if expired then
            (if attemptsLeft - 1 = 0 then k (Some (TooManyAttempts ''''))
             else WaitCmd
               (case marshal c val of
                  Inl err \<Rightarrow> k (Some (InvalidDataError (Error_text err)))
                | Inr data \<Rightarrow> SetCmd key data ttl timeout (sent c timeout key val ttl (attemptsLeft - 1) k)))
          else k (Some (GenericStoreError (Error_text err)))
      | None \<Rightarrow> k None)"
  by pat_completeness auto
termination
  by (relation "measure (\<lambda>(c, timeout, key, val, ttl, left, k, r). unat (left - 1))") (auto simp: attempts_decrease)

declare sent.simps [simp del]

definition put_prog ::
    "'a codec \<Rightarrow> duration \<Rightarrow> string \<Rightarrow> 'a \<Rightarrow> duration \<Rightarrow> 64 word \<Rightarrow> (go_error option \<Rightarrow> prog) \<Rightarrow> prog" where
  "put_prog c timeout key val ttl retries k =
     (case marshal c val of
        Inl err \<Rightarrow> k (Some (InvalidDataError (Error_text err)))
      | Inr data \<Rightarrow> SetCmd key data ttl timeout (sent c timeout key val ttl retries k))"

lemma sent_again:
  "sent c timeout key val ttl left k (reply, expired) =
     (case reply of
        Some err \<Rightarrow>
          if expired then
            (if left - 1 = 0 then k (Some (TooManyAttempts ''''))
             else WaitCmd (put_prog c timeout key val ttl (left - 1) k))
          else k (Some (GenericStoreError (Error_text err)))
      | None \<Rightarrow> k None)"
  by (simp add: sent.simps [of c timeout key val ttl left] put_prog_def split: option.split)

definition PutEvent_prog ::
    "codecs \<Rightarrow> duration \<Rightarrow> 64 word \<Rightarrow> Event option \<Rightarrow> string \<Rightarrow> duration \<Rightarrow> (go_error option \<Rightarrow> prog) \<Rightarrow> prog" where
  "PutEvent_prog cs timeout retries event cfg ttl k =
     (case event of
        None \<Rightarrow> k (Some (InvalidDataError ''nil event''))
      | Some e \<Rightarrow> put_prog (evt_codec cs) timeout (NewKeyForEvent (evt_EventId e) cfg) e ttl retries k)"

definition AddEventOutcome_prog ::
    "codecs \<Rightarrow> duration \<Rightarrow> 64 word \<Rightarrow> string \<Rightarrow> string \<Rightarrow> EventOutcome option \<Rightarrow> duration \<Rightarrow>
       (go_error option \<Rightarrow> prog) \<Rightarrow> prog" where
  "AddEventOutcome_prog cs timeout retries ident cfg response ttl k =
     (case response of
        None \<Rightarrow> k (Some (InvalidDataError ''nil response''))
      | Some r \<Rightarrow> put_prog (out_codec cs) timeout (NewKeyForOutcome ident cfg) r ttl retries k)"

definition state_added :: "string \<Rightarrow> string \<Rightarrow> string \<Rightarrow> (go_error option \<Rightarrow> prog) \<Rightarrow> go_error option \<Rightarrow> prog" where
  "state_added cfgName ident newState k reply =
     (case reply of
        Some err \<Rightarrow>
          k (Some (Errorf (''cannot add FSM ['' @ cfgName @ ''#'' @ ident @ ''] to state set `''
              @ newState @ ''`: '' @ Error_text err)))
      | None \<Rightarrow> k None)"

definition state_removed ::
    "string \<Rightarrow> string \<Rightarrow> string \<Rightarrow> string \<Rightarrow> (go_error option \<Rightarrow> prog) \<Rightarrow> go_error option \<Rightarrow> prog" where
  "state_removed cfgName ident oldState newState k reply =
     (case reply of
        Some err \<Rightarrow>
          k (Some (Errorf (''cannot remove FSM ['' @ cfgName @ ''#'' @ ident @ ''] from state set `''
              @ oldState @ ''`: '' @ Error_text err)))
      | None \<Rightarrow>
          if newState \<noteq> ''''
          then SAddCmd (NewKeyForMachinesByState cfgName newState) ident (state_added cfgName ident newState k)
          else state_added cfgName ident newState k None)"

definition UpdateState_prog :: "string \<Rightarrow> string \<Rightarrow> string \<Rightarrow> string \<Rightarrow> (go_error option \<Rightarrow> prog) \<Rightarrow> prog" where
  "UpdateState_prog cfgName ident oldState newState k =
     (if oldState \<noteq> ''''
      then SRemCmd (NewKeyForMachinesByState cfgName oldState) ident (state_removed cfgName ident oldState newState k)
      else state_removed cfgName ident oldState newState k None)"

definition machine_queued :: "string \<Rightarrow> string \<Rightarrow> string \<Rightarrow> string \<Rightarrow> go_error option \<Rightarrow> prog" where
  "machine_queued ident cfgName oldState newState reply =
     (case reply of
        Some err \<Rightarrow> Return (Ret (Some err))
      | None \<Rightarrow> UpdateState_prog cfgName ident oldState newState (Return \<circ> Ret))"

definition tx_commit_prog :: "codecs \<Rightarrow> string \<Rightarrow> string \<Rightarrow> string \<Rightarrow> FiniteStateMachine \<Rightarrow> prog" where
  "tx_commit_prog cs ident cfgName oldState fsm =
     (case marshal (fsm_codec cs) fsm of
        Inl err \<Rightarrow> Return (Ret (Some (InvalidDataError (Error_text err))))
      | Inr data \<Rightarrow>
          PipeSetCmd (NewKeyForMachine ident cfgName) data NeverExpire
            (machine_queued ident cfgName oldState (fsm_State fsm)))"

definition cfg_read ::
    "codecs \<Rightarrow> string \<Rightarrow> string \<Rightarrow> Event option \<Rightarrow> FiniteStateMachine \<Rightarrow> go_error + Configuration \<Rightarrow> prog" where
  "cfg_read cs ident cfgName evt fsm reply =
     (case reply of
        Inl err \<Rightarrow> Return (Ret (Some (NotFoundError (Error_text err))))
      | Inr cfg \<Rightarrow>
          (case SendEvent \<lparr>csm_Config = cfg, csm_FSM = fsm\<rparr> evt of
             Panic \<Rightarrow> Return Panic
           | Ret (Some err, x) \<Rightarrow> Return (Ret (Some err))
           | Ret (None, x) \<Rightarrow>
               TxCmd DefaultTimeout (tx_commit_prog cs ident cfgName (fsm_State fsm) (csm_FSM x)) Return))"

definition fsm_read ::
    "codecs \<Rightarrow> duration \<Rightarrow> 64 word \<Rightarrow> string \<Rightarrow> string \<Rightarrow> Event option \<Rightarrow> go_error + FiniteStateMachine \<Rightarrow> prog" where
  "fsm_read cs timeout retries ident cfgName evt reply =
     (case reply of
        Inl err \<Rightarrow> Return (Ret (Some (NotFoundError (NewKeyForMachine ident cfgName))))
      | Inr fsm \<Rightarrow>
          get_prog (cfg_codec cs) timeout (NewKeyForConfig (fsm_ConfigId fsm)) retries
            (cfg_read cs ident cfgName evt fsm))"

definition txf_prog :: "codecs \<Rightarrow> duration \<Rightarrow> 64 word \<Rightarrow> string \<Rightarrow> string \<Rightarrow> Event option \<Rightarrow> prog" where
  "txf_prog cs timeout retries ident cfgName evt =
     get_prog (fsm_codec cs) timeout (NewKeyForMachine ident cfgName) retries
       (fsm_read cs timeout retries ident cfgName evt)"

definition again_if_failed :: "prog \<Rightarrow> go_error option go \<Rightarrow> prog" where
  "again_if_failed p r = (if r = Ret (Some TxFailedErr) then p else Return r)"

fun TxProcessEvent_loop_prog ::
    "codecs \<Rightarrow> duration \<Rightarrow> 64 word \<Rightarrow> string \<Rightarrow> string \<Rightarrow> Event option \<Rightarrow> nat \<Rightarrow> prog" where
  "TxProcessEvent_loop_prog cs timeout retries ident cfgName evt 0 = Return (Ret (Some (TooManyAttempts '''')))"
| "TxProcessEvent_loop_prog cs timeout retries ident cfgName evt (Suc n) =
     WatchCmd DefaultTimeout (NewKeyForMachine ident cfgName) (txf_prog cs timeout retries ident cfgName evt)
       (again_if_failed (TxProcessEvent_loop_prog cs timeout retries ident cfgName evt n))"

definition TxProcessEvent_prog :: "codecs \<Rightarrow> duration \<Rightarrow> 64 word \<Rightarrow> string \<Rightarrow> string \<Rightarrow> Event option \<Rightarrow> prog" where
  "TxProcessEvent_prog cs timeout retries ident cfgName evt =
     TxProcessEvent_loop_prog cs timeout retries ident cfgName evt DefaultMaxRetries"

section \<open>They are the methods of the store\<close>

lemma run_get_prog:
  "run rt (rs_client csm) (get_prog c (rs_Timeout csm) key left k) w =
     (case get_loop rt c csm key left w of (r, w1) \<Rightarrow> run rt (rs_client csm) (k r) w1)"
proof (induction rt c csm key left w rule: get_loop.induct)
  case (1 rt c csm key left w)
  obtain g x w1 where call: "rdb_Get (rs_client csm) key (rs_Timeout csm) w = (g, x, w1)"
    using prod_cases3 by blast
  show ?case
  proof (cases "(\<exists>err. g = Inl err \<and> err \<noteq> RedisNil) \<and> x \<and> left - 1 \<noteq> 0")
    case True
    then show ?thesis
      using 1 [OF call [symmetric]] call
      by (subst get_loop.simps) (auto simp: get_prog_def got.simps [of c _ key left])
  next
    case False
    then show ?thesis
      using call by (subst get_loop.simps) (auto simp: get_prog_def got.simps split: sum.splits)
  qed
qed

lemma run_put_prog:
  "run rt (rs_client csm) (put_prog c (rs_Timeout csm) key val ttl left k) w =
     (case put_loop rt c csm key val ttl left w of (r, w1) \<Rightarrow> run rt (rs_client csm) (k r) w1)"
proof (induction rt c csm key val ttl left w rule: put_loop.induct)
  case (1 rt c csm key val ttl left w)
  show ?case
  proof (cases "marshal c val")
    case (Inl err)
    then show ?thesis by (subst put_loop.simps) (simp add: put_prog_def)
  next
    case (Inr data)
    obtain e x w1 where call: "rdb_Set (rs_client csm) key data ttl (rs_Timeout csm) w = (e, x, w1)"
      using prod_cases3 by blast
    have "run rt (rs_client csm) (put_prog c (rs_Timeout csm) key val ttl (left - 1) k) (wait rt w1) =
        (case put_loop rt c csm key val ttl (left - 1) (wait rt w1) of (r, w1) \<Rightarrow> run rt (rs_client csm) (k r) w1)"
      if "e = Some err" "x" "left - 1 \<noteq> 0" for err
      using 1 [OF Inr call [symmetric]] that by blast
    then show ?thesis
      using Inr call
      by (subst put_loop.simps) (auto simp: put_prog_def [of c "rs_Timeout csm" key val ttl left] sent_again split: option.splits)
  qed
qed

lemma run_PutEvent_prog:
  "run rt (rs_client csm) (PutEvent_prog cs (rs_Timeout csm) (rs_MaxRetries csm) event cfg ttl k) w =
     (case RedisStore_PutEvent rt cs csm event cfg ttl w of (e, w1) \<Rightarrow> run rt (rs_client csm) (k e) w1)"
  by (simp add: PutEvent_prog_def RedisStore_PutEvent_def RedisStore_put_def run_put_prog split: option.split)

lemma run_AddEventOutcome_prog:
  "run rt (rs_client csm) (AddEventOutcome_prog cs (rs_Timeout csm) (rs_MaxRetries csm) i cfg out ttl k) w =
     (case RedisStore_AddEventOutcome rt cs csm i cfg out ttl w of (e, w1) \<Rightarrow> run rt (rs_client csm) (k e) w1)"
  by (simp add: AddEventOutcome_prog_def RedisStore_AddEventOutcome_def RedisStore_put_def run_put_prog split: option.split)

lemma run_UpdateState_prog:
  "run rt (rs_client csm) (UpdateState_prog n i old new k) w =
     (case RedisStore_UpdateState csm n i old new w of (e, w1) \<Rightarrow> run rt (rs_client csm) (k e) w1)"
  by (auto simp: UpdateState_prog_def state_removed_def state_added_def RedisStore_UpdateState_def
      split: option.splits prod.splits)

lemma run_tx_commit_prog:
  "run rt (rs_client csm) (tx_commit_prog cs i n old fsm) = tx_commit cs csm i n old fsm"
  by (rule ext)
     (auto simp: tx_commit_prog_def machine_queued_def tx_commit_def run_UpdateState_prog
       split: sum.splits option.splits prod.splits)

lemma run_txf_prog:
  "run rt (rs_client csm) (txf_prog cs (rs_Timeout csm) (rs_MaxRetries csm) i n evt) = txf rt cs csm i n evt"
  by (rule ext)
     (auto simp: txf_prog_def fsm_read_def cfg_read_def txf_def run_get_prog RedisStore_GetStateMachine_def RedisStore_GetConfig_def
       RedisStore_get_def run_tx_commit_prog split: sum.splits option.splits prod.splits go.splits)

lemma run_TxProcessEvent_loop_prog:
  "run rt (rs_client csm) (TxProcessEvent_loop_prog cs (rs_Timeout csm) (rs_MaxRetries csm) i n evt m) w =
     TxProcessEvent_loop rt cs csm i n evt m w"
  by (induction m arbitrary: w) (auto simp: run_txf_prog again_if_failed_def split: prod.splits)

text \<open>
  The program of \<^verbatim>\<open>TxProcessEvent\<close>, run with the client, the time-out and the number of attempts of a
  store, is the store's method: it has the same result and leaves the same world, whatever the client is.
\<close>

theorem run_TxProcessEvent_prog:
  "run rt (rs_client csm) (TxProcessEvent_prog cs (rs_Timeout csm) (rs_MaxRetries csm) i n evt) w =
     RedisStore_TxProcessEvent rt cs csm i n evt w"
  by (simp add: TxProcessEvent_prog_def RedisStore_TxProcessEvent_def run_TxProcessEvent_loop_prog)

end
