(* ===== verification/Store_Laws.thy ===== *)
theory Store_Laws
  imports Redis_Store
begin

text \<open>
  What the operations of \<open>Redis_Store\<close> do to the database. In the locale \<open>redis_store\<close> any call
  to the server may fail or time out: the lemmas say what a call that reports success has done,
  and what a call that reports an error may have done. In \<open>reliable_store\<close> the server answers:
  the lemmas say that the operations succeed and compute their results.
\<close>

section \<open>The database\<close>

lemma set_string_same [simp]: "set_string k b (set_string k b d) = set_string k b d"
  by (simp add: set_string_def)

lemma set_string_apply: "set_string k b d j = (if j = k then Some (RString b) else d j)"
  by (simp add: set_string_def)

lemma add_member_apply:
  "add_member k m d j = (if j = k then Some (RSet (finsert m (elements (d k)))) else d j)"
  by (simp add: add_member_def)

lemma add_member_other [simp]: "j \<noteq> k \<Longrightarrow> add_member k m d j = d j"
  by (simp add: add_member_def)

lemma remove_member_other [simp]: "j \<noteq> k \<Longrightarrow> remove_member k m d j = d j"
  by (simp add: remove_member_def)

lemma elements_add_member [simp]: "elements (add_member k m d k) = finsert m (elements (d k))"
  by (simp add: add_member_def)

lemma elements_remove_member [simp]:
  "elements (remove_member k m d k) = elements (d k) |-| {|m|}"
  by (cases "d k" rule: elements.cases) (auto simp: remove_member_def)

lemma holds_string_add_member: "holds_string (add_member k m d j) \<Longrightarrow> holds_string (d j)"
  by (simp add: add_member_apply split: if_splits)

lemma holds_string_remove_member: "holds_string (remove_member k m d j) \<Longrightarrow> holds_string (d j)"
  by (auto simp: remove_member_def split: if_splits)

text \<open>What moving a machine between the sets of two states does.\<close>

definition left_state :: "string \<Rightarrow> string \<Rightarrow> string \<Rightarrow> database \<Rightarrow> database" where
  "left_state n i st d =
     (if st = '''' then d else remove_member (NewKeyForMachinesByState n st) i d)"

definition entered_state :: "string \<Rightarrow> string \<Rightarrow> string \<Rightarrow> database \<Rightarrow> database" where
  "entered_state n i st d =
     (if st = '''' then d else add_member (NewKeyForMachinesByState n st) i d)"

definition moved :: "string \<Rightarrow> string \<Rightarrow> string \<Rightarrow> string \<Rightarrow> database \<Rightarrow> database" where
  "moved n i old new d = entered_state n i new (left_state n i old d)"

lemma moved_other [simp]:
  assumes "k \<noteq> NewKeyForMachinesByState n old" and "k \<noteq> NewKeyForMachinesByState n new"
  shows "moved n i old new d k = d k"
  using assms by (simp add: moved_def entered_state_def left_state_def)

text \<open>The message a key holds, if it holds one that can be read.\<close>

definition lookup :: "'a codec \<Rightarrow> database \<Rightarrow> string \<Rightarrow> 'a option" where
  "lookup c d k =
     (case d k of
        Some (RString b) \<Rightarrow> (case unmarshal c b of Inr x \<Rightarrow> Some x | Inl e \<Rightarrow> None)
      | _ \<Rightarrow> None)"

lemma lookup_cong: "d k = d' k \<Longrightarrow> lookup c d k = lookup c d' k"
  by (simp add: lookup_def)

lemma lookup_stored: "d k = Some (RString b) \<Longrightarrow> unmarshal c b = Inr x \<Longrightarrow> lookup c d k = Some x"
  by (simp add: lookup_def)

text \<open>
  What processing an event is to do: the stored machine, and the transition of its stored
  configuration that the event fires.
\<close>

definition fires ::
    "codecs \<Rightarrow> database \<Rightarrow> string \<Rightarrow> string \<Rightarrow> Event \<Rightarrow> FiniteStateMachine \<Rightarrow> Transition \<Rightarrow> bool" where
  "fires cs d i n e fsm t \<longleftrightarrow>
     lookup (fsm_codec cs) d (NewKeyForMachine i n) = Some fsm \<and>
     (case (lookup (cfg_codec cs) d (NewKeyForConfig (fsm_ConfigId fsm)), evt_Transition e) of
        (Some c, Some tr) \<Rightarrow> enabled c (fsm_State fsm) (t_Event tr) = Some t
      | _ \<Rightarrow> False)"

definition state_keys :: "string \<Rightarrow> string \<Rightarrow> string \<Rightarrow> string set" where
  "state_keys n old new = {NewKeyForMachinesByState n old, NewKeyForMachinesByState n new}"

text \<open>Only the membership of one machine in the sets of two states may differ.\<close>

definition only_moves :: "string \<Rightarrow> string \<Rightarrow> string \<Rightarrow> string \<Rightarrow> database \<Rightarrow> database \<Rightarrow> bool" where
  "only_moves n i old new d d' \<longleftrightarrow>
     (\<forall>k. k \<notin> state_keys n old new \<longrightarrow> d' k = d k) \<and>
     (\<forall>k. elements (d' k) |-| {|i|} = elements (d k) |-| {|i|})"

lemma only_moves_refl [simp]: "only_moves n i old new d d"
  by (simp add: only_moves_def)

lemma only_moves_trans:
  "only_moves n i old new d d1 \<Longrightarrow> only_moves n i old new d1 d2 \<Longrightarrow> only_moves n i old new d d2"
  by (simp add: only_moves_def)

lemma elements_member_other:
  "elements (add_member k i d j) |-| {|i|} = elements (d j) |-| {|i|}"
  "elements (remove_member k i d j) |-| {|i|} = elements (d j) |-| {|i|}"
  by (cases "j = k"; auto)+

lemma only_moves_left: "only_moves n i old new d (left_state n i old d)"
  by (auto simp: only_moves_def left_state_def state_keys_def elements_member_other)

lemma only_moves_entered: "only_moves n i old new d (entered_state n i new d)"
  by (auto simp: only_moves_def entered_state_def state_keys_def elements_member_other)

lemma only_moves_moved: "only_moves n i old new d (moved n i old new d)"
  unfolding moved_def using only_moves_left only_moves_entered by (rule only_moves_trans)

text \<open>Where the machine is listed after the move.\<close>

definition listed :: "string \<Rightarrow> string \<Rightarrow> string \<Rightarrow> database \<Rightarrow> bool" where
  "listed n i st d \<longleftrightarrow> i |\<in>| elements (d (NewKeyForMachinesByState n st))"

lemma listed_moved:
  "new \<noteq> '''' \<Longrightarrow> listed n i new (moved n i old new d)"
  "old \<noteq> '''' \<Longrightarrow> old \<noteq> new \<Longrightarrow> \<not> listed n i old (moved n i old new d)"
  by (simp_all add: listed_def moved_def entered_state_def left_state_def key_eqs)

lemma machine_key_other: "plain n \<Longrightarrow> NewKeyForMachine i n \<noteq> NewKeyForMachinesByState n st"
  using key_of_inject [of "Machine i n" "ByState n st"] by simp

lemma config_key_other: "NewKeyForConfig v \<noteq> NewKeyForMachinesByState n st"
  by (simp add: key_eqs)

lemma fires_only_moves:
  assumes "only_moves n i old new d d'" and "plain n"
  shows "fires cs d' i n e fsm t \<longleftrightarrow> fires cs d i n e fsm t"
proof -
  have "d' (NewKeyForMachine i n) = d (NewKeyForMachine i n)"
    "d' (NewKeyForConfig v) = d (NewKeyForConfig v)" for v
    using assms machine_key_other [of n i] config_key_other [of v n]
    by (auto simp: only_moves_def state_keys_def)
  then have "lookup (fsm_codec cs) d' (NewKeyForMachine i n) =
      lookup (fsm_codec cs) d (NewKeyForMachine i n)"
    "lookup (cfg_codec cs) d' (NewKeyForConfig v) = lookup (cfg_codec cs) d (NewKeyForConfig v)" for v
    by (simp_all add: lookup_def)
  then show ?thesis by (simp add: fires_def)
qed

section \<open>With a server that may fail\<close>

locale redis_store = redis_server rc rt view + wire cs
  for rc :: "'w redis_client" and rt :: "'w go_runtime" and view :: "'w \<Rightarrow> redis_view"
    and cs :: codecs +
  fixes csm :: "'w RedisStore"
  assumes client: "rs_client csm = rc"
begin

abbreviation db :: "'w \<Rightarrow> database" where
  "db w \<equiv> v_db (view w)"

lemma wait_view [simp]: "view (wait rt w) = view w"
  using rand_view [of 500 w] by (auto simp: wait_def sleep_view split: prod.split)

lemma get_loop_spec:
  "get_loop rt c csm key left w = (r, w') \<Longrightarrow>
     view w' = view w \<and>
     (\<forall>x. r = Inr x \<longrightarrow> (\<exists>b. db w key = Some (RString b) \<and> unmarshal c b = Inr x))"
proof (induction "unat (left - 1)" arbitrary: left w rule: less_induct)
  case less
  obtain g x w1 where call: "rdb_Get rc key (rs_Timeout csm) w = (g, x, w1)"
    using prod_cases3 by blast
  note law = get_law [OF call]
  show ?case
  proof (cases "(\<exists>err. g = Inl err \<and> err \<noteq> RedisNil) \<and> x \<and> left - 1 \<noteq> 0")
    case True
    then have "get_loop rt c csm key (left - 1) (wait rt w1) = (r, w')"
      using less.prems call by (subst (asm) get_loop.simps) (auto simp: client)
    moreover have "unat (left - 1 - 1) < unat (left - 1)"
      using True measure_unat by blast
    ultimately have "view w' = view (wait rt w1) \<and>
        (\<forall>x. r = Inr x \<longrightarrow> (\<exists>b. db (wait rt w1) key = Some (RString b) \<and> unmarshal c b = Inr x))"
      using less.hyps by blast
    then show ?thesis using law by simp
  next
    case False
    then show ?thesis
      using less.prems call law
      by (subst (asm) get_loop.simps) (auto simp: client split: sum.splits if_splits)
  qed
qed

lemma get_view: "RedisStore_get rt c csm key w = (r, w') \<Longrightarrow> view w' = view w"
  by (simp add: RedisStore_get_def get_loop_spec)

lemma get_value:
  assumes "RedisStore_get rt c csm key w = (Inr x, w')"
  obtains b where "db w key = Some (RString b)" and "unmarshal c b = Inr x"
  using assms get_loop_spec [of c key "rs_MaxRetries csm" w "Inr x" w']
  by (auto simp: RedisStore_get_def)

lemma put_loop_spec:
  "put_loop rt c csm key val 0 left w = (e, w') \<Longrightarrow>
     (\<exists>b. marshal c val = Inr b \<and> db w' = set_string key b (db w)) \<or> e \<noteq> None \<and> db w' = db w"
proof (induction "unat (left - 1)" arbitrary: left w rule: less_induct)
  case less
  show ?case
  proof (cases "marshal c val")
    case (Inl err)
    then show ?thesis using less.prems by (subst (asm) put_loop.simps) auto
  next
    case (Inr data)
    obtain g x w1 where call: "rdb_Set rc key data 0 (rs_Timeout csm) w = (g, x, w1)"
      using prod_cases3 by blast
    from set_law [OF call]
    have law: "db w1 = set_string key data (db w) \<or> g \<noteq> None \<and> db w1 = db w" by auto
    show ?thesis
    proof (cases "g \<noteq> None \<and> x \<and> left - 1 \<noteq> 0")
      case True
      then have "put_loop rt c csm key val 0 (left - 1) (wait rt w1) = (e, w')"
        using less.prems call Inr by (subst (asm) put_loop.simps) (auto simp: client)
      moreover have "unat (left - 1 - 1) < unat (left - 1)"
        using True measure_unat by blast
      ultimately have "(\<exists>b. marshal c val = Inr b \<and> db w' = set_string key b (db w1)) \<or>
          e \<noteq> None \<and> db w' = db w1"
        using less.hyps [of "left - 1" "wait rt w1"] by simp
      then show ?thesis using law Inr by auto
    next
      case False
      then show ?thesis
        using less.prems call law Inr
        by (subst (asm) put_loop.simps) (auto simp: client split: option.splits if_splits)
    qed
  qed
qed

text \<open>A write that reports success was made; one that reports an error was made or not.\<close>

lemma put_cases:
  assumes "RedisStore_put rt c csm key val NeverExpire w = (e, w')"
  obtains (written) b where "marshal c val = Inr b" and "db w' = set_string key b (db w)"
  | (failed) "e \<noteq> None" and "db w' = db w"
  using assms put_loop_spec [of c key val "rs_MaxRetries csm" w e w']
  by (auto simp: RedisStore_put_def NeverExpire_def)

text \<open>
  The two halves of \<^verbatim>\<open>UpdateState\<close>. \<open>same_tx\<close>: the queue and the watched key are as before, and the
  watched key was written only if it is one of the given keys.
\<close>

definition same_tx :: "string set \<Rightarrow> redis_view \<Rightarrow> redis_view \<Rightarrow> bool" where
  "same_tx K v v' \<longleftrightarrow>
     v_queue v' = v_queue v \<and> v_watch v' = v_watch v \<and>
     (v_dirty v' \<longrightarrow> v_dirty v \<or> (\<exists>k \<in> K. v_watch v = Some k))"

lemma same_tx_refl [simp]: "same_tx K v v"
  by (simp add: same_tx_def)

lemma same_tx_changed: "k \<in> K \<Longrightarrow> same_tx K v (changed k d v)"
  using changed_dirty by (auto simp: same_tx_def)

lemma same_tx_trans: "same_tx K u v \<Longrightarrow> same_tx K v w \<Longrightarrow> same_tx K u w"
  by (auto simp: same_tx_def)

lemma leave_cases:
  assumes "(if old \<noteq> '''' then rdb_SRem rc (NewKeyForMachinesByState n old) i w else (None, w)) = (e, w')"
  shows "(db w' = left_state n i old (db w) \<or> e \<noteq> None \<and> db w' = db w) \<and>
         same_tx {NewKeyForMachinesByState n old} (view w) (view w')"
  using assms srem_law [of "NewKeyForMachinesByState n old" i w e w']
  by (auto simp: left_state_def intro: same_tx_changed split: if_splits)

lemma enter_cases:
  assumes "(if new \<noteq> '''' then rdb_SAdd rc (NewKeyForMachinesByState n new) i w else (None, w)) = (e, w')"
  shows "(db w' = entered_state n i new (db w) \<or> e \<noteq> None \<and> db w' = db w) \<and>
         same_tx {NewKeyForMachinesByState n new} (view w) (view w')"
  using assms sadd_law [of "NewKeyForMachinesByState n new" i w e w']
  by (auto simp: entered_state_def intro: same_tx_changed split: if_splits)

lemma same_tx_mono: "same_tx K u v \<Longrightarrow> K \<subseteq> L \<Longrightarrow> same_tx L u v"
  by (auto simp: same_tx_def)

lemma UpdateState_spec:
  assumes "RedisStore_UpdateState csm n i old new w = (e, w')"
  shows "(e = None \<longrightarrow> db w' = moved n i old new (db w)) \<and>
         db w' \<in> {db w, left_state n i old (db w), moved n i old new (db w)} \<and>
         e \<noteq> Some TxFailedErr \<and>
         same_tx (state_keys n old new) (view w) (view w')"
proof -
  obtain e1 w1 where c1: "(if old \<noteq> '''' then rdb_SRem rc (NewKeyForMachinesByState n old) i w
      else (None, w)) = (e1, w1)"
    by fastforce
  obtain e2 w2 where c2: "(if new \<noteq> '''' then rdb_SAdd rc (NewKeyForMachinesByState n new) i w1
      else (None, w1)) = (e2, w2)"
    by fastforce
  have t1: "same_tx (state_keys n old new) (view w) (view w1)"
    using leave_cases [OF c1] by (auto simp: state_keys_def intro: same_tx_mono)
  have t2: "same_tx (state_keys n old new) (view w1) (view w2)"
    using enter_cases [OF c2] by (auto simp: state_keys_def intro: same_tx_mono)
  show ?thesis
  proof (cases e1)
    case None
    then have l: "db w1 = left_state n i old (db w)" using leave_cases [OF c1] by simp
    have r: "w' = w2 \<and> (e = None \<longleftrightarrow> e2 = None) \<and> e \<noteq> Some TxFailedErr"
      using assms c1 c2 None
      by (auto simp: RedisStore_UpdateState_def client split: if_splits option.splits prod.splits)
    show ?thesis
      using r l enter_cases [OF c2] same_tx_trans [OF t1 t2] by (auto simp: moved_def)
  next
    case (Some err)
    then have r: "w' = w1 \<and> e \<noteq> None \<and> e \<noteq> Some TxFailedErr"
      using assms c1
      by (auto simp: RedisStore_UpdateState_def client split: if_splits option.splits prod.splits)
    then show ?thesis using leave_cases [OF c1] t1 by auto
  qed
qed

end


subsection \<open>Processing an event\<close>

text \<open>
  What one call of \<^verbatim>\<open>TxProcessEvent\<close>, or one attempt, has done: nothing (a panic only for an
  event without a transition), or it has found the
  transition to take and made a part of the change; a success has made all of it, and after a
  failed \<^verbatim>\<open>EXEC\<close> the record of the machine is as before.
\<close>

definition processed ::
    "codecs \<Rightarrow> string \<Rightarrow> string \<Rightarrow> Event option \<Rightarrow> database \<Rightarrow> go_error option go \<Rightarrow> database \<Rightarrow> bool" where
  "processed cs i n evt d r d' \<longleftrightarrow>
     r \<noteq> Ret None \<and> d' = d \<and> (r = Panic \<longrightarrow> Option.bind evt evt_Transition = None) \<or>
     (\<exists>e fsm t d1. evt = Some e \<and> fires cs d i n e fsm t \<and> r \<noteq> Panic \<and>
        only_moves n i (fsm_State fsm) (t_To t) d d1 \<and>
        (r \<noteq> Ret None \<and> d' = d1 \<or>
         r \<noteq> Ret (Some TxFailedErr) \<and>
         (\<exists>b. marshal (fsm_codec cs) (advance fsm e t) = Inr b \<and>
              d' = set_string (NewKeyForMachine i n) b d1) \<and>
         (t_To t \<noteq> '''' \<longrightarrow> listed n i (t_To t) d1) \<and>
         (fsm_State fsm \<noteq> '''' \<and> fsm_State fsm \<noteq> t_To t \<longrightarrow> \<not> listed n i (fsm_State fsm) d1)))"

context redis_store
begin

lemma get_lookup:
  "RedisStore_get rt c csm key w = (Inr x, w') \<Longrightarrow> lookup c (db w) key = Some x"
  by (erule get_value) (rule lookup_stored)

text \<open>What the function run by \<^verbatim>\<open>TxPipelined\<close> queues and what it does at once.\<close>

lemma tx_commit_spec:
  assumes "tx_commit cs csm i n old m w = (r, w')" and "v_queue (view w) = []"
  shows "only_moves n i old (fsm_State m) (db w) (db w') \<and> r \<noteq> Panic \<and>
         (r = Ret None \<longrightarrow> db w' = moved n i old (fsm_State m) (db w) \<and>
            (\<exists>b. marshal (fsm_codec cs) m = Inr b \<and> v_queue (view w') = [(NewKeyForMachine i n, b)]))"
proof (cases "marshal (fsm_codec cs) m")
  case (Inl err)
  then show ?thesis using assms by (auto simp: tx_commit_def)
next
  case (Inr data)
  obtain e1 w1 where p: "pipe_Set rc (NewKeyForMachine i n) data 0 w = (e1, w1)" by fastforce
  obtain e2 w2 where u: "RedisStore_UpdateState csm n i old (fsm_State m) w1 = (e2, w2)" by fastforce
  have db1: "db w1 = db w" using pipe_law [OF p] by auto
  note upd = UpdateState_spec [OF u, unfolded db1]
  show ?thesis
  proof (cases e1)
    case None
    then have "r = Ret e2" "w' = w2" and q: "v_queue (view w1) = [(NewKeyForMachine i n, data)]"
      using assms Inr p u pipe_law [OF p] by (auto simp: tx_commit_def client NeverExpire_def)
    moreover from upd q have "v_queue (view w2) = [(NewKeyForMachine i n, data)]"
      by (simp add: same_tx_def)
    moreover from upd have "only_moves n i old (fsm_State m) (db w) (db w2)"
      using only_moves_left only_moves_moved by auto
    ultimately show ?thesis using upd Inr by auto
  next
    case (Some err)
    then show ?thesis using assms Inr p db1 by (auto simp: tx_commit_def client NeverExpire_def)
  qed
qed

lemma TxPipelined_spec:
  assumes call: "rdb_TxPipelined rc t0 (tx_commit cs csm i n (fsm_State fsm) (advance fsm e t)) w = (r, w')"
    and f: "fires cs (db w) i n e fsm t"
  shows "processed cs i n (Some e) (db w) r (db w')"
proof -
  let ?moves = "only_moves n i (fsm_State fsm) (t_To t) (db w)"
  obtain w1 w2 r1 where w1: "view w1 = (view w)\<lparr>v_queue := []\<rparr>"
    and c: "tx_commit cs csm i n (fsm_State fsm) (advance fsm e t) w1 = (r1, w2)"
    and law: "if r1 = Ret None
         then (db w' = run_queue (v_queue (view w2)) (db w2) \<and>
                 r \<in> {Ret None} \<union> (Ret \<circ> Some) ` (- {TxFailedErr})) \<or>
              db w' = db w2 \<and> r \<in> range (Ret \<circ> Some)
         else r = r1 \<and> db w' = db w2"
    using tx_law [OF call] by blast
  have "v_queue (view w1) = []" by (simp add: w1)
  from tx_commit_spec [OF c this] w1
  have moves: "?moves (db w2)" and np: "r1 \<noteq> Panic"
    and ok: "r1 = Ret None \<longrightarrow> db w2 = moved n i (fsm_State fsm) (t_To t) (db w) \<and>
            (\<exists>b. marshal (fsm_codec cs) (advance fsm e t) = Inr b \<and>
                 v_queue (view w2) = [(NewKeyForMachine i n, b)])"
    by simp_all
  consider (kept) "db w' = db w2" "r \<noteq> Ret None" "r \<noteq> Panic"
    | (committed) "db w' = run_queue (v_queue (view w2)) (db w2)" "r1 = Ret None"
        "r \<noteq> Panic" "r \<noteq> Ret (Some TxFailedErr)"
    using law np by (cases "r1 = Ret None") auto
  then show ?thesis
  proof cases
    case kept
    then show ?thesis using f moves unfolding processed_def by blast
  next
    case committed
    then obtain b where b: "marshal (fsm_codec cs) (advance fsm e t) = Inr b"
      "v_queue (view w2) = [(NewKeyForMachine i n, b)]" using ok by blast
    then have "db w' = set_string (NewKeyForMachine i n) b (db w2)"
      using committed(1) by (simp add: run_queue_def)
    moreover have "t_To t \<noteq> '''' \<longrightarrow> listed n i (t_To t) (db w2)"
      "fsm_State fsm \<noteq> '''' \<and> fsm_State fsm \<noteq> t_To t \<longrightarrow> \<not> listed n i (fsm_State fsm) (db w2)"
      using ok committed(2) listed_moved by auto
    ultimately show ?thesis
      using f moves b(1) committed(3,4) unfolding processed_def by blast
  qed
qed

lemma txf_spec:
  assumes "txf rt cs csm i n evt w = (r, w')"
  shows "processed cs i n evt (db w) r (db w')"
proof -
  obtain g w1 where g: "RedisStore_GetStateMachine rt cs csm i n w = (g, w1)" by fastforce
  have v1: "view w1 = view w" using g by (simp add: RedisStore_GetStateMachine_def get_view)
  have idle: ?thesis if "db w' = db w" "r \<noteq> Ret None"
      "r = Panic \<longrightarrow> Option.bind evt evt_Transition = None"
    using that by (simp add: processed_def)
  show ?thesis
  proof (cases g)
    case (Inl err)
    then show ?thesis using assms g v1 by (intro idle) (auto simp: txf_def)
  next
    case (Inr fsm)
    obtain g2 w2 where c: "RedisStore_GetConfig rt cs csm (fsm_ConfigId fsm) w1 = (g2, w2)"
      by fastforce
    have v2: "view w2 = view w" using c v1 by (simp add: RedisStore_GetConfig_def get_view)
    show ?thesis
    proof (cases g2)
      case (Inl err)
      then show ?thesis using assms g \<open>g = Inr fsm\<close> c v2 by (intro idle) (auto simp: txf_def)
    next
      case (Inr cfg)
      let ?x = "\<lparr>csm_Config = cfg, csm_FSM = fsm\<rparr>"
      have run: "txf rt cs csm i n evt w =
          (case SendEvent ?x evt of
             Panic \<Rightarrow> (Panic, w2)
           | Ret (Some err, x) \<Rightarrow> (Ret (Some err), w2)
           | Ret (None, x) \<Rightarrow>
               rdb_TxPipelined rc DefaultTimeout
                 (tx_commit cs csm i n (fsm_State fsm) (csm_FSM x)) w2)"
        using g \<open>g = Inr fsm\<close> c Inr unfolding client [symmetric] by (simp add: txf_def)
      show ?thesis
      proof (cases "\<exists>x. SendEvent ?x evt = Ret (None, x)")
        case False
        then show ?thesis
          using assms v2 unfolding run
          by (intro idle) (auto dest: SendEvent_panicD split: go.splits prod.splits option.splits)
      next
        case True
        then obtain x where x: "SendEvent ?x evt = Ret (None, x)" by blast
        then obtain e tr t where e: "evt = Some e" "evt_Transition e = Some tr"
          "enabled cfg (fsm_State fsm) (t_Event tr) = Some t" "csm_FSM x = advance fsm e t"
          by (cases rule: SendEvent_cases) auto
        have "fires cs (db w2) i n e fsm t"
          using g c Inr \<open>g = Inr fsm\<close> e v1 v2
          by (auto simp: fires_def RedisStore_GetStateMachine_def RedisStore_GetConfig_def
              dest!: get_lookup)
        from TxPipelined_spec [OF _ this]
        have "processed cs i n (Some e) (db w2) r (db w')"
          if "rdb_TxPipelined rc DefaultTimeout
            (tx_commit cs csm i n (fsm_State fsm) (advance fsm e t)) w2 = (r, w')"
          using that by blast
        moreover have "rdb_TxPipelined rc DefaultTimeout
            (tx_commit cs csm i n (fsm_State fsm) (advance fsm e t)) w2 = (r, w')"
          using assms x e(4) unfolding run by simp
        ultimately show ?thesis using v2 e(1) by simp
      qed
    qed
  qed
qed

text \<open>An attempt after one whose \<^verbatim>\<open>EXEC\<close> failed starts over from a machine that has not changed.\<close>

lemma fires_unique: "fires cs d i n e fsm t \<Longrightarrow> fires cs d i n e fsm' t' \<Longrightarrow> fsm' = fsm \<and> t' = t"
  by (auto simp: fires_def split: option.splits)

lemma fires_transition: "fires cs d i n e fsm t \<Longrightarrow> evt_Transition e \<noteq> None"
  by (auto simp: fires_def split: option.splits)

lemma processed_again:
  assumes "processed cs i n evt d (Ret (Some TxFailedErr)) d1" and "processed cs i n evt d1 r d2"
    and "plain n"
  shows "processed cs i n evt d r d2"
proof (cases "d1 = d")
  case True
  then show ?thesis using assms(2) by simp
next
  case False
  then obtain e fsm t where e: "evt = Some e" "fires cs d i n e fsm t"
    and m: "only_moves n i (fsm_State fsm) (t_To t) d d1"
    using assms(1) by (auto simp: processed_def)
  have f1: "fires cs d1 i n e fsm t" using fires_only_moves [OF m assms(3)] e(2) by simp
  show ?thesis
  proof (cases "r \<noteq> Ret None \<and> d2 = d1")
    case True
    then show ?thesis
      using e m assms(2) fires_transition [OF e(2)] unfolding processed_def
      by (cases "r = Panic") auto
  next
    case False
    then obtain fsm' t' d' where f2: "fires cs d1 i n e fsm' t'"
      and m2: "only_moves n i (fsm_State fsm') (t_To t') d1 d'"
      and rest: "r \<noteq> Panic" "r \<noteq> Ret None \<and> d2 = d' \<or>
         r \<noteq> Ret (Some TxFailedErr) \<and>
         (\<exists>b. marshal (fsm_codec cs) (advance fsm' e t') = Inr b \<and>
              d2 = set_string (NewKeyForMachine i n) b d') \<and>
         (t_To t' \<noteq> '''' \<longrightarrow> listed n i (t_To t') d') \<and>
         (fsm_State fsm' \<noteq> '''' \<and> fsm_State fsm' \<noteq> t_To t' \<longrightarrow> \<not> listed n i (fsm_State fsm') d')"
      using assms(2) e(1) unfolding processed_def by auto
    have "fsm' = fsm" "t' = t" using fires_unique [OF f1 f2] by auto
    with only_moves_trans [OF m] m2 rest e show ?thesis unfolding processed_def by blast
  qed
qed

lemma TxProcessEvent_loop_spec:
  assumes "TxProcessEvent_loop rt cs csm i n evt m w = (r, w')" and "plain n"
  shows "processed cs i n evt (db w) r (db w')"
  using assms(1)
proof (induction m arbitrary: w)
  case 0
  then show ?case by (auto simp: processed_def)
next
  case (Suc m)
  obtain r1 w1 where call: "rdb_Watch rc DefaultTimeout (NewKeyForMachine i n)
      (txf rt cs csm i n evt) w = (r1, w1)" by fastforce
  have one: "processed cs i n evt (db w) r1 (db w1)"
    using watch_law [OF call] by (auto simp: processed_def [where r = "Ret (Some _)"] dest!: txf_spec)
  show ?case
  proof (cases "r1 = Ret (Some TxFailedErr)")
    case True
    then have "TxProcessEvent_loop rt cs csm i n evt m w1 = (r, w')"
      using Suc.prems call by (simp add: client)
    from Suc.IH [OF this] one True assms(2) show ?thesis by (blast intro: processed_again)
  next
    case False
    then show ?thesis using Suc.prems call one by (simp add: client)
  qed
qed

lemma TxProcessEvent_spec:
  assumes "RedisStore_TxProcessEvent rt cs csm i n evt w = (r, w')" and "plain n"
  shows "processed cs i n evt (db w) r (db w')"
  using assms unfolding RedisStore_TxProcessEvent_def by (rule TxProcessEvent_loop_spec)

end

subsection \<open>What a call of TxProcessEvent has done\<close>

text \<open>Everything but the record of one machine and its membership in two state sets is kept.\<close>

definition touched_only ::
    "string \<Rightarrow> string \<Rightarrow> string \<Rightarrow> string \<Rightarrow> database \<Rightarrow> database \<Rightarrow> bool" where
  "touched_only n i old new d d' \<longleftrightarrow>
     (\<forall>k. k \<notin> {NewKeyForMachine i n, NewKeyForMachinesByState n old, NewKeyForMachinesByState n new}
        \<longrightarrow> d' k = d k) \<and>
     (\<forall>k. elements (d' k) |-| {|i|} = elements (d k) |-| {|i|})"

lemma only_moves_touched:
  assumes "only_moves n i old new d d1" and "lookup c d (NewKeyForMachine i n) = Some x"
  shows "touched_only n i old new d d1"
    and "touched_only n i old new d (set_string (NewKeyForMachine i n) b d1)"
proof -
  have "elements (d (NewKeyForMachine i n)) = {||}"
    using assms(2) by (auto simp: lookup_def split: option.splits rval.splits)
  then show "touched_only n i old new d d1"
    and "touched_only n i old new d (set_string (NewKeyForMachine i n) b d1)"
    using assms(1) by (auto simp: touched_only_def only_moves_def state_keys_def set_string_apply)
qed

lemma lookup_only_moves:
  assumes "only_moves n i old new d d1" and "plain n"
  shows "lookup c d1 (NewKeyForMachine i n) = lookup c d (NewKeyForMachine i n)"
  using assms machine_key_other [of n i]
  by (intro lookup_cong) (auto simp: only_moves_def state_keys_def)

lemma listed_set_string:
  "plain n \<Longrightarrow> listed n i st (set_string (NewKeyForMachine i n) b d) = listed n i st d"
  using machine_key_other [of n i st] by (auto simp: listed_def set_string_apply)

lemma processed_fsmD:
  assumes "processed cs i n evt d r d'" and "r \<noteq> Ret None" and "wire cs" and "plain n"
  shows "d' = d \<or>
     (\<exists>e fsm t. evt = Some e \<and> fires cs d i n e fsm t \<and>
        lookup (fsm_codec cs) d' (NewKeyForMachine i n) \<in> {Some fsm, Some (advance fsm e t)} \<and>
        touched_only n i (fsm_State fsm) (t_To t) d d')"
proof (cases "d' = d")
  case False
  let ?mk = "NewKeyForMachine i n"
  obtain e fsm t d1 where e: "evt = Some e" "fires cs d i n e fsm t"
    and m: "only_moves n i (fsm_State fsm) (t_To t) d d1"
    and d': "d' = d1 \<or> (\<exists>b. marshal (fsm_codec cs) (advance fsm e t) = Inr b \<and> d' = set_string ?mk b d1)"
    using assms(1) False unfolding processed_def by blast
  have l: "lookup (fsm_codec cs) d ?mk = Some fsm" using e(2) by (simp add: fires_def)
  have "touched_only n i (fsm_State fsm) (t_To t) d d'"
    using d' only_moves_touched [OF m l] by blast
  moreover have "lookup (fsm_codec cs) d' ?mk \<in> {Some fsm, Some (advance fsm e t)}"
    using d' l lookup_only_moves [OF m assms(4), of "fsm_codec cs"] wire.fsm_faithful [OF assms(3)]
    by (auto simp: lookup_def set_string_apply dest: faithfulD)
  ultimately show ?thesis using e by blast
qed simp

text \<open>
  C1. \<^verbatim>\<open>TxProcessEvent\<close> over a server whose every call may fail, time out, or be applied with its
  reply lost. If it reports success, the stored machine and its stored configuration had a
  transition that the event fires, the machine is now stored with that transition taken and the
  event appended to its history, it is listed under the new state and no longer under the old
  one, and nothing else has changed. If it reports an error, then either nothing has changed, or
  there was such a transition, the machine is stored as it was or advanced by it once (never
  twice, however many attempts were made), and nothing but the machine and its listing under
  the two states has changed. It panics only for an event without a transition, and then
  nothing has changed.
\<close>

theorem TxProcessEvent_effect:
  assumes "redis_store rc rt view cs csm" and "plain n"
    and "RedisStore_TxProcessEvent rt cs csm i n evt w = (r, w')"
    and "d = v_db (view w)" and "d' = v_db (view w')"
  shows "if r = Ret None
         then \<exists>e fsm t. evt = Some e \<and> fires cs d i n e fsm t \<and>
                lookup (fsm_codec cs) d' (NewKeyForMachine i n) = Some (advance fsm e t) \<and>
                (t_To t \<noteq> '''' \<longrightarrow> listed n i (t_To t) d') \<and>
                (fsm_State fsm \<noteq> '''' \<and> fsm_State fsm \<noteq> t_To t \<longrightarrow> \<not> listed n i (fsm_State fsm) d') \<and>
                touched_only n i (fsm_State fsm) (t_To t) d d'
         else (r = Panic \<longrightarrow> Option.bind evt evt_Transition = None \<and> d' = d) \<and>
              (d' = d \<or>
               (\<exists>e fsm t. evt = Some e \<and> fires cs d i n e fsm t \<and>
                  lookup (fsm_codec cs) d' (NewKeyForMachine i n) \<in> {Some fsm, Some (advance fsm e t)} \<and>
                  touched_only n i (fsm_State fsm) (t_To t) d d'))"
proof -
  let ?mk = "NewKeyForMachine i n"
  have wire: "wire cs" using assms(1) by (simp add: redis_store_def)
  have p: "processed cs i n evt d r d'"
    using redis_store.TxProcessEvent_spec [OF assms(1,3,2)] assms(4,5) by simp
  show ?thesis
  proof (cases "r = Ret None")
    case True
    then obtain e fsm t d1 b where e: "evt = Some e" "fires cs d i n e fsm t"
      and m: "only_moves n i (fsm_State fsm) (t_To t) d d1"
      and b: "marshal (fsm_codec cs) (advance fsm e t) = Inr b" "d' = set_string ?mk b d1"
      and l: "t_To t \<noteq> '''' \<longrightarrow> listed n i (t_To t) d1"
        "fsm_State fsm \<noteq> '''' \<and> fsm_State fsm \<noteq> t_To t \<longrightarrow> \<not> listed n i (fsm_State fsm) d1"
      using p unfolding processed_def by blast
    have "lookup (fsm_codec cs) d' ?mk = Some (advance fsm e t)"
      using b wire.fsm_faithful [OF wire]
      by (auto simp: lookup_def set_string_apply dest: faithfulD)
    moreover have "touched_only n i (fsm_State fsm) (t_To t) d d'"
      using only_moves_touched(2) [OF m] e(2) b(2) by (auto simp: fires_def)
    ultimately show ?thesis using True e l b(2) listed_set_string [OF assms(2)] by auto
  next
    case False
    then show ?thesis
      using p processed_fsmD [OF p False wire assms(2)] by (auto simp: processed_def)
  qed
qed

section \<open>A database and a server that plans its faults\<close>

definition start_view :: "database \<Rightarrow> redis_view" where
  "start_view d = \<lparr>v_db = d, v_queue = [], v_watch = None, v_dirty = False\<rparr>"

definition planned_world :: "database \<Rightarrow> fault list \<Rightarrow> planned_mem" where
  "planned_world d fs = \<lparr>mem_view = start_view d, mem_tick = 0, mem_faults = fs\<rparr>"

definition planned_store :: "planned_mem RedisStore" where
  "planned_store = \<lparr>rs_client = planned_client, rs_Timeout = 1, rs_MaxRetries = 3\<rparr>"

interpretation planned_store: redis_store planned_client mem_runtime mem_view plain_codecs planned_store
proof (intro redis_store.intro redis_store_axioms.intro)
  show "redis_server planned_client (mem_runtime :: planned_mem go_runtime) mem_view"
    by (rule planned_server)
  show "wire plain_codecs" by (rule plain.wire_axioms)
qed (simp add: planned_store_def)

text \<open>A configuration, and one machine in its starting state.\<close>

definition rover_db :: database where
  "rover_db = (\<lambda>_. None)
     (NewKeyForConfig ''rover:v2'' \<mapsto> RString (enc_cfg lander_cfg),
      NewKeyForMachine ''m1'' ''rover'' \<mapsto> RString (enc_fsm (csm_FSM (lander ''earth''))),
      NewKeyForMachinesByState ''rover'' ''earth'' \<mapsto> RSet {|''m1''|})"

theorem TxProcessEvent_effect_witness:
  "case RedisStore_TxProcessEvent mem_runtime plain_codecs planned_store ''m1'' ''rover''
          (Some (event_named ''launch'')) (planned_world rover_db []) of
     (r, w) \<Rightarrow> r = Ret None \<and>
       (\<exists>e fsm t. fires plain_codecs rover_db ''m1'' ''rover'' e fsm t \<and>
          lookup (fsm_codec plain_codecs) (v_db (mem_view w)) (NewKeyForMachine ''m1'' ''rover'') =
            Some (advance fsm e t))"
proof -
  let ?call = "RedisStore_TxProcessEvent mem_runtime plain_codecs planned_store ''m1'' ''rover''
    (Some (event_named ''launch'')) (planned_world rover_db [])"
  obtain r w where c: "?call = (r, w)" by fastforce
  have "fst ?call = Ret None" by code_simp
  then have r: "r = Ret None" using c by simp
  have "plain ''rover''" by (simp add: plain_def)
  from TxProcessEvent_effect [OF planned_store.redis_store_axioms this c refl refl] c r
  show ?thesis by (auto simp: planned_world_def start_view_def)
qed


end
