(* ===== verification/Shared_Store.thy ===== *)
theory Shared_Store
  imports Store_Laws
begin

text \<open>
  \<^verbatim>\<open>TxProcessEvent\<close> on a database that other clients use at the same time. Between any two commands the
  other clients may do anything to the database but change a stored configuration; what Redis
  promises is that a transaction is not executed when its watched key was written after \<^verbatim>\<open>WATCH\<close>. The
  theorem is that a successful call advances the machine that is in the database at the moment of
  \<^verbatim>\<open>EXEC\<close>, in one step, so that no update of another client is lost.
\<close>

section \<open>Interference\<close>

text \<open>
  \<open>rely d d'\<close>: what the other clients do may lead from \<open>d\<close> to \<open>d'\<close>. It covers the changes of the listing
  by state, which other servers make too, and no stored configuration changes.
\<close>

locale others_rely =
  fixes rely :: "database \<Rightarrow> database \<Rightarrow> bool"
  assumes rely_refl: "rely d d"
    and rely_trans: "rely d1 d2 \<Longrightarrow> rely d2 d3 \<Longrightarrow> rely d1 d3"
    and rely_add: "rely d (add_member (NewKeyForMachinesByState n x) i d)"
    and rely_remove: "rely d (remove_member (NewKeyForMachinesByState n x) i d)"
    and rely_config: "rely d d' \<Longrightarrow> d (NewKeyForConfig c) = Some (RString b) \<Longrightarrow> d' (NewKeyForConfig c) = Some (RString b)"

text \<open>
  What may have happened between two moments at which this client looks at the server: its own queue and
  watched key are as before; if the watched key has changed, that has been noticed.
\<close>

definition interferes :: "(database \<Rightarrow> database \<Rightarrow> bool) \<Rightarrow> redis_view \<Rightarrow> redis_view \<Rightarrow> bool" where
  "interferes rely v v' \<longleftrightarrow>
     rely (v_db v) (v_db v') \<and>
     v_queue v' = v_queue v \<and> v_watch v' = v_watch v \<and> (v_dirty v \<longrightarrow> v_dirty v') \<and>
     (\<forall>k. v_watch v = Some k \<and> v_db v' k \<noteq> v_db v k \<longrightarrow> v_dirty v')"

text \<open>What is read and not overwritten until \<^verbatim>\<open>EXEC\<close>.\<close>

lemma interferes_watched:
  "interferes rely v v' \<Longrightarrow> v_watch v = Some k \<Longrightarrow> \<not> v_dirty v' \<Longrightarrow> v_db v' k = v_db v k"
  by (auto simp: interferes_def)

context others_rely
begin

lemma interferes_refl [simp]: "interferes rely v v"
  by (simp add: interferes_def rely_refl)

lemma interferes_trans: "interferes rely u v \<Longrightarrow> interferes rely v w \<Longrightarrow> interferes rely u w"
  using rely_trans [of "v_db u" "v_db v" "v_db w"] unfolding interferes_def by metis

lemma interferes_rely: "interferes rely v v' \<Longrightarrow> rely (v_db v) (v_db v')"
  by (simp add: interferes_def)

lemma interferes_config:
  "interferes rely v v' \<Longrightarrow> lookup c (v_db v) (NewKeyForConfig i) = Some x \<Longrightarrow>
     lookup c (v_db v') (NewKeyForConfig i) = Some x"
  using rely_config [of "v_db v" "v_db v'"]
  by (auto simp: interferes_def lookup_def split: option.splits rval.splits)

text \<open>What this client does to a listing is no different to it from what another does.\<close>

lemma interferes_changed:
  assumes "rely (v_db v) d" and "\<And>j. j \<noteq> k \<Longrightarrow> d j = v_db v j"
  shows "interferes rely v (changed k d v)"
proof -
  have "d = v_db v" if "d k = v_db v k" using assms(2) that by (metis ext)
  then show ?thesis
    using assms rely_refl by (cases "d k = v_db v k") (auto simp: interferes_def changed_def wrote_def)
qed

lemma interferes_listing:
  "interferes rely v (changed (NewKeyForMachinesByState n x) (add_member (NewKeyForMachinesByState n x) i (v_db v)) v)"
  "interferes rely v (changed (NewKeyForMachinesByState n x) (remove_member (NewKeyForMachinesByState n x) i (v_db v)) v)"
  by (rule interferes_changed [OF rely_add], simp, rule interferes_changed [OF rely_remove], simp)

end

section \<open>A server that others use\<close>

text \<open>
  The commands that \<^verbatim>\<open>TxProcessEvent\<close> uses: each is executed at one moment, before which the others have
  interfered; calls may fail or time out as in \<open>redis_server\<close>.
\<close>

locale shared_redis = others_rely rely
  for rely :: "database \<Rightarrow> database \<Rightarrow> bool" +
  fixes rc :: "'w redis_client" and rt :: "'w go_runtime" and view :: "'w \<Rightarrow> redis_view"
  assumes rand_shared: "interferes rely (view w) (view (snd (rand_Intn rt n w)))"
    and sleep_shared: "interferes rely (view w) (view (time_Sleep rt d w))"
    and get_shared: "rdb_Get rc k t w = (g, x, w') \<Longrightarrow>
      interferes rely (view w) (view w') \<and> (\<forall>b. g = Inr b \<longrightarrow> v_db (view w') k = Some (RString b))"
    and sadd_shared: "rdb_SAdd rc k m w = (e, w') \<Longrightarrow>
      \<exists>v. interferes rely (view w) v \<and> (view w' = changed k (add_member k m (v_db v)) v \<or> e \<noteq> None \<and> view w' = v)"
    and srem_shared: "rdb_SRem rc k m w = (e, w') \<Longrightarrow>
      \<exists>v. interferes rely (view w) v \<and> (view w' = changed k (remove_member k m (v_db v)) v \<or> e \<noteq> None \<and> view w' = v)"
    and pipe_shared: "pipe_Set rc k b 0 w = (e, w') \<Longrightarrow>
      view w' = (view w)\<lparr>v_queue := v_queue (view w) @ [(k, b)]\<rparr> \<or> e \<noteq> None \<and> view w' = view w"
    and watch_shared: "rdb_Watch rc t k fn w = (r, w') \<Longrightarrow>
      (\<exists>e. r = Ret (Some e) \<and> interferes rely (view w) (view w')) \<or>
      (\<exists>v w1 w2. interferes rely (view w) v \<and> view w1 = started k v \<and> fn w1 = (r, w2) \<and> view w' = finished (view w2))"
    and tx_shared: "rdb_TxPipelined rc t fn w = (r, w') \<Longrightarrow>
      \<exists>w1 w2 r1 v. view w1 = (view w)\<lparr>v_queue := []\<rparr> \<and> fn w1 = (r1, w2) \<and> interferes rely (view w2) v \<and>
        (if r1 = Ret None
         then \<not> v_dirty v \<and> v_db (view w') = run_queue (v_queue v) (v_db v) \<and>
                r \<in> {Ret None} \<union> (Ret \<circ> Some) ` (- {TxFailedErr}) \<or>
              v_db (view w') = v_db v \<and> r \<in> range (Ret \<circ> Some)
         else r = r1 \<and> v_db (view w') = v_db v)"

locale shared_store = shared_redis rely rc rt view
  for rely :: "database \<Rightarrow> database \<Rightarrow> bool" and rc :: "'w redis_client" and rt :: "'w go_runtime" and view :: "'w \<Rightarrow> redis_view" +
  fixes cs :: codecs and csm :: "'w RedisStore"
  assumes client: "rs_client csm = rc"
begin

abbreviation db :: "'w \<Rightarrow> database" where
  "db w \<equiv> v_db (view w)"

lemma wait_shared: "interferes rely (view w) (view (wait rt w))"
  using interferes_trans [OF rand_shared [of w 500] sleep_shared] by (auto simp: wait_def split: prod.split)

lemma get_loop_shared:
  "get_loop rt c csm key left w = (r, w') \<Longrightarrow>
     interferes rely (view w) (view w') \<and> (\<forall>x. r = Inr x \<longrightarrow> lookup c (db w') key = Some x)"
proof (induction "unat (left - 1)" arbitrary: left w rule: less_induct)
  case less
  obtain g x w1 where call: "rdb_Get rc key (rs_Timeout csm) w = (g, x, w1)"
    using prod_cases3 by blast
  note law = get_shared [OF call]
  show ?case
  proof (cases "(\<exists>err. g = Inl err \<and> err \<noteq> RedisNil) \<and> x \<and> left - 1 \<noteq> 0")
    case True
    then have "get_loop rt c csm key (left - 1) (wait rt w1) = (r, w')"
      using less.prems call by (subst (asm) get_loop.simps) (auto simp: client)
    moreover have "unat (left - 1 - 1) < unat (left - 1)"
      using True measure_unat by blast
    ultimately have "interferes rely (view (wait rt w1)) (view w') \<and> (\<forall>x. r = Inr x \<longrightarrow> lookup c (db w') key = Some x)"
      using less.hyps by blast
    then show ?thesis using law wait_shared interferes_trans by blast
  next
    case False
    then show ?thesis
      using less.prems call law
      by (subst (asm) get_loop.simps) (auto simp: client lookup_def split: sum.splits if_splits)
  qed
qed

lemma get_shared_store:
  assumes "RedisStore_get rt c csm key w = (r, w')"
  shows "interferes rely (view w) (view w')" and "r = Inr x \<Longrightarrow> lookup c (db w') key = Some x"
  using assms get_loop_shared [of c key "rs_MaxRetries csm" w r w'] by (auto simp: RedisStore_get_def)

lemma UpdateState_shared:
  assumes "RedisStore_UpdateState csm n i old new w = (e, w')"
  shows "interferes rely (view w) (view w')"
proof -
  obtain e1 w1 where c1: "(if old \<noteq> '''' then rdb_SRem rc (NewKeyForMachinesByState n old) i w
      else (None, w)) = (e1, w1)" by fastforce
  obtain e2 w2 where c2: "(if new \<noteq> '''' then rdb_SAdd rc (NewKeyForMachinesByState n new) i w1
      else (None, w1)) = (e2, w2)" by fastforce
  have t1: "interferes rely (view w) (view w1)"
    using c1 srem_shared [of "NewKeyForMachinesByState n old" i w e1 w1] interferes_listing(2)
    by (auto split: if_splits intro: interferes_trans)
  have t2: "interferes rely (view w1) (view w2)"
    using c2 sadd_shared [of "NewKeyForMachinesByState n new" i w1 e2 w2] interferes_listing(1)
    by (auto split: if_splits intro: interferes_trans)
  have "w' = w1 \<or> w' = w2"
    using assms c1 c2
    by (auto simp: RedisStore_UpdateState_def client split: if_splits option.splits prod.splits)
  then show ?thesis using t1 interferes_trans [OF t1 t2] by auto
qed

text \<open>The queue that \<^verbatim>\<open>EXEC\<close> will run, when the function handed to \<^verbatim>\<open>TxPipelined\<close> succeeds.\<close>

lemma tx_commit_shared:
  assumes "tx_commit cs csm i n old m w = (Ret None, w')" and "v_queue (view w) = []"
  obtains b where "marshal (fsm_codec cs) m = Inr b" and "v_queue (view w') = [(NewKeyForMachine i n, b)]"
    and "interferes rely (view w) ((view w')\<lparr>v_queue := []\<rparr>)"
proof -
  obtain b where b: "marshal (fsm_codec cs) m = Inr b"
    using assms(1) by (auto simp: tx_commit_def split: sum.splits)
  obtain e1 w1 where p: "pipe_Set rc (NewKeyForMachine i n) b 0 w = (e1, w1)" by fastforce
  have w1: "e1 = None" "RedisStore_UpdateState csm n i old (fsm_State m) w1 = (None, w')"
    using assms(1) b p
    by (auto simp: tx_commit_def client NeverExpire_def split: option.splits prod.splits)
  have v1: "view w1 = (view w)\<lparr>v_queue := [(NewKeyForMachine i n, b)]\<rparr>"
    using pipe_shared [OF p] w1(1) assms(2) by auto
  note u = UpdateState_shared [OF w1(2)]
  show thesis
  proof (rule that [OF b])
    show "v_queue (view w') = [(NewKeyForMachine i n, b)]" using u v1 by (simp add: interferes_def)
    show "interferes rely (view w) ((view w')\<lparr>v_queue := []\<rparr>)" using u v1 assms(2) by (auto simp: interferes_def)
  qed
qed

lemma tx_commit_rely:
  assumes "tx_commit cs csm i n old m w = (r, w')"
  shows "rely (db w) (db w')"
proof (cases "marshal (fsm_codec cs) m")
  case (Inl err)
  then show ?thesis using assms rely_refl by (auto simp: tx_commit_def)
next
  case (Inr b)
  obtain e1 w1 where p: "pipe_Set rc (NewKeyForMachine i n) b 0 w = (e1, w1)" by fastforce
  obtain e2 w2 where u: "RedisStore_UpdateState csm n i old (fsm_State m) w1 = (e2, w2)" by fastforce
  have "db w1 = db w" using pipe_shared [OF p] by auto
  moreover have "rely (db w1) (db w2)" using UpdateState_shared [OF u] by (simp add: interferes_def)
  moreover have "w' = w1 \<or> w' = w2"
    using assms Inr p u by (auto simp: tx_commit_def client NeverExpire_def split: option.splits)
  ultimately show ?thesis using rely_refl by auto
qed

lemma TxPipelined_failed:
  assumes "rdb_TxPipelined rc t (tx_commit cs csm i n old m) w = (Ret (Some TxFailedErr), w')"
  shows "rely (db w) (db w')"
proof -
  from tx_shared [OF assms] obtain w1 w2 r1 v where w1: "view w1 = (view w)\<lparr>v_queue := []\<rparr>"
    and c: "tx_commit cs csm i n old m w1 = (r1, w2)" and v: "interferes rely (view w2) v" "db w' = v_db v"
    by (auto split: if_splits)
  have "rely (db w) (db w2)" using tx_commit_rely [OF c] w1 by simp
  moreover have "rely (db w2) (db w')" using v by (simp add: interferes_def)
  ultimately show ?thesis by (rule rely_trans)
qed

lemma TxPipelined_shared:
  assumes "rdb_TxPipelined rc t (tx_commit cs csm i n old m) w = (Ret None, w')"
    and "v_watch (view w) = Some (NewKeyForMachine i n)"
  obtains b d v where "marshal (fsm_codec cs) m = Inr b" and "d = v_db v" and "db w' = set_string (NewKeyForMachine i n) b d"
    and "interferes rely ((view w)\<lparr>v_queue := []\<rparr>) v" and "\<not> v_dirty v"
proof -
  from tx_shared [OF assms(1)] obtain w1 w2 r1 v where w1: "view w1 = (view w)\<lparr>v_queue := []\<rparr>"
    and c: "tx_commit cs csm i n old m w1 = (r1, w2)" and v: "interferes rely (view w2) v"
    and r1: "r1 = Ret None" and ex: "\<not> v_dirty v" "db w' = run_queue (v_queue v) (v_db v)"
    by (auto split: if_splits)
  obtain b where b: "marshal (fsm_codec cs) m = Inr b" "v_queue (view w2) = [(NewKeyForMachine i n, b)]"
    "interferes rely (view w1) ((view w2)\<lparr>v_queue := []\<rparr>)"
    using tx_commit_shared [of i n old m w1 w2] c r1 w1 by auto
  show thesis
  proof (rule that [OF b(1), of _ "v\<lparr>v_queue := []\<rparr>"])
    show "db w' = set_string (NewKeyForMachine i n) b (v_db v)"
      using ex(2) v b(2) by (simp add: interferes_def run_queue_def)
    have "interferes rely ((view w2)\<lparr>v_queue := []\<rparr>) (v\<lparr>v_queue := []\<rparr>)" using v by (simp add: interferes_def)
    with b(3) show "interferes rely ((view w)\<lparr>v_queue := []\<rparr>) (v\<lparr>v_queue := []\<rparr>)"
      unfolding w1 by (rule interferes_trans)
  qed (use ex in simp_all)
qed

end

text \<open>
  One step: what the others do leads to a database, which gets the advanced machine in place of the one
  that is in it then.
\<close>

definition advanced :: "(database \<Rightarrow> database \<Rightarrow> bool) \<Rightarrow> codecs \<Rightarrow> string \<Rightarrow> string \<Rightarrow> Event option \<Rightarrow> database \<Rightarrow> database \<Rightarrow> bool" where
  "advanced rely cs i n evt d0 d' \<longleftrightarrow>
     (\<exists>d e fsm t b. rely d0 d \<and> evt = Some e \<and> fires cs d i n e fsm t \<and>
        marshal (fsm_codec cs) (advance fsm e t) = Inr b \<and> d' = set_string (NewKeyForMachine i n) b d)"

context shared_store
begin

lemma txf_shared:
  assumes "txf rt cs csm i n evt w = (Ret None, w')"
    and "v_watch (view w) = Some (NewKeyForMachine i n)"
  shows "advanced rely cs i n evt (db w) (db w')"
proof -
  let ?mk = "NewKeyForMachine i n"
  obtain fsm w1 where g: "RedisStore_get rt (fsm_codec cs) csm ?mk w = (Inr fsm, w1)"
    using assms(1) by (auto simp: txf_def RedisStore_GetStateMachine_def split: prod.splits sum.splits)
  let ?ck = "NewKeyForConfig (fsm_ConfigId fsm)"
  obtain c w2 where h: "RedisStore_get rt (cfg_codec cs) csm ?ck w1 = (Inr c, w2)"
    using assms(1) g
    by (auto simp: txf_def RedisStore_GetStateMachine_def RedisStore_GetConfig_def split: prod.splits sum.splits)
  obtain x where x: "SendEvent \<lparr>csm_Config = c, csm_FSM = fsm\<rparr> evt = Ret (None, x)"
    and t: "rdb_TxPipelined rc DefaultTimeout (tx_commit cs csm i n (fsm_State fsm) (csm_FSM x)) w2 = (Ret None, w')"
    using assms(1) g h
    by (auto simp: txf_def RedisStore_GetStateMachine_def RedisStore_GetConfig_def client
        split: go.splits prod.splits option.splits)
  obtain e tr tt where e: "evt = Some e" "evt_Transition e = Some tr"
    "enabled c (fsm_State fsm) (t_Event tr) = Some tt" "csm_FSM x = advance fsm e tt"
    using x by (cases rule: SendEvent_cases) auto
  note i1 = get_shared_store(1) [OF g] and i2 = get_shared_store(1) [OF h]
  have watch: "v_watch (view w1) = Some ?mk" "v_watch (view w2) = Some ?mk"
    using i1 i2 assms(2) by (simp_all add: interferes_def)
  obtain b d v where b: "marshal (fsm_codec cs) (csm_FSM x) = Inr b" "d = v_db v" "db w' = set_string ?mk b d"
    "interferes rely ((view w2)\<lparr>v_queue := []\<rparr>) v" "\<not> v_dirty v"
    by (rule TxPipelined_shared [OF t watch(2)])
  have i3: "interferes rely ((view w1)\<lparr>v_queue := []\<rparr>) v"
    using i2 by (intro interferes_trans [OF _ b(4)]) (simp add: interferes_def)
  have "d ?mk = db w1 ?mk"
    using interferes_watched [OF i3, of ?mk] watch(1) b(2,5) by simp
  then have "lookup (fsm_codec cs) d ?mk = Some fsm"
    using get_shared_store(2) [OF g refl] lookup_cong by metis
  moreover have "lookup (cfg_codec cs) d ?ck = Some c"
    using interferes_config [OF b(4), of "cfg_codec cs"] get_shared_store(2) [OF h refl] b(2) by simp
  ultimately have "fires cs d i n e fsm tt" using e by (simp add: fires_def)
  moreover have "rely (db w) d"
    using rely_trans [OF interferes_rely [OF interferes_trans [OF i1 i2]]] interferes_rely [OF b(4)] b(2) by simp
  ultimately show ?thesis using e b unfolding advanced_def by metis
qed

lemma txf_failed:
  assumes "txf rt cs csm i n evt w = (Ret (Some TxFailedErr), w')"
  shows "rely (db w) (db w')"
proof -
  let ?mk = "NewKeyForMachine i n"
  obtain fsm w1 where g: "RedisStore_get rt (fsm_codec cs) csm ?mk w = (Inr fsm, w1)"
    using assms by (auto simp: txf_def RedisStore_GetStateMachine_def split: prod.splits sum.splits)
  obtain c w2 where h: "RedisStore_get rt (cfg_codec cs) csm (NewKeyForConfig (fsm_ConfigId fsm)) w1 = (Inr c, w2)"
    using assms g
    by (auto simp: txf_def RedisStore_GetStateMachine_def RedisStore_GetConfig_def split: prod.splits sum.splits)
  have "SendEvent \<lparr>csm_Config = c, csm_FSM = fsm\<rparr> evt \<noteq> Ret (Some TxFailedErr, x)" for x
    using SendEvent_cases [of "\<lparr>csm_Config = c, csm_FSM = fsm\<rparr>" evt "Some TxFailedErr" x] by auto
  then obtain x where
    x: "SendEvent \<lparr>csm_Config = c, csm_FSM = fsm\<rparr> evt = Ret (None, x)" and
    t: "rdb_TxPipelined rc DefaultTimeout (tx_commit cs csm i n (fsm_State fsm) (csm_FSM x)) w2 = (Ret (Some TxFailedErr), w')"
    using assms g h
    by (auto simp: txf_def RedisStore_GetStateMachine_def RedisStore_GetConfig_def client
        split: go.splits prod.splits option.splits)
  have "rely (db w) (db w2)"
    using interferes_trans [OF get_shared_store(1) [OF g] get_shared_store(1) [OF h]] by (simp add: interferes_def)
  then show ?thesis using TxPipelined_failed [OF t] by (rule rely_trans)
qed

lemma TxProcessEvent_loop_shared:
  assumes "TxProcessEvent_loop rt cs csm i n evt m w = (Ret None, w')"
  shows "advanced rely cs i n evt (db w) (db w')"
  using assms
proof (induction m arbitrary: w)
  case (Suc m)
  obtain r1 w1 where call: "rdb_Watch rc DefaultTimeout (NewKeyForMachine i n) (txf rt cs csm i n evt) w = (r1, w1)"
    by fastforce
  show ?case
  proof (cases "r1 = Ret (Some TxFailedErr)")
    case True
    have "rely (db w) (db w1)"
      using watch_shared [OF call] True
      by (auto simp: interferes_def dest!: txf_failed intro: rely_trans)
    moreover have "advanced rely cs i n evt (db w1) (db w')" using Suc call True by (simp add: client)
    ultimately show ?thesis unfolding advanced_def using rely_trans by blast
  next
    case False
    then have "r1 = Ret None" "w' = w1" using Suc.prems call by (auto simp: client)
    with watch_shared [OF call] obtain v u w2 where v: "interferes rely (view w) v"
      and u: "view u = started (NewKeyForMachine i n) v" "txf rt cs csm i n evt u = (Ret None, w2)"
        "view w' = finished (view w2)" by auto
    then have "advanced rely cs i n evt (v_db v) (db w')" using txf_shared [of i n evt u w2] by simp
    moreover have "rely (db w) (v_db v)" using v by (simp add: interferes_def)
    ultimately show ?thesis unfolding advanced_def using rely_trans by blast
  qed
qed simp

end

section \<open>A server with other clients\<close>

text \<open>
  The world has the writes that the others are going to make, a list of them before each command of
  this client; a write to the key of a configuration is left out.
\<close>

record shared_mem = mem +
  mem_others :: "(string \<times> bytes) list list"

definition write_other :: "string \<times> bytes \<Rightarrow> redis_view \<Rightarrow> redis_view" where
  "write_other m v =
     (if prefix (NewKeyForConfig '''') (fst m) then v else wrote (fst m) (set_string (fst m) (snd m) (v_db v)) v)"

definition others :: "shared_mem \<Rightarrow> shared_mem" where
  "others w =
     (case mem_others w of
        [] \<Rightarrow> w
      | ms # rest \<Rightarrow> w\<lparr>mem_view := fold write_other ms (mem_view w), mem_others := rest\<rparr>)"

definition exec :: "redis_view \<Rightarrow> redis_view" where
  "exec v = v\<lparr>v_db := run_queue (v_queue v) (v_db v)\<rparr>"

definition shared_client :: "shared_mem redis_client" where
  "shared_client =
     (server (\<lambda>w. (Answered, others w)) mem_view (\<lambda>v w. w\<lparr>mem_view := v\<rparr>))
       \<lparr>rdb_TxPipelined := (\<lambda>t fn w.
          case fn (w\<lparr>mem_view := (mem_view w)\<lparr>v_queue := []\<rparr>\<rparr>) of
            (r1, w2) \<Rightarrow>
              if r1 \<noteq> Ret None then (r1, w2)
              else if v_dirty (mem_view (others w2)) then (Ret (Some TxFailedErr), others w2)
              else (Ret None, (others w2)\<lparr>mem_view := exec (mem_view (others w2))\<rparr>))\<rparr>"

lemma config_key_prefix [simp]: "prefix (NewKeyForConfig '''') (NewKeyForConfig c)"
  by (simp add: key_eqs)

text \<open>All that is known of what the others do: no stored configuration changes.\<close>

definition configs_kept :: "database \<Rightarrow> database \<Rightarrow> bool" where
  "configs_kept d d' \<longleftrightarrow>
     (\<forall>c b. d (NewKeyForConfig c) = Some (RString b) \<longrightarrow> d' (NewKeyForConfig c) = Some (RString b))"

interpretation configs_kept: others_rely configs_kept
  using config_key_other by unfold_locales (auto simp: configs_kept_def)

lemma interferes_write_other: "interferes configs_kept v (write_other m v)"
proof (cases "prefix (NewKeyForConfig '''') (fst m)")
  case False
  then have "NewKeyForConfig c \<noteq> fst m" for c by (metis config_key_prefix)
  with False show ?thesis
    by (auto simp: write_other_def interferes_def configs_kept_def wrote_def set_string_apply)
qed (simp add: write_other_def)

lemma interferes_others: "interferes configs_kept (mem_view w) (mem_view (others w))"
proof -
  have "interferes configs_kept v (fold write_other ms v)" for ms v
    by (induction ms arbitrary: v) (auto intro: configs_kept.interferes_trans interferes_write_other)
  then show ?thesis by (auto simp: others_def split: list.splits)
qed

interpretation shared: shared_redis configs_kept shared_client "mem_runtime :: shared_mem go_runtime" mem_view
proof (unfold_locales, goal_cases)
  case (3 k t w g x w')
  then show ?case
    using interferes_others [of w]
    by (auto simp: shared_client_def server_def read_cmd_def split: option.splits rval.splits)
next
  case (4 k m w e w')
  then show ?case
    by (intro exI [of _ "mem_view (others w)"])
       (auto simp: shared_client_def server_def write_cmd_def drop_flag_def interferes_others split: if_splits)
next
  case (5 k m w e w')
  then show ?case
    by (intro exI [of _ "mem_view (others w)"])
       (auto simp: shared_client_def server_def write_cmd_def drop_flag_def interferes_others split: if_splits)
next
  case (7 t k fn w r w')
  let ?w1 = "(others w)\<lparr>mem_view := started k (mem_view (others w))\<rparr>"
  obtain w2 where "fn ?w1 = (r, w2)" "mem_view w' = finished (mem_view w2)"
    using 7 by (auto simp: shared_client_def server_def split: prod.splits)
  then show ?case
    using interferes_others [of w]
    by (intro disjI2 exI [of _ "mem_view (others w)"] exI [of _ ?w1] exI [of _ w2]) simp
next
  case (8 t fn w r w')
  let ?w1 = "w\<lparr>mem_view := (mem_view w)\<lparr>v_queue := []\<rparr>\<rparr>"
  obtain r1 w2 where fn: "fn ?w1 = (r1, w2)" by fastforce
  show ?case
  proof (cases "r1 = Ret None")
    case True
    then show ?thesis
      using 8 fn interferes_others [of w2]
      by (intro exI [of _ ?w1] exI [of _ w2] exI [of _ r1] exI [of _ "mem_view (others w2)"])
         (auto simp: shared_client_def exec_def split: if_splits)
  next
    case False
    then show ?thesis
      using 8 fn
      by (intro exI [of _ ?w1] exI [of _ w2] exI [of _ r1] exI [of _ "mem_view w2"])
         (auto simp: shared_client_def split: if_splits)
  qed
qed (auto simp: mem_runtime_def shared_client_def server_def)

definition shared_mem_store :: "shared_mem RedisStore" where
  "shared_mem_store = \<lparr>rs_client = shared_client, rs_Timeout = 1, rs_MaxRetries = 3\<rparr>"

interpretation shared_mem_store: shared_store configs_kept shared_client mem_runtime mem_view plain_codecs shared_mem_store
  by unfold_locales (simp add: shared_mem_store_def)

section \<open>No update is lost\<close>

text \<open>
  C3. \<^verbatim>\<open>TxProcessEvent\<close> on a database that other clients write to at any time between its commands: \<open>rely\<close> is
  any relation that covers what they do, the changes of the listing included, and by which stored
  configurations do not change. If the call reports success, then they had led from the database it
  began with to one that held, at the moment of \<^verbatim>\<open>EXEC\<close>, a machine and its configuration with a transition
  that the event fires, and the call replaced exactly that machine by the one that has taken the
  transition, with the event appended to its history: no change of another client to the machine is
  lost.
\<close>

theorem TxProcessEvent_loses_no_update:
  assumes "shared_store rely rc rt view csm"
    and "RedisStore_TxProcessEvent rt cs csm i n evt w = (Ret None, w')"
  shows "\<exists>d e fsm t b. rely (v_db (view w)) d \<and> evt = Some e \<and> fires cs d i n e fsm t \<and>
    marshal (fsm_codec cs) (advance fsm e t) = Inr b \<and>
    v_db (view w') = set_string (NewKeyForMachine i n) b d"
proof -
  from assms(2) have "TxProcessEvent_loop rt cs csm i n evt DefaultMaxRetries w = (Ret None, w')"
    by (simp add: RedisStore_TxProcessEvent_def)
  from shared_store.TxProcessEvent_loop_shared [OF assms(1) this] show ?thesis
    by (simp add: advanced_def)
qed

text \<open>
  Another client appends an event to the history of the machine. When it does so between the two reads
  of an attempt, the \<^verbatim>\<open>EXEC\<close> of that attempt fails; when it does so before \<^verbatim>\<open>WATCH\<close>, the call succeeds and
  both events are in the history.
\<close>

definition noted_fsm :: FiniteStateMachine where
  "noted_fsm = (csm_FSM (lander ''earth''))\<lparr>fsm_History := [event_named ''note'']\<rparr>"

definition contended :: "nat \<Rightarrow> shared_mem" where
  "contended before = \<lparr>mem_view = start_view rover_db, mem_tick = 0,
     mem_others = replicate before [] @ [[(NewKeyForMachine ''m1'' ''rover'', enc_fsm noted_fsm)]]\<rparr>"

lemma contended_attempt_fails:
  "fst (rdb_Watch shared_client DefaultTimeout (NewKeyForMachine ''m1'' ''rover'')
     (txf mem_runtime plain_codecs shared_mem_store ''m1'' ''rover'' (Some (event_named ''launch'')))
     (contended 2)) = Ret (Some TxFailedErr)"
  by code_simp

theorem TxProcessEvent_loses_no_update_witness:
  "case RedisStore_TxProcessEvent mem_runtime plain_codecs shared_mem_store ''m1'' ''rover''
          (Some (event_named ''launch'')) (contended 0) of
     (r, w) \<Rightarrow> r = Ret None \<and>
       lookup (fsm_codec plain_codecs) (v_db (mem_view w)) (NewKeyForMachine ''m1'' ''rover'') =
         Some (advance noted_fsm (event_named ''launch'') (hd (cfg_Transitions lander_cfg))) \<and>
       (\<exists>d e fsm t. configs_kept rover_db d \<and> fires plain_codecs d ''m1'' ''rover'' e fsm t \<and>
          v_db (mem_view w) = set_string (NewKeyForMachine ''m1'' ''rover'') (enc_fsm (advance fsm e t)) d)"
proof -
  let ?call = "RedisStore_TxProcessEvent mem_runtime plain_codecs shared_mem_store ''m1'' ''rover''
    (Some (event_named ''launch'')) (contended 0)"
  obtain r w where c: "?call = (r, w)" by fastforce
  have "case ?call of (r, w) \<Rightarrow> r = Ret None \<and>
    lookup (fsm_codec plain_codecs) (v_db (mem_view w)) (NewKeyForMachine ''m1'' ''rover'') =
      Some (advance noted_fsm (event_named ''launch'') (hd (cfg_Transitions lander_cfg)))"
    by code_simp
  then have r: "r = Ret None"
    and l: "lookup (fsm_codec plain_codecs) (v_db (mem_view w)) (NewKeyForMachine ''m1'' ''rover'') =
      Some (advance noted_fsm (event_named ''launch'') (hd (cfg_Transitions lander_cfg)))"
    using c by simp_all
  have v: "v_db (mem_view (contended 0)) = rover_db" by (simp add: contended_def start_view_def)
  have m: "marshal (fsm_codec plain_codecs) x = Inr b \<longleftrightarrow> b = enc_fsm x" for x b
    by (auto simp: plain_codecs_def codec_of_def)
  from TxProcessEvent_loses_no_update [OF shared_mem_store.shared_store_axioms c [unfolded r]]
  have "\<exists>d e fsm t. configs_kept rover_db d \<and> fires plain_codecs d ''m1'' ''rover'' e fsm t \<and>
      v_db (mem_view w) = set_string (NewKeyForMachine ''m1'' ''rover'') (enc_fsm (advance fsm e t)) d"
    unfolding v m by blast
  then show ?thesis using c r l by simp
qed

end
