(* ===== verification/Interleaving.thy ===== *)
theory Interleaving
  imports Store_Programs Shared_Store
begin

text \<open>
  One client among others: its programs as a step relation, one step for each command, the answer to which may
  fail or be lost. \<open>safe\<close> says of a program what it does whatever the others do between its commands, in the
  way of rely and guarantee; the program of \<^verbatim>\<open>TxProcessEvent\<close> is safe: it executes at most one
  transaction, which takes a transition of the machine as it is in the database at that moment, and exactly one
  when it succeeds. The last sections: every run of the method against a server is a run of the step relation, and
  programs end.
\<close>

section \<open>The commands of one client\<close>

text \<open>What a client returns to when a function it was handed ends.\<close>

datatype frame = InWatch "go_error option go \<Rightarrow> prog" | InTx "go_error option go \<Rightarrow> prog"

text \<open>A reply to \<^verbatim>\<open>GET\<close>: the value, that there is none, or any error.\<close>

definition get_reply :: "redis_view \<Rightarrow> string \<Rightarrow> (go_error + bytes) \<times> bool \<Rightarrow> bool" where
  "get_reply v k reply \<longleftrightarrow>
     (case fst reply of
        Inr b \<Rightarrow> v_db v k = Some (RString b)
      | Inl e \<Rightarrow> e = RedisNil \<longrightarrow> v_db v k = None)"

text \<open>
  One command, on what the client sees of the server; the flag tells that a transaction was executed. A
  command may fail with any error, applied or not, but \<^verbatim>\<open>TxFailedErr\<close> means that the transaction was not
  executed. When the network is not \<open>lossy\<close>, \<^verbatim>\<open>SET\<close> succeeds and an executed transaction is reported.
\<close>

inductive command :: "bool \<Rightarrow> prog \<times> frame list \<times> redis_view \<Rightarrow> bool \<Rightarrow> prog \<times> frame list \<times> redis_view \<Rightarrow> bool" for lossy where
  waits: "command lossy (WaitCmd p, fs, v) False (p, fs, v)"
| gets: "get_reply v k reply \<Longrightarrow> command lossy (GetCmd k t c, fs, v) False (c reply, fs, v)"
| sets: "lossy \<or> fst reply = None \<Longrightarrow>
    command lossy (SetCmd k b ttl t c, fs, v) False (c reply, fs, wrote k (set_string k b (v_db v)) v)"
| set_fails: "lossy \<Longrightarrow> command lossy (SetCmd k b ttl t c, fs, v) False (c (Some e, x), fs, v)"
| adds: "\<not> holds_string (v_db v k) \<Longrightarrow>
    command lossy (SAddCmd k m c, fs, v) False (c e, fs, changed k (add_member k m (v_db v)) v)"
| add_fails: "command lossy (SAddCmd k m c, fs, v) False (c (Some e), fs, v)"
| removes: "\<not> holds_string (v_db v k) \<Longrightarrow>
    command lossy (SRemCmd k m c, fs, v) False (c e, fs, changed k (remove_member k m (v_db v)) v)"
| remove_fails: "command lossy (SRemCmd k m c, fs, v) False (c (Some e), fs, v)"
| queues: "command lossy (PipeSetCmd k b ttl c, fs, v) False (c None, fs, v\<lparr>v_queue := v_queue v @ [(k, b)]\<rparr>)"
| queue_fails: "command lossy (PipeSetCmd k b ttl c, fs, v) False (c (Some e), fs, v)"
| watches: "command lossy (WatchCmd t k p c, fs, v) False (p, InWatch c # fs, started k v)"
| watch_fails: "command lossy (WatchCmd t k p c, fs, v) False (c (Ret (Some e)), fs, v)"
| unwatches: "command lossy (Return r, InWatch c # fs, v) False (c r, fs, finished v)"
| begins: "command lossy (TxCmd t p c, fs, v) False (p, InTx c # fs, v\<lparr>v_queue := []\<rparr>)"
| discards: "r \<noteq> Ret None \<Longrightarrow> command lossy (Return r, InTx c # fs, v) False (c r, fs, v)"
| executes: "\<not> v_dirty v \<Longrightarrow> r = Ret None \<or> lossy \<and> r \<in> (Ret \<circ> Some) ` (- {TxFailedErr}) \<Longrightarrow>
    command lossy (Return (Ret None), InTx c # fs, v) True (c r, fs, exec v)"
| exec_fails: "command lossy (Return (Ret None), InTx c # fs, v) False (c (Ret (Some e)), fs, v)"

section \<open>What a program does whatever the others do\<close>

type_synonym postcondition = "bool \<Rightarrow> go_error option go \<Rightarrow> redis_view \<Rightarrow> bool"

text \<open>
  \<open>safe lossy rely guar commit p Q g v\<close>: if the next command of \<open>p\<close> is executed at \<open>v\<close> and the others change the
  database by \<open>rely\<close> only, then \<open>p\<close> changes it by \<open>guar\<close> and, at most once, by \<open>commit\<close>, and ends with a result that
  has \<open>Q\<close>. The flag \<open>g\<close> tells whether the transaction has been executed already; what a program guarantees of its
  changes may depend on it.
\<close>

definition always :: "(database \<Rightarrow> database \<Rightarrow> bool) \<Rightarrow> (redis_view \<Rightarrow> bool) \<Rightarrow> redis_view \<Rightarrow> bool" where
  "always rely P v \<longleftrightarrow> (\<forall>v'. interferes rely v v' \<longrightarrow> P v')"

definition tx_safe ::
    "bool \<Rightarrow> (database \<Rightarrow> database \<Rightarrow> bool) \<Rightarrow> (go_error option go \<Rightarrow> bool \<Rightarrow> redis_view \<Rightarrow> bool) \<Rightarrow> postcondition" where
  "tx_safe lossy commit rest g r v \<longleftrightarrow>
     (if r = Ret None
      then (\<not> v_dirty v \<longrightarrow> \<not> g \<and> commit (v_db v) (v_db (exec v)) \<and>
              (\<forall>r'. r' = Ret None \<or> lossy \<and> r' \<in> (Ret \<circ> Some) ` (- {TxFailedErr}) \<longrightarrow> rest r' True (exec v))) \<and>
           (\<forall>e. rest (Ret (Some e)) g v)
      else rest r g v)"

primrec safe ::
    "bool \<Rightarrow> (database \<Rightarrow> database \<Rightarrow> bool) \<Rightarrow> (bool \<Rightarrow> database \<Rightarrow> database \<Rightarrow> bool) \<Rightarrow> (database \<Rightarrow> database \<Rightarrow> bool) \<Rightarrow> prog \<Rightarrow>
       postcondition \<Rightarrow> bool \<Rightarrow> redis_view \<Rightarrow> bool" where
  "safe lossy rely guar commit (Return r) = (\<lambda>Q g v. Q g r v)"
| "safe lossy rely guar commit (WaitCmd p) = (\<lambda>Q g v. always rely (safe lossy rely guar commit p Q g) v)"
| "safe lossy rely guar commit (GetCmd k t c) = (\<lambda>Q g v.
     \<forall>reply. get_reply v k reply \<longrightarrow> always rely (safe lossy rely guar commit (c reply) Q g) v)"
| "safe lossy rely guar commit (SetCmd k b ttl t c) = (\<lambda>Q g v.
     guar g (v_db v) (set_string k b (v_db v)) \<and>
     (\<forall>reply. lossy \<or> fst reply = None \<longrightarrow>
        always rely (safe lossy rely guar commit (c reply) Q g) (wrote k (set_string k b (v_db v)) v)) \<and>
     (lossy \<longrightarrow> (\<forall>e x. always rely (safe lossy rely guar commit (c (Some e, x)) Q g) v)))"
| "safe lossy rely guar commit (SAddCmd k m c) = (\<lambda>Q g v.
     guar g (v_db v) (add_member k m (v_db v)) \<and>
     (\<forall>e. always rely (safe lossy rely guar commit (c e) Q g) (changed k (add_member k m (v_db v)) v)) \<and>
     (\<forall>e. always rely (safe lossy rely guar commit (c (Some e)) Q g) v))"
| "safe lossy rely guar commit (SRemCmd k m c) = (\<lambda>Q g v.
     guar g (v_db v) (remove_member k m (v_db v)) \<and>
     (\<forall>e. always rely (safe lossy rely guar commit (c e) Q g) (changed k (remove_member k m (v_db v)) v)) \<and>
     (\<forall>e. always rely (safe lossy rely guar commit (c (Some e)) Q g) v))"
| "safe lossy rely guar commit (PipeSetCmd k b ttl c) = (\<lambda>Q g v.
     always rely (safe lossy rely guar commit (c None) Q g) (v\<lparr>v_queue := v_queue v @ [(k, b)]\<rparr>) \<and>
     (\<forall>e. always rely (safe lossy rely guar commit (c (Some e)) Q g) v))"
| "safe lossy rely guar commit (WatchCmd t k p c) = (\<lambda>Q g v.
     always rely (safe lossy rely guar commit p (\<lambda>g r v. always rely (safe lossy rely guar commit (c r) Q g) (finished v)) g) (started k v) \<and>
     (\<forall>e. always rely (safe lossy rely guar commit (c (Ret (Some e))) Q g) v))"
| "safe lossy rely guar commit (TxCmd t p c) = (\<lambda>Q g v.
     always rely (safe lossy rely guar commit p (tx_safe lossy commit (\<lambda>r g. always rely (safe lossy rely guar commit (c r) Q g))) g) (v\<lparr>v_queue := []\<rparr>))"

primrec post ::
    "bool \<Rightarrow> (database \<Rightarrow> database \<Rightarrow> bool) \<Rightarrow> (bool \<Rightarrow> database \<Rightarrow> database \<Rightarrow> bool) \<Rightarrow> (database \<Rightarrow> database \<Rightarrow> bool) \<Rightarrow> frame list \<Rightarrow>
       postcondition \<Rightarrow> postcondition" where
  "post lossy rely guar commit [] Q = Q"
| "post lossy rely guar commit (f # fs) Q =
     (case f of
        InWatch c \<Rightarrow> (\<lambda>g r v. always rely (safe lossy rely guar commit (c r) (post lossy rely guar commit fs Q) g) (finished v))
      | InTx c \<Rightarrow> tx_safe lossy commit (\<lambda>r g. always rely (safe lossy rely guar commit (c r) (post lossy rely guar commit fs Q) g)))"

lemma command_safe:
  assumes "command lossy (p, fs, v) x (p', fs', v')" and "safe lossy rely guar commit p (post lossy rely guar commit fs Q) g v"
  shows "always rely (safe lossy rely guar commit p' (post lossy rely guar commit fs' Q) (g \<or> x)) v' \<and>
    (if x then \<not> g \<and> commit (v_db v) (v_db v') else v_db v' = v_db v \<or> guar g (v_db v) (v_db v'))"
  using assms(2) by (cases rule: command.cases [OF assms(1)]) (auto simp: tx_safe_def finished_def started_def)

lemma always_mono: "always rely P v \<Longrightarrow> (\<And>v. P v \<Longrightarrow> P' v) \<Longrightarrow> always rely P' v"
  by (simp add: always_def)

lemma safe_mono: "safe lossy rely guar commit p Q g v \<Longrightarrow> Q \<le> Q' \<Longrightarrow> safe lossy rely guar commit p Q' g v"
proof (induction p arbitrary: Q Q' g v)
  case (WatchCmd t k p c)
  let ?later = "\<lambda>Q g r v. always rely (safe lossy rely guar commit (c r) Q g) (finished v)"
  have c: "always rely (safe lossy rely guar commit (c r) Q g) u \<Longrightarrow> always rely (safe lossy rely guar commit (c r) Q' g) u" for r g u
    by (erule always_mono, erule WatchCmd.IH(2) [OF rangeI], rule WatchCmd.prems(2))
  then have "?later Q \<le> ?later Q'" by (intro le_funI le_boolI)
  then have "always rely (safe lossy rely guar commit p (?later Q) g) u \<Longrightarrow> always rely (safe lossy rely guar commit p (?later Q') g) u" for u
    by (elim always_mono WatchCmd.IH(1))
  then show ?case using WatchCmd.prems(1) c by simp
next
  case (SetCmd k b ttl t c)
  have c: "always rely (safe lossy rely guar commit (c r) Q g) u \<Longrightarrow> always rely (safe lossy rely guar commit (c r) Q' g) u" for r u
    by (erule always_mono, erule SetCmd.IH [OF rangeI], rule SetCmd.prems(2))
  then show ?case using SetCmd.prems(1) unfolding safe.simps by blast
next
  case (TxCmd t p c)
  let ?later = "\<lambda>Q. tx_safe lossy commit (\<lambda>r g. always rely (safe lossy rely guar commit (c r) Q g))"
  have c: "always rely (safe lossy rely guar commit (c r) Q g) u \<Longrightarrow> always rely (safe lossy rely guar commit (c r) Q' g) u" for r g u
    by (erule always_mono, erule TxCmd.IH(2) [OF rangeI], rule TxCmd.prems(2))
  then have "?later Q \<le> ?later Q'" by (intro le_funI le_boolI) (auto simp: tx_safe_def split: if_splits)
  then have "always rely (safe lossy rely guar commit p (?later Q) g) u \<Longrightarrow> always rely (safe lossy rely guar commit p (?later Q') g) u" for u
    by (elim always_mono TxCmd.IH(1))
  then show ?case using TxCmd.prems(1) by simp
qed (simp_all add: always_def le_fun_def, blast+)

lemma safe_then:
  "safe lossy rely guar commit p (\<lambda>g r v. safe lossy rely guar commit (k r) Q g v) g v \<Longrightarrow> safe lossy rely guar commit (then_prog p k) Q g v"
proof (induction p arbitrary: g v)
  case (WatchCmd t key p c)
  let ?first = "\<lambda>r g. safe lossy rely guar commit (c r) (\<lambda>g r v. safe lossy rely guar commit (k r) Q g v) g"
  let ?both = "\<lambda>r g. safe lossy rely guar commit (then_prog (c r) k) Q g"
  have c: "always rely (?first r g) u \<Longrightarrow> always rely (?both r g) u" for r g u
    by (erule always_mono) (rule WatchCmd.IH(2) [OF rangeI])
  then have "(\<lambda>g r v. always rely (?first r g) (finished v)) \<le> (\<lambda>g r v. always rely (?both r g) (finished v))"
    by (intro le_funI le_boolI)
  then have "always rely (safe lossy rely guar commit p (\<lambda>g r v. always rely (?first r g) (finished v)) g) u \<Longrightarrow>
      always rely (safe lossy rely guar commit p (\<lambda>g r v. always rely (?both r g) (finished v)) g) u" for u
    by (elim always_mono safe_mono)
  then show ?case using WatchCmd.prems c by simp
next
  case (TxCmd t p c)
  let ?first = "\<lambda>r g. safe lossy rely guar commit (c r) (\<lambda>g r v. safe lossy rely guar commit (k r) Q g v) g"
  let ?both = "\<lambda>r g. safe lossy rely guar commit (then_prog (c r) k) Q g"
  have "always rely (?first r g) u \<Longrightarrow> always rely (?both r g) u" for r g u
    by (erule always_mono) (rule TxCmd.IH(2) [OF rangeI])
  then have "tx_safe lossy commit (\<lambda>r g. always rely (?first r g)) \<le> tx_safe lossy commit (\<lambda>r g. always rely (?both r g))"
    by (intro le_funI le_boolI) (auto simp: tx_safe_def split: if_splits)
  then have "always rely (safe lossy rely guar commit p (tx_safe lossy commit (\<lambda>r g. always rely (?first r g))) g) u \<Longrightarrow>
      always rely (safe lossy rely guar commit p (tx_safe lossy commit (\<lambda>r g. always rely (?both r g))) g) u" for u
    by (elim always_mono safe_mono)
  then show ?case using TxCmd.prems by simp
qed (auto simp: always_def)

context others_rely
begin

lemma always_now: "always rely P v \<Longrightarrow> P v"
  by (simp add: always_def)

lemma always_later: "always rely P v \<Longrightarrow> interferes rely v v' \<Longrightarrow> always rely P v'"
  using interferes_trans by (auto simp: always_def)

end

section \<open>The program of \<^verbatim>\<open>TxProcessEvent\<close> is safe\<close>

text \<open>
  What executing the transaction for a request is to do: to put the advanced machine in place of the one
  that is stored.
\<close>

definition commits :: "codecs \<Rightarrow> string \<Rightarrow> string \<Rightarrow> Event option \<Rightarrow> database \<Rightarrow> database \<Rightarrow> bool" where
  "commits cs i n evt d d' \<longleftrightarrow>
     (\<exists>e fsm t b. evt = Some e \<and> fires cs d i n e fsm t \<and> marshal (fsm_codec cs) (advance fsm e t) = Inr b \<and>
        d' = set_string (NewKeyForMachine i n) b d)"

locale transacting = others_rely rely
  for rely :: "database \<Rightarrow> database \<Rightarrow> bool" +
  fixes guar :: "bool \<Rightarrow> database \<Rightarrow> database \<Rightarrow> bool"
  assumes guar_add: "plain n \<Longrightarrow> guar g d (add_member (NewKeyForMachinesByState n x) i d)"
    and guar_remove: "plain n \<Longrightarrow> guar g d (remove_member (NewKeyForMachinesByState n x) i d)"
begin

lemma alwaysI: "(\<And>v'. interferes rely v v' \<Longrightarrow> P v') \<Longrightarrow> always rely P v"
  by (simp add: always_def)

lemma safe_get:
  assumes "\<And>v' r. interferes rely v v' \<Longrightarrow> (\<forall>x. r = Inr x \<longrightarrow> lookup c (v_db v') key = Some x) \<Longrightarrow>
    always rely (safe lossy rely guar commit (k r) Q g) v'"
  shows "safe lossy rely guar commit (get_prog c t key left k) Q g v"
proof -
  have "always rely (safe lossy rely guar commit (got c t key left k reply) Q g) v'"
    if "interferes rely v v'" "get_reply v' key reply" for v' reply
    using that
  proof (induction "unat (left - 1)" arbitrary: left v' reply rule: less_induct)
    case less
    obtain g' x where reply: "reply = (g', x)" by fastforce
    show ?case
    proof (cases "(\<exists>err. g' = Inl err \<and> err \<noteq> RedisNil) \<and> x \<and> left - 1 \<noteq> 0")
      case True
      then have "always rely (safe lossy rely guar commit (got c t key (left - 1) k r) Q g) u"
        if "interferes rely v' u" "get_reply u key r" for u r
        using less.hyps [OF measure_unat] that interferes_trans [OF less.prems(1)] by blast
      then have "safe lossy rely guar commit (GetCmd key t (got c t key (left - 1) k)) Q g u" if "interferes rely v' u" for u
        using that by simp
      moreover have "got c t key left k reply = WaitCmd (GetCmd key t (got c t key (left - 1) k))"
        using True unfolding reply by (auto simp: got.simps [of c t key left])
      ultimately show ?thesis by (auto simp del: safe.simps(3) intro!: alwaysI intro: interferes_trans)
    next
      case False
      then show ?thesis
        using assms [OF less.prems(1)] less.prems(2) unfolding reply
        by (cases g') (auto simp: got.simps get_reply_def lookup_def)
    qed
  qed
  then show ?thesis by (simp add: get_prog_def)
qed

lemma safe_put:
  assumes "\<And>d b. marshal c val = Inr b \<Longrightarrow> guar g d (set_string key b d)"
    and "\<And>e v. lossy \<or> (\<exists>err. marshal c val = Inl err) \<Longrightarrow> safe lossy rely guar commit (k (Some e)) Q g v"
    and "\<And>b u v. marshal c val = Inr b \<Longrightarrow> v_db u key = Some (RString b) \<Longrightarrow> interferes rely u v \<Longrightarrow>
      safe lossy rely guar commit (k None) Q g v"
  shows "safe lossy rely guar commit (put_prog c t key val ttl left k) Q g v"
proof (induction "unat (left - 1)" arbitrary: left v rule: less_induct)
  case (less left v)
  show ?case
  proof (cases "marshal c val")
    case (Inr data)
    have failed: "safe lossy rely guar commit (sent c t key val ttl left k (Some e, x)) Q g u" if "lossy" for e x u
    proof (cases "x \<and> left - 1 \<noteq> 0")
      case True
      then have "safe lossy rely guar commit (put_prog c t key val ttl (left - 1) k) Q g u'" for u'
        using less measure_unat by blast
      with True show ?thesis by (auto simp: sent_again always_def)
    qed (use assms(2) that in \<open>auto simp: sent_again\<close>)
    have "always rely (safe lossy rely guar commit (sent c t key val ttl left k (e, x)) Q g)
        (wrote key (set_string key data (v_db v)) v)" if "lossy \<or> e = None" for e x
      using failed that assms(3) [OF Inr, of "wrote key (set_string key data (v_db v)) v"]
      by (cases e) (auto simp: always_def sent_again set_string_apply)
    then show ?thesis using assms(1) [OF Inr] Inr failed by (auto simp: put_prog_def always_def)
  qed (use assms(2) in \<open>simp add: put_prog_def\<close>)
qed

lemma safe_UpdateState:
  assumes "plain n" and "\<And>v' e. interferes rely v v' \<Longrightarrow> safe lossy rely guar commit (k e) Q g v'"
  shows "safe lossy rely guar commit (UpdateState_prog n i old new k) Q g v"
proof -
  note guar = guar_add [OF assms(1)] guar_remove [OF assms(1)]
  have added: "safe lossy rely guar commit (state_added n i new k e) Q g v'" if "interferes rely v v'" for v' e
    using assms(2) [OF that] by (simp add: state_added_def split: option.split)
  have later: "always rely (safe lossy rely guar commit (state_added n i new k e) Q g) v'" if "interferes rely v v'" for v' e
    by (rule alwaysI, rule added, rule interferes_trans [OF that])
  have removed: "safe lossy rely guar commit (state_removed n i old new k e) Q g v'" if i: "interferes rely v v'" for v' e
    using assms(2) [OF i] added [OF i] later [OF i] later [OF interferes_trans [OF i interferes_listing(1)]] guar
    by (auto simp: state_removed_def split: option.split)
  have "always rely (safe lossy rely guar commit (state_removed n i old new k e) Q g) v'" if "interferes rely v v'" for v' e
    by (rule alwaysI, rule removed, rule interferes_trans [OF that])
  then show ?thesis
    using removed interferes_listing(2) guar by (auto simp: UpdateState_prog_def)
qed

lemma safe_tx_commit:
  assumes "plain n" and "v_queue v = []"
    and "\<And>e v'. Q g (Ret (Some e)) v'"
    and "\<And>b v'. marshal (fsm_codec cs) m = Inr b \<Longrightarrow> v_queue v' = [(NewKeyForMachine i n, b)] \<Longrightarrow>
      interferes rely v (v'\<lparr>v_queue := []\<rparr>) \<Longrightarrow> Q g (Ret None) v'"
  shows "safe lossy rely guar commit (tx_commit_prog cs i n old m) Q g v"
proof (cases "marshal (fsm_codec cs) m")
  case (Inr b)
  let ?v = "v\<lparr>v_queue := [(NewKeyForMachine i n, b)]\<rparr>"
  have "Q g (Ret e) v2" if "interferes rely ?v v2" for e v2
  proof (cases e)
    case None
    have "v_queue v2 = [(NewKeyForMachine i n, b)]" using that by (simp add: interferes_def)
    moreover have "interferes rely v (v2\<lparr>v_queue := []\<rparr>)" using that assms(2) by (simp add: interferes_def)
    ultimately show ?thesis using None assms(4) [OF Inr] by simp
  qed (simp add: assms(3))
  then have "always rely (safe lossy rely guar commit (UpdateState_prog n i old (fsm_State m) (Return \<circ> Ret)) Q g) ?v"
    by (intro alwaysI safe_UpdateState assms(1)) (auto intro: interferes_trans)
  then show ?thesis using Inr assms(2,3) by (simp add: tx_commit_prog_def machine_queued_def always_def)
qed (simp add: tx_commit_prog_def assms(3))

lemma kept_until_exec:
  assumes "lookup (fsm_codec cs) (v_db v1) (NewKeyForMachine i n) = Some fsm"
    and "interferes rely v1 v2" and "lookup (cfg_codec cs) (v_db v2) (NewKeyForConfig (fsm_ConfigId fsm)) = Some c"
    and "interferes rely (v2\<lparr>v_queue := []\<rparr>) v3"
    and "v_watch v1 = Some (NewKeyForMachine i n)" and "\<not> v_dirty v3"
    and "evt_Transition e = Some tr" and "enabled c (fsm_State fsm) (t_Event tr) = Some t"
  shows "fires cs (v_db v3) i n e fsm t"
proof -
  have "interferes rely (v1\<lparr>v_queue := []\<rparr>) v3"
    using assms(2) by (intro interferes_trans [OF _ assms(4)]) (simp add: interferes_def)
  from interferes_watched [OF this, of "NewKeyForMachine i n"]
  have "v_db v3 (NewKeyForMachine i n) = v_db v1 (NewKeyForMachine i n)" using assms(5,6) by simp
  then have "lookup (fsm_codec cs) (v_db v3) (NewKeyForMachine i n) = Some fsm"
    using assms(1) lookup_cong by metis
  moreover have "lookup (cfg_codec cs) (v_db v3) (NewKeyForConfig (fsm_ConfigId fsm)) = Some c"
    using interferes_config [OF assms(4), of "cfg_codec cs"] assms(3) by simp
  ultimately show ?thesis using assms(7,8) by (simp add: fires_def)
qed

lemma safe_tx:
  assumes "plain n" and "\<And>e v. Q False (Ret (Some e)) v" and "\<And>e v. e \<noteq> Some TxFailedErr \<Longrightarrow> lossy \<or> e = None \<Longrightarrow> Q True (Ret e) v"
    and "\<And>v'. interferes rely (v\<lparr>v_queue := []\<rparr>) v' \<Longrightarrow> \<not> v_dirty v' \<Longrightarrow> fires cs (v_db v') i n e fsm tt"
  shows "safe lossy rely guar (commits cs i n (Some e)) (TxCmd t (tx_commit_prog cs i n old (advance fsm e tt)) Return) Q False v"
proof (unfold safe.simps, rule alwaysI, rule safe_tx_commit [OF assms(1)], goal_cases)
  case (1 v1)
  then show ?case by (simp add: interferes_def)
next
  case (2 v1 e v2)
  then show ?case by (simp add: tx_safe_def always_def assms(2))
next
  case (3 v1 b v2)
  have "\<not> v_dirty v2 \<Longrightarrow> fires cs (v_db v2) i n e fsm tt"
    using assms(4) [OF interferes_trans [OF 3(1,4)]] by simp
  then have "\<not> v_dirty v2 \<Longrightarrow> commits cs i n (Some e) (v_db v2) (v_db (exec v2))"
    using 3 unfolding commits_def by (auto simp: exec_def run_queue_def)
  then show ?case by (auto simp: tx_safe_def always_def assms(2,3))
qed

lemma safe_txf:
  assumes "plain n" and "v_watch v = Some (NewKeyForMachine i n)"
    and "\<And>e v. Q False (Ret (Some e)) v" and "\<And>e v. e \<noteq> Some TxFailedErr \<Longrightarrow> lossy \<or> e = None \<Longrightarrow> Q True (Ret e) v"
    and "\<And>v. Option.bind evt evt_Transition = None \<Longrightarrow> Q False Panic v"
  shows "safe lossy rely guar (commits cs i n evt) (txf_prog cs t retries i n evt) Q False v"
  unfolding txf_prog_def
proof (rule safe_get, rule alwaysI, goal_cases)
  case (1 v1 r1 v1')
  show ?case
  proof (cases r1)
    case (Inr fsm)
    then have l1: "lookup (fsm_codec cs) (v_db v1) (NewKeyForMachine i n) = Some fsm" using 1(2) by simp
    have w1: "v_watch v1 = Some (NewKeyForMachine i n)" using 1(1) assms(2) by (simp add: interferes_def)
    show ?thesis unfolding Inr fsm_read_def sum.case
    proof (rule safe_get, rule alwaysI, goal_cases)
      case (1 v2 r2 v2')
      show ?case
      proof (cases r2)
        case (Inr c)
        then have l2: "lookup (cfg_codec cs) (v_db v2) (NewKeyForConfig (fsm_ConfigId fsm)) = Some c" using 1(2) by simp
        note i12 = interferes_trans [OF \<open>interferes rely v1 v1'\<close> 1(1)]
        have fires: "fires cs (v_db v3) i n e fsm tt"
          if "interferes rely (v2'\<lparr>v_queue := []\<rparr>) v3" "\<not> v_dirty v3"
            "evt_Transition e = Some tr" "enabled c (fsm_State fsm) (t_Event tr) = Some tt" for v3 e tr tt
          using 1(3) by (intro kept_until_exec [OF l1 i12 l2 interferes_trans [OF _ that(1)] w1 that(2-)])
            (simp add: interferes_def)
        show ?thesis
        proof (cases "SendEvent \<lparr>csm_Config = c, csm_FSM = fsm\<rparr> evt")
          case (Ret p)
          obtain err x where p: "p = (err, x)" by fastforce
          from Ret [unfolded p] show ?thesis
          proof (cases rule: SendEvent_cases)
            case (taken e tr tt)
            have "safe lossy rely guar (commits cs i n (Some e))
                (TxCmd DefaultTimeout (tx_commit_prog cs i n (fsm_State fsm) (advance fsm e tt)) Return) Q False v2'"
              by (rule safe_tx [OF assms(1)]) (use fires taken assms(3,4) in auto)
            then show ?thesis using Ret p taken Inr by (simp add: cfg_read_def)
          qed (use Ret p Inr assms(3) in \<open>simp add: cfg_read_def\<close>)
        qed (use Inr assms(5) in \<open>simp add: cfg_read_def SendEvent_panicD\<close>)
      qed (use assms(3) in \<open>simp add: cfg_read_def\<close>)
    qed
  qed (use assms(3) in \<open>simp add: fsm_read_def\<close>)
qed

lemma safe_TxProcessEvent:
  assumes "plain n"
  shows "safe lossy rely guar (commits cs i n evt) (TxProcessEvent_prog cs t retries i n evt)
    (\<lambda>g r v. (r = Ret None \<longrightarrow> g) \<and> (g \<and> \<not> lossy \<longrightarrow> r = Ret None) \<and> (r = Panic \<longrightarrow> Option.bind evt evt_Transition = None))
    False v"
proof -
  let ?Q = "\<lambda>g r (v :: redis_view). (r = Ret None \<longrightarrow> g) \<and> (g \<and> \<not> lossy \<longrightarrow> r = Ret None) \<and> (r = Panic \<longrightarrow> Option.bind evt evt_Transition = None)"
  have "safe lossy rely guar (commits cs i n evt) (TxProcessEvent_loop_prog cs t retries i n evt m) ?Q False v" for m
  proof (induction m arbitrary: v)
    case (Suc m)
    have "safe lossy rely guar (commits cs i n evt) (txf_prog cs t retries i n evt)
        (\<lambda>g r v. always rely (safe lossy rely guar (commits cs i n evt)
           (again_if_failed (TxProcessEvent_loop_prog cs t retries i n evt m) r) ?Q g) (finished v))
        False v'" if "v_watch v' = Some (NewKeyForMachine i n)" for v'
      by (rule safe_txf [OF assms that]) (auto simp: always_def again_if_failed_def Suc)
    then show ?case by (auto simp: always_def interferes_def again_if_failed_def Suc)
  qed simp
  then show ?thesis by (simp add: TxProcessEvent_prog_def)
qed

end

section \<open>Programs end\<close>

definition next_prog :: "prog \<times> frame list \<Rightarrow> prog \<times> frame list \<Rightarrow> bool" where
  "next_prog b a \<longleftrightarrow> (\<exists>v x v'. command True (fst a, snd a, v) x (fst b, snd b, v'))"

inductive_simps command_simps:
  "command lossy (Return r, [], v) x b" "command lossy (Return r, InWatch c # fs, v) x b" "command lossy (Return r, InTx c # fs, v) x b"
  "command lossy (WaitCmd p, fs, v) x b" "command lossy (GetCmd k t c, fs, v) x b" "command lossy (SAddCmd k m c, fs, v) x b"
  "command lossy (SetCmd k y ttl t c, fs, v) x b" "command lossy (SRemCmd k m c, fs, v) x b" "command lossy (PipeSetCmd k y ttl c, fs, v) x b"
  "command lossy (WatchCmd t k p c, fs, v) x b" "command lossy (TxCmd t p c, fs, v) x b"

lemma ends_if_next:
  "(\<And>p fs. next_prog (p, fs) a \<Longrightarrow> Wellfounded.accp next_prog (p, fs)) \<Longrightarrow> Wellfounded.accp next_prog a"
  by (rule accp.accI) auto

lemma ends_in_frame:
  assumes "\<And>r. Wellfounded.accp next_prog (c r, fs)"
  shows "Wellfounded.accp next_prog (Return r, InWatch c # fs)" and "Wellfounded.accp next_prog (Return r, InTx c # fs)"
  by (rule ends_if_next, use assms in \<open>auto simp: next_prog_def command_simps\<close>)+

lemma ends_after_command:
  "Wellfounded.accp next_prog (p, fs) \<Longrightarrow> Wellfounded.accp next_prog (WaitCmd p, fs)"
  "(\<And>r. Wellfounded.accp next_prog (g r, fs)) \<Longrightarrow> Wellfounded.accp next_prog (GetCmd k t g, fs)"
  "(\<And>r. Wellfounded.accp next_prog (h r, fs)) \<Longrightarrow> Wellfounded.accp next_prog (SetCmd k b ttl t h, fs)"
  "(\<And>r. Wellfounded.accp next_prog (c r, fs)) \<Longrightarrow> Wellfounded.accp next_prog (SAddCmd k m c, fs)"
  "(\<And>r. Wellfounded.accp next_prog (c r, fs)) \<Longrightarrow> Wellfounded.accp next_prog (SRemCmd k m c, fs)"
  "(\<And>r. Wellfounded.accp next_prog (c r, fs)) \<Longrightarrow> Wellfounded.accp next_prog (PipeSetCmd k b ttl c, fs)"
  "Wellfounded.accp next_prog (p, InWatch w # fs) \<Longrightarrow> (\<And>r. Wellfounded.accp next_prog (w r, fs)) \<Longrightarrow>
     Wellfounded.accp next_prog (WatchCmd t k p w, fs)"
  "Wellfounded.accp next_prog (p, InTx w # fs) \<Longrightarrow> Wellfounded.accp next_prog (TxCmd t p w, fs)"
  by (rule ends_if_next, auto simp: next_prog_def command_simps)+

lemma prog_ends:
  assumes "\<And>r. Wellfounded.accp next_prog (Return r, fs)"
  shows "Wellfounded.accp next_prog (p, fs)"
  using assms
proof (induction p arbitrary: fs)
  case (WatchCmd t k p c)
  then have c: "Wellfounded.accp next_prog (c r, fs)" for r by blast
  show ?case
    by (rule ends_after_command(7) [OF _ c], rule WatchCmd.IH(1), rule ends_in_frame(1), rule c)
next
  case (TxCmd t p c)
  then have c: "Wellfounded.accp next_prog (c r, fs)" for r by blast
  show ?case
    by (rule ends_after_command(8), rule TxCmd.IH(1), rule ends_in_frame(2), rule c)
qed (blast intro: ends_after_command)+

lemma programs_end: "Wellfounded.accp next_prog (p, fs)"
proof -
  have "Wellfounded.accp next_prog (Return r, fs)" for r
  proof (induction fs arbitrary: r)
    case (Cons f fs)
    have "Wellfounded.accp next_prog (p, fs)" for p by (rule prog_ends, rule Cons)
    then show ?case by (cases f) (simp_all add: ends_in_frame)
  qed (rule ends_if_next, auto simp: next_prog_def command_simps)
  then show ?thesis by (rule prog_ends)
qed

section \<open>The method as a sequence of commands\<close>

definition commands :: "prog \<times> frame list \<times> redis_view \<Rightarrow> prog \<times> frame list \<times> redis_view \<Rightarrow> bool" where
  "commands a b \<longleftrightarrow> (\<exists>x. command True a x b)"

lemma commands_intros: "command True a x b \<Longrightarrow> commands a b"
  by (auto simp: commands_def)

lemma command_then: "command True a x b \<Longrightarrow> commands\<^sup>*\<^sup>* b c \<Longrightarrow> commands\<^sup>*\<^sup>* a c"
  by (meson commands_intros converse_rtranclp_into_rtranclp)

context server_world
begin

lemma wait_view: "view (wait rt w) = view w"
  using runtime_view(3) [of 500 w] by (auto simp: wait_def runtime_view(4) split: prod.split)

lemma TxPipelined_command:
  assumes "rdb_TxPipelined (server next_fault view put_view) t fn w = (r, w')"
    and "fn (put_view ((view w)\<lparr>v_queue := []\<rparr>) w) = (r1, w2)"
  shows "\<exists>x. command True (Return r1, InTx c # fs, view w2) x (c r, fs, view w')"
proof (cases "r1 = Ret None \<and> \<not> v_dirty (view w2)")
  case True
  obtain e y w3 where call: "write_cmd next_fault view put_view (\<lambda>v. True) exec w2 = (e, y, w3)"
    using prod_cases3 by blast
  have "r = Ret e" "w' = w3"
    using assms call True by (auto simp: server_def exec_def [abs_def])
  moreover consider (executed) "view w3 = exec (view w2)" "e \<in> {None, Some timeout_error}" | (failed) y where "e = Some y" "view w3 = view w2"
    using write_cmdD [OF call] by auto
  then have "\<exists>x. command True (Return (Ret None), InTx c # fs, view w2) x (c (Ret e), fs, view w3)"
  proof cases
    case executed
    then have "command True (Return (Ret None), InTx c # fs, view w2) True (c (Ret e), fs, exec (view w2))"
      using True by (intro executes) (auto simp: timeout_error_def)
    with executed show ?thesis by auto
  next
    case failed
    then show ?thesis using exec_fails [of True c fs "view w2" y] by auto
  qed
  ultimately show ?thesis using True by simp
next
  case False
  then show ?thesis
    using assms by (auto simp: server_def split: if_splits intro!: exI exec_fails discards)
qed

lemma run_commands:
  "run rt (server next_fault view put_view) p w = (r, w') \<Longrightarrow> commands\<^sup>*\<^sup>* (p, fs, view w) (Return r, fs, view w')"
proof (induction p arbitrary: w r w' fs)
  case (WaitCmd p)
  from WaitCmd.IH [OF WaitCmd.prems [unfolded run.simps], unfolded wait_view] show ?case
    by (rule command_then [OF waits])
next
  case (GetCmd k t c)
  obtain g x w1 where call: "rdb_Get (server next_fault view put_view) k t w = (g, x, w1)" using prod_cases3 by blast
  from get_law [OF call] have v: "view w1 = view w" and reply: "get_reply (view w) k (g, x)"
    by (auto simp: get_reply_def split: sum.split)
  have "commands\<^sup>*\<^sup>* (c (g, x), fs, view w1) (Return r, fs, view w')"
    using GetCmd.prems call by (intro GetCmd.IH [OF rangeI]) simp
  then show ?case unfolding v by (rule command_then [OF gets [OF reply]])
next
  case (SetCmd k b ttl t c)
  let ?rc = "server next_fault view put_view"
  obtain e x w1 where call: "rdb_Set ?rc k b ttl t w = (e, x, w1)" using prod_cases3 by blast
  then have "view w1 = wrote k (set_string k b (v_db (view w))) (view w) \<or> e \<noteq> None \<and> view w1 = view w"
    by (auto simp: server_def dest!: write_cmdD)
  moreover have "commands\<^sup>*\<^sup>* (c (e, x), fs, view w1) (Return r, fs, view w')"
    using SetCmd.prems call by (intro SetCmd.IH [OF rangeI]) simp
  ultimately show ?case by (auto intro: command_then [OF sets] command_then [OF set_fails])
next
  case (SAddCmd k m c)
  obtain e w1 where call: "rdb_SAdd (server next_fault view put_view) k m w = (e, w1)" by fastforce
  have "commands\<^sup>*\<^sup>* (c e, fs, view w1) (Return r, fs, view w')" using SAddCmd call by auto
  with sadd_law [OF call] show ?case by (auto intro: command_then adds add_fails)
next
  case (SRemCmd k m c)
  obtain e w1 where call: "rdb_SRem (server next_fault view put_view) k m w = (e, w1)" by fastforce
  have "commands\<^sup>*\<^sup>* (c e, fs, view w1) (Return r, fs, view w')" using SRemCmd call by auto
  with srem_law [OF call] show ?case by (auto intro: command_then removes remove_fails)
next
  case (PipeSetCmd k b ttl c)
  let ?rc = "server next_fault view put_view"
  obtain e w1 where call: "pipe_Set ?rc k b ttl w = (e, w1)" by fastforce
  then have "e = None" "view w1 = (view w)\<lparr>v_queue := v_queue (view w) @ [(k, b)]\<rparr>" by (auto simp: server_def)
  moreover have "commands\<^sup>*\<^sup>* (c e, fs, view w1) (Return r, fs, view w')"
    using PipeSetCmd.prems call by (intro PipeSetCmd.IH [OF rangeI]) simp
  ultimately show ?case by (auto intro: command_then [OF queues])
next
  case (WatchCmd t k p c)
  let ?rc = "server next_fault view put_view"
  obtain r1 w1 where call: "rdb_Watch ?rc t k (run rt ?rc p) w = (r1, w1)" by fastforce
  have rest: "commands\<^sup>*\<^sup>* (c r1, fs, view w1) (Return r, fs, view w')"
    using WatchCmd.prems call by (intro WatchCmd.IH(2) [OF rangeI]) simp
  from watch_law [OF call] show ?case
  proof (elim disjE exE conjE, goal_cases)
    case (1 e)
    then show ?case using rest by (auto intro: command_then [OF watch_fails])
  next
    case (2 u1 u2)
    have "commands\<^sup>*\<^sup>* (p, InWatch c # fs, view u1) (Return r1, InWatch c # fs, view u2)"
      using 2(2) by (rule WatchCmd.IH(1))
    moreover have "commands\<^sup>*\<^sup>* (Return r1, InWatch c # fs, view u2) (Return r, fs, view w')"
      by (rule command_then [OF unwatches]) (use rest 2(3) in simp)
    ultimately show ?case using 2(1) by (intro command_then [OF watches]) simp
  qed
next
  case (TxCmd t p c)
  let ?rc = "server next_fault view put_view"
  obtain r1 w2 where fn: "run rt ?rc p (put_view ((view w)\<lparr>v_queue := []\<rparr>) w) = (r1, w2)" by fastforce
  obtain r2 w3 where call: "rdb_TxPipelined ?rc t (run rt ?rc p) w = (r2, w3)" by fastforce
  have "commands\<^sup>*\<^sup>* (c r2, fs, view w3) (Return r, fs, view w')"
    using TxCmd.prems call by (intro TxCmd.IH(2) [OF rangeI]) simp
  moreover obtain x where "command True (Return r1, InTx c # fs, view w2) x (c r2, fs, view w3)"
    using TxPipelined_command [OF call fn] by blast
  ultimately have "commands\<^sup>*\<^sup>* (Return r1, InTx c # fs, view w2) (Return r, fs, view w')" by (rule command_then [rotated])
  moreover have "commands\<^sup>*\<^sup>* (p, InTx c # fs, (view w)\<lparr>v_queue := []\<rparr>) (Return r1, InTx c # fs, view w2)"
    using TxCmd.IH(1) [OF fn] by simp
  ultimately show ?case by (intro command_then [OF begins]) simp
qed simp

end

text \<open>
  Every call of \<^verbatim>\<open>TxProcessEvent\<close> against a server, whose answers may be lost, is a sequence of commands
  of the step relation: it leads from the program of the method to the result that the method returns, and
  from what the server holds before to what it holds after. So what is shown for all sequences of commands
  is shown for the method.
\<close>

theorem TxProcessEvent_is_commands:
  assumes "server_world next_fault view put_view rt" and "rs_client csm = server next_fault view put_view"
    and "RedisStore_TxProcessEvent rt cs csm i n evt w = (r, w')"
  shows "commands\<^sup>*\<^sup>* (TxProcessEvent_prog cs (rs_Timeout csm) (rs_MaxRetries csm) i n evt, [], view w) (Return r, [], view w')"
proof -
  have "run rt (rs_client csm) (TxProcessEvent_prog cs (rs_Timeout csm) (rs_MaxRetries csm) i n evt) w = (r, w')"
    using assms(3) by (simp add: run_TxProcessEvent_prog)
  from server_world.run_commands [OF assms(1) this [unfolded assms(2)]] show ?thesis .
qed

theorem TxProcessEvent_is_commands_witness:
  "\<exists>w' :: planned_mem. commands\<^sup>*\<^sup>*
     (TxProcessEvent_prog plain_codecs 1 3 ''m1'' ''rover'' (Some (event_named ''launch'')), [], start_view rover_db)
     (Return (Ret None), [], mem_view w') \<and>
   map_option fsm_State (lookup (fsm_codec plain_codecs) (v_db (mem_view w')) (NewKeyForMachine ''m1'' ''rover'')) = Some ''orbit''"
proof -
  let ?call = "RedisStore_TxProcessEvent mem_runtime plain_codecs planned_store ''m1'' ''rover''
    (Some (event_named ''launch'')) (planned_world rover_db [])"
  have "case ?call of (r, w) \<Rightarrow> r = Ret None \<and>
    map_option fsm_State (lookup (fsm_codec plain_codecs) (v_db (mem_view w)) (NewKeyForMachine ''m1'' ''rover'')) = Some ''orbit''"
    by code_simp
  then obtain w' where c: "?call = (Ret None, w')" and
    s: "map_option fsm_State (lookup (fsm_codec plain_codecs) (v_db (mem_view w')) (NewKeyForMachine ''m1'' ''rover'')) = Some ''orbit''"
    by (auto split: prod.splits)
  have "rs_client planned_store = server next_planned mem_view (\<lambda>v w. w\<lparr>mem_view := v\<rparr>)"
    by (simp add: planned_store_def planned_client_def)
  from TxProcessEvent_is_commands [OF planned.server_world_axioms this c] s show ?thesis
    by (intro exI [of _ w']) (simp add: planned_store_def planned_world_def)
qed

end
