(* ===== verification/Concurrent_Servers.thy ===== *)
theory Concurrent_Servers
  imports Interleaving
begin

text \<open>
  Any number of servers that process events in one database, command by command: a step is one command of
  one of them, or a write of something else. The theorems: no call executes more than one transaction
  and one that succeeds has executed one; the history of a machine is what it was at first and then the events
  of the executed transactions, in their order; and every call that is not held up for ever returns.
\<close>

section \<open>The servers\<close>

record session =
  c_prog :: prog
  c_frames :: "frame list"
  c_queue :: "(string \<times> bytes) list"
  c_watch :: "string option"
  c_dirty :: bool

record servers =
  s_db :: database
  s_sessions :: "session list"
  s_log :: "nat list"

definition view_of :: "database \<Rightarrow> session \<Rightarrow> redis_view" where
  "view_of d s = \<lparr>v_db = d, v_queue = c_queue s, v_watch = c_watch s, v_dirty = c_dirty s\<rparr>"

definition session_of :: "prog \<Rightarrow> frame list \<Rightarrow> redis_view \<Rightarrow> session" where
  "session_of p fs v = \<lparr>c_prog = p, c_frames = fs, c_queue = v_queue v, c_watch = v_watch v, c_dirty = v_dirty v\<rparr>"

text \<open>A transaction whose watched key has changed will not be executed.\<close>

definition noticed :: "database \<Rightarrow> database \<Rightarrow> session \<Rightarrow> session" where
  "noticed d d' s =
     s\<lparr>c_dirty := c_dirty s \<or> (case c_watch s of None \<Rightarrow> False | Some k \<Rightarrow> d' k \<noteq> d k)\<rparr>"

text \<open>Changes that replace no stored configuration or machine.\<close>

definition objects_kept :: "database \<Rightarrow> database \<Rightarrow> bool" where
  "objects_kept d d' \<longleftrightarrow> configs_kept d d' \<and>
     (\<forall>i n b. plain n \<and> d (NewKeyForMachine i n) = Some (RString b) \<longrightarrow> d' (NewKeyForMachine i n) = Some (RString b))"

inductive interleaved :: "bool \<Rightarrow> (database \<Rightarrow> database \<Rightarrow> bool) \<Rightarrow> servers \<Rightarrow> servers \<Rightarrow> bool" for lossy others where
  of_client: "j < length (s_sessions s) \<Longrightarrow>
    command lossy (c_prog (s_sessions s ! j), c_frames (s_sessions s ! j), view_of (s_db s) (s_sessions s ! j)) x (p, fs, v) \<Longrightarrow>
    interleaved lossy others s \<lparr>s_db = v_db v,
      s_sessions = (map (noticed (s_db s) (v_db v)) (s_sessions s))[j := session_of p fs v],
      s_log = s_log s @ (if x then [j] else [])\<rparr>"
| of_others: "others (s_db s) d \<Longrightarrow>
    interleaved lossy others s (s\<lparr>s_db := d, s_sessions := map (noticed (s_db s) d) (s_sessions s)\<rparr>)"
| touches: "j < length (s_sessions s) \<Longrightarrow>
    interleaved lossy others s (s\<lparr>s_sessions := (s_sessions s)[j := (s_sessions s ! j)\<lparr>c_dirty := True\<rparr>]\<rparr>)"

definition session_start :: "prog \<Rightarrow> session" where
  "session_start p = \<lparr>c_prog = p, c_frames = [], c_queue = [], c_watch = None, c_dirty = False\<rparr>"

definition sessions_start :: "prog list \<Rightarrow> database \<Rightarrow> servers" where
  "sessions_start ps d = \<lparr>s_db = d, s_sessions = map session_start ps, s_log = []\<rparr>"

text \<open>Every client calls \<^verbatim>\<open>TxProcessEvent\<close> for a request of its own.\<close>

definition request_prog :: "codecs \<Rightarrow> duration \<Rightarrow> 64 word \<Rightarrow> EventRequest \<Rightarrow> prog" where
  "request_prog cs timeout retries r =
     TxProcessEvent_prog cs timeout retries (req_Id r) (req_Config r) (req_Event r)"

definition servers_start :: "codecs \<Rightarrow> duration \<Rightarrow> 64 word \<Rightarrow> EventRequest list \<Rightarrow> database \<Rightarrow> servers" where
  "servers_start cs timeout retries reqs d =
     sessions_start (map (request_prog cs timeout retries) reqs) d"

definition returned :: "session \<Rightarrow> go_error option go option" where
  "returned s = (case (c_prog s, c_frames s) of (Return r, []) \<Rightarrow> Some r | _ \<Rightarrow> None)"

lemma returned_iff: "returned s = Some r \<longleftrightarrow> c_prog s = Return r \<and> c_frames s = []"
  by (auto simp: returned_def split: prog.splits list.splits)

section \<open>The servers together\<close>

definition listing_step :: "database \<Rightarrow> database \<Rightarrow> bool" where
  "listing_step d d' \<longleftrightarrow>
     (\<exists>n x i. plain n \<and> (d' = add_member (NewKeyForMachinesByState n x) i d \<or> d' = remove_member (NewKeyForMachinesByState n x) i d))"

lemma machine_key_eq: "plain n \<Longrightarrow> plain n' \<Longrightarrow> NewKeyForMachine i n = NewKeyForMachine i' n' \<longleftrightarrow> i = i' \<and> n = n'"
  using key_of_inject [of "Machine i n" "Machine i' n'"] by simp

lemma machine_key_not_listing: "plain n \<Longrightarrow> plain n' \<Longrightarrow> NewKeyForMachine i n \<noteq> NewKeyForMachinesByState n' x"
  using key_of_inject [of "Machine i n" "ByState n' x"] by simp

lemma machine_key_not_config: "NewKeyForConfig c \<noteq> NewKeyForMachine i n"
  by (simp add: key_eqs)

lemma objects_kept_refl [simp]: "objects_kept d d"
  by (simp add: objects_kept_def configs_kept.rely_refl)

lemma listing_keeps_objects: "listing_step d d' \<Longrightarrow> objects_kept d d'"
  using machine_key_not_listing configs_kept.rely_add configs_kept.rely_remove
  by (auto simp: listing_step_def objects_kept_def)

lemma commits_keep_configs: "commits cs i n evt d d' \<Longrightarrow> configs_kept d d'"
  using machine_key_not_config by (auto simp: commits_def configs_kept_def set_string_apply)

text \<open>
  What holds of any number of sessions while they run: each is safe, and the log has no session twice. The flag
  of a session tells that it is in the log.
\<close>

abbreviation session_safe ::
    "bool \<Rightarrow> (database \<Rightarrow> database \<Rightarrow> bool) \<Rightarrow> (bool \<Rightarrow> database \<Rightarrow> database \<Rightarrow> bool) \<Rightarrow> (database \<Rightarrow> database \<Rightarrow> bool) \<Rightarrow> postcondition \<Rightarrow> session \<Rightarrow>
       bool \<Rightarrow> redis_view \<Rightarrow> bool" where
  "session_safe lossy rely guar commit Q s \<equiv>
     safe lossy rely guar commit (c_prog s) (post lossy rely guar commit (c_frames s) Q)"

definition servers_inv ::
    "bool \<Rightarrow> (nat \<Rightarrow> database \<Rightarrow> database \<Rightarrow> bool) \<Rightarrow> (nat \<Rightarrow> bool \<Rightarrow> database \<Rightarrow> database \<Rightarrow> bool) \<Rightarrow> (nat \<Rightarrow> database \<Rightarrow> database \<Rightarrow> bool) \<Rightarrow> (nat \<Rightarrow> postcondition) \<Rightarrow>
       nat \<Rightarrow> servers \<Rightarrow> bool" where
  "servers_inv lossy rely guar commit Q n s \<longleftrightarrow> distinct (s_log s) \<and> length (s_sessions s) = n \<and> set (s_log s) \<subseteq> {..<n} \<and>
     (\<forall>j < n. always (rely j) (session_safe lossy (rely j) (guar j) (commit j) (Q j) (s_sessions s ! j) (j \<in> set (s_log s)))
        (view_of (s_db s) (s_sessions s ! j)))"

lemma servers_inv_start:
  assumes "\<And>j v. j < length ps \<Longrightarrow> safe lossy (rely j) (guar j) (commit j) (ps ! j) (Q j) False v"
  shows "servers_inv lossy rely guar commit Q (length ps) (sessions_start ps d)"
  using assms by (auto simp: servers_inv_def sessions_start_def session_start_def always_def)

lemma interferes_noticed:
  assumes "rely d d'"
  shows "interferes rely (view_of d s) (view_of d' (noticed d d' s))"
  using assms by (auto simp: interferes_def view_of_def noticed_def)

lemma noticed_simps [simp]:
  "c_prog (noticed d d' s) = c_prog s" "c_frames (noticed d d' s) = c_frames s"
  by (simp_all add: noticed_def)

lemma session_of_simps [simp]:
  "c_prog (session_of p fs v) = p" "c_frames (session_of p fs v) = fs" "view_of (v_db v) (session_of p fs v) = v"
  by (simp_all add: session_of_def view_of_def)

text \<open>
  Sessions that may rely on what each other, and everything else, do: what a step does to the database, and that
  the invariant holds after it.
\<close>

locale concurrent =
  fixes rely :: "nat \<Rightarrow> database \<Rightarrow> database \<Rightarrow> bool" and others :: "database \<Rightarrow> database \<Rightarrow> bool"
    and guar :: "nat \<Rightarrow> bool \<Rightarrow> database \<Rightarrow> database \<Rightarrow> bool"
    and commit :: "nat \<Rightarrow> database \<Rightarrow> database \<Rightarrow> bool" and lossy :: bool and Q :: "nat \<Rightarrow> postcondition"
  assumes relies: "others_rely (rely j)"
    and others_rely: "others d d' \<Longrightarrow> rely j d d'"
    and guar_rely: "guar k g d d' \<Longrightarrow> k \<noteq> j \<Longrightarrow> rely j d d'"
    and commit_rely: "commit k d d' \<Longrightarrow> k \<noteq> j \<Longrightarrow> rely j d d'"
begin

lemma interleaved_step:
  assumes "interleaved lossy others s s'" and "servers_inv lossy rely guar commit Q n s"
  shows "servers_inv lossy rely guar commit Q n s' \<and>
    (s_log s' = s_log s \<and> (s_db s' = s_db s \<or> others (s_db s) (s_db s') \<or>
       (\<exists>j < n. guar j (j \<in> set (s_log s)) (s_db s) (s_db s'))) \<or>
     (\<exists>j < n. j \<notin> set (s_log s) \<and> s_log s' = s_log s @ [j] \<and> commit j (s_db s) (s_db s')))"
  using assms(1)
proof cases
  case (of_client j x p fs v)
  have len: "length (s_sessions s) = n" and inv: "k < n \<Longrightarrow>
    always (rely k) (session_safe lossy (rely k) (guar k) (commit k) (Q k) (s_sessions s ! k) (k \<in> set (s_log s)))
      (view_of (s_db s) (s_sessions s ! k))" for k
    using assms(2) by (auto simp: servers_inv_def)
  with of_client have j: "j < n" by simp
  note after = command_safe [OF of_client(3) others_rely.always_now [OF relies inv [OF j]]]
  have kept: "rely k (s_db s) (v_db v)" if "k \<noteq> j" for k
    using after guar_rely commit_rely that others_rely.rely_refl [OF relies] by (auto simp: view_of_def split: if_splits)
  have "always (rely k) (session_safe lossy (rely k) (guar k) (commit k) (Q k) (s_sessions s' ! k) (k \<in> set (s_log s')))
      (view_of (s_db s') (s_sessions s' ! k))" if "k < n" for k
  proof (cases "k = j")
    case True
    then show ?thesis using after j len unfolding of_client(1) by (cases x) auto
  next
    case False
    from others_rely.always_later [OF relies inv [OF that] interferes_noticed [where rely = "rely k", OF kept [OF False]]]
      False that len show ?thesis unfolding of_client(1) by auto
  qed
  moreover have "distinct (s_log s')" "length (s_sessions s') = n" "set (s_log s') \<subseteq> {..<n}"
    using after assms(2) j unfolding of_client(1) by (auto simp: servers_inv_def)
  ultimately show ?thesis
    using after j unfolding servers_inv_def of_client(1) by (auto simp: view_of_def split: if_splits)
next
  case (of_others d)
  from others_rely.always_later [OF relies _ interferes_noticed [where rely = "rely _", OF others_rely [OF of_others(2)]]]
  show ?thesis using assms(2) of_others by (auto simp: servers_inv_def)
next
  case (touches j)
  have "interferes (rely j) (view_of (s_db s) (s_sessions s ! j)) (view_of (s_db s) ((s_sessions s ! j)\<lparr>c_dirty := True\<rparr>))"
    using others_rely.rely_refl [OF relies] by (simp add: interferes_def view_of_def)
  from others_rely.always_later [OF relies _ this] show ?thesis
    using assms(2) touches by (auto simp: servers_inv_def nth_list_update)
qed

lemma interleaved_inv:
  assumes "(interleaved lossy others)\<^sup>*\<^sup>* s s'" and "servers_inv lossy rely guar commit Q n s"
  shows "servers_inv lossy rely guar commit Q n s'"
  using assms by (induction rule: rtranclp_induct) (auto dest: interleaved_step)

text \<open>A session that has returned has its postcondition.\<close>

lemma returned_post:
  assumes "servers_inv lossy rely guar commit Q n s" and "j < n" and "returned (s_sessions s ! j) = Some r"
  shows "Q j (j \<in> set (s_log s)) r (view_of (s_db s) (s_sessions s ! j))"
proof -
  have "always (rely j) (session_safe lossy (rely j) (guar j) (commit j) (Q j) (s_sessions s ! j) (j \<in> set (s_log s)))
      (view_of (s_db s) (s_sessions s ! j))"
    using assms by (simp add: servers_inv_def)
  from others_rely.always_now [OF relies this] assms(3) show ?thesis by (simp add: returned_iff)
qed

end

section \<open>The history of a machine\<close>

text \<open>The requests for a machine, in the order in which their transactions have been executed.\<close>

definition committed :: "EventRequest list \<Rightarrow> string \<Rightarrow> string \<Rightarrow> nat list \<Rightarrow> EventRequest list" where
  "committed reqs i n log = filter (\<lambda>r. req_Id r = i \<and> req_Config r = n) (map ((!) reqs) log)"

text \<open>
  The machine \<open>m\<close> has gone on from \<open>m0\<close> by the events of these requests: each is in the history as it was sent,
  with the transition of the configuration that it took.
\<close>

definition went_on :: "Configuration \<Rightarrow> FiniteStateMachine \<Rightarrow> EventRequest list \<Rightarrow> FiniteStateMachine \<Rightarrow> bool" where
  "went_on c m0 rs m \<longleftrightarrow> fsm_ConfigId m = fsm_ConfigId m0 \<and>
     (\<exists>hs. fsm_History m = fsm_History m0 @ hs \<and> path (cfg_Transitions c) (fsm_State m0) hs (fsm_State m) \<and>
        list_all2 (\<lambda>h r. \<exists>e t. req_Event r = Some e \<and> h = recorded e t) hs rs)"

lemma went_on_refl: "went_on c m [] m"
  by (simp add: went_on_def)

lemma went_on_advance:
  assumes "went_on c m0 rs m" and "req_Event r = Some e" and "enabled c (fsm_State m) ev = Some t"
  shows "went_on c m0 (rs @ [r]) (advance m e t)"
proof -
  obtain hs where "fsm_History m = fsm_History m0 @ hs" "path (cfg_Transitions c) (fsm_State m0) hs (fsm_State m)"
    "list_all2 (\<lambda>h r. \<exists>e t. req_Event r = Some e \<and> h = recorded e t) hs rs"
    using assms(1) by (auto simp: went_on_def)
  moreover have "t \<in> set (cfg_Transitions c)" "t_From t = fsm_State m" using enabledD [OF assms(3)] by simp_all
  ultimately show ?thesis
    using assms(1,2) by (auto simp: went_on_def intro!: path_snoc list_all2_appendI exI [of _ "hs @ [recorded e t]"])
qed

lemma lookup_kept:
  "objects_kept d d' \<Longrightarrow> plain n \<Longrightarrow> lookup c d (NewKeyForMachine i n) = Some m \<Longrightarrow> lookup c d' (NewKeyForMachine i n) = Some m"
  "configs_kept d d' \<Longrightarrow> lookup c' d (NewKeyForConfig k) = Some x \<Longrightarrow> lookup c' d' (NewKeyForConfig k) = Some x"
  by (auto simp: objects_kept_def configs_kept_def lookup_def split: option.splits rval.splits)

lemma history_step:
  assumes "faithful (fsm_codec cs)" and "plain n" and "plain (req_Config r)"
    and "commits cs (req_Id r) (req_Config r) (req_Event r) d d'"
    and "lookup (cfg_codec cs) d (NewKeyForConfig (fsm_ConfigId m)) = Some c"
    and "lookup (fsm_codec cs) d (NewKeyForMachine i n) = Some m" and "went_on c m0 rs m"
  shows "\<exists>m'. lookup (fsm_codec cs) d' (NewKeyForMachine i n) = Some m' \<and> fsm_ConfigId m' = fsm_ConfigId m \<and>
    went_on c m0 (rs @ (if req_Id r = i \<and> req_Config r = n then [r] else [])) m'"
proof -
  obtain e fsm t b where e: "req_Event r = Some e" and f: "fires cs d (req_Id r) (req_Config r) e fsm t"
    and b: "marshal (fsm_codec cs) (advance fsm e t) = Inr b"
    and d': "d' = set_string (NewKeyForMachine (req_Id r) (req_Config r)) b d"
    using assms(4) by (auto simp: commits_def)
  show ?thesis
  proof (cases "req_Id r = i \<and> req_Config r = n")
    case True
    then have "fsm = m" using f assms(6) by (simp add: fires_def)
    moreover have "\<exists>ev. enabled c (fsm_State fsm) ev = Some t"
      using f assms(5) \<open>fsm = m\<close> by (auto simp: fires_def split: option.splits)
    moreover have "lookup (fsm_codec cs) d' (NewKeyForMachine i n) = Some (advance fsm e t)"
      using True d' faithfulD [OF assms(1) b] by (simp add: lookup_def set_string_apply)
    ultimately show ?thesis using True went_on_advance [OF assms(7) e] by auto
  next
    case False
    then have "d' (NewKeyForMachine i n) = d (NewKeyForMachine i n)"
      using d' machine_key_eq [OF assms(2,3)] by (auto simp: set_string_apply)
    then have "lookup (fsm_codec cs) d' (NewKeyForMachine i n) = Some m" using assms(6) by (simp add: lookup_def)
    then show ?thesis using False assms(7) by auto
  qed
qed

text \<open>Sessions that process a request each, and replace no machine but by the transaction for their request.\<close>

abbreviation request_commits :: "codecs \<Rightarrow> EventRequest list \<Rightarrow> nat \<Rightarrow> database \<Rightarrow> database \<Rightarrow> bool" where
  "request_commits cs reqs j \<equiv> commits cs (req_Id (reqs ! j)) (req_Config (reqs ! j)) (req_Event (reqs ! j))"

locale processing = concurrent rely others guar "request_commits cs reqs" lossy Q
  for rely :: "nat \<Rightarrow> database \<Rightarrow> database \<Rightarrow> bool" and others :: "database \<Rightarrow> database \<Rightarrow> bool"
    and guar :: "nat \<Rightarrow> bool \<Rightarrow> database \<Rightarrow> database \<Rightarrow> bool" and lossy :: bool
    and Q :: "nat \<Rightarrow> postcondition" and cs :: codecs and reqs :: "EventRequest list" +
  assumes others_keep_objects: "others d d' \<Longrightarrow> objects_kept d d'"
    and guar_keeps_objects: "guar j g d d' \<Longrightarrow> objects_kept d d'"
begin

lemma interleaved_history:
  assumes "(interleaved lossy others)\<^sup>*\<^sup>* s0 s" and "servers_inv lossy rely guar (request_commits cs reqs) Q (length reqs) s0" and "s_log s0 = []"
    and "faithful (fsm_codec cs)" and "\<forall>r \<in> set reqs. plain (req_Config r)" and "plain n"
    and "lookup (fsm_codec cs) (s_db s0) (NewKeyForMachine i n) = Some m0"
    and "lookup (cfg_codec cs) (s_db s0) (NewKeyForConfig (fsm_ConfigId m0)) = Some c"
  shows "servers_inv lossy rely guar (request_commits cs reqs) Q (length reqs) s \<and> (\<exists>m. lookup (fsm_codec cs) (s_db s) (NewKeyForMachine i n) = Some m \<and>
    lookup (cfg_codec cs) (s_db s) (NewKeyForConfig (fsm_ConfigId m)) = Some c \<and>
    went_on c m0 (committed reqs i n (s_log s)) m)"
  using assms(1)
proof induction
  case base
  then show ?case using assms(2,3,7,8) went_on_refl by (simp add: committed_def)
next
  case (step s s')
  then obtain m where inv: "servers_inv lossy rely guar (request_commits cs reqs) Q (length reqs) s"
    and m: "lookup (fsm_codec cs) (s_db s) (NewKeyForMachine i n) = Some m"
    and c: "lookup (cfg_codec cs) (s_db s) (NewKeyForConfig (fsm_ConfigId m)) = Some c"
    and w: "went_on c m0 (committed reqs i n (s_log s)) m" by blast
  note after = interleaved_step [OF step.hyps(2) inv]
  then consider (kept) "s_log s' = s_log s" "objects_kept (s_db s) (s_db s')"
    | (executed) j where "j < length reqs" "s_log s' = s_log s @ [j]" "request_commits cs reqs j (s_db s) (s_db s')"
    using others_keep_objects guar_keeps_objects by fastforce
  then show ?case
  proof cases
    case kept
    then show ?thesis using after m c w lookup_kept assms(6) by (metis objects_kept_def)
  next
    case (executed j)
    then have p: "plain (req_Config (reqs ! j))" using assms(5) by simp
    from history_step [OF assms(4,6) p executed(3) c m w] lookup_kept(2) [OF commits_keep_configs [OF executed(3)] c]
    show ?thesis using after executed by (auto simp: committed_def split: if_splits)
  qed
qed

end

section \<open>A schedule\<close>

text \<open>The next command of a client, with the answer of a server that answers.\<close>

fun answer :: "prog \<times> frame list \<times> redis_view \<Rightarrow> (bool \<times> prog \<times> frame list \<times> redis_view) option" where
  "answer (Return r, [], v) = None"
| "answer (Return r, InWatch c # fs, v) = Some (False, c r, fs, finished v)"
| "answer (Return r, InTx c # fs, v) =
     Some (if r \<noteq> Ret None then (False, c r, fs, v)
           else if v_dirty v then (False, c (Ret (Some TxFailedErr)), fs, v)
           else (True, c (Ret None), fs, exec v))"
| "answer (WaitCmd p, fs, v) = Some (False, p, fs, v)"
| "answer (GetCmd k t c, fs, v) =
     Some (False, c (case v_db v k of
         None \<Rightarrow> (Inl RedisNil, False)
       | Some (RString b) \<Rightarrow> (Inr b, False)
       | Some (RSet S) \<Rightarrow> (Inl wrongtype_error, False)), fs, v)"
| "answer (SetCmd k b ttl t c, fs, v) = Some (False, c (None, False), fs, wrote k (set_string k b (v_db v)) v)"
| "answer (SAddCmd k m c, fs, v) =
     Some (if holds_string (v_db v k) then (False, c (Some wrongtype_error), fs, v)
           else (False, c None, fs, changed k (add_member k m (v_db v)) v))"
| "answer (SRemCmd k m c, fs, v) =
     Some (if holds_string (v_db v k) then (False, c (Some wrongtype_error), fs, v)
           else (False, c None, fs, changed k (remove_member k m (v_db v)) v))"
| "answer (PipeSetCmd k b ttl c, fs, v) = Some (False, c None, fs, v\<lparr>v_queue := v_queue v @ [(k, b)]\<rparr>)"
| "answer (WatchCmd t k p c, fs, v) = Some (False, p, InWatch c # fs, started k v)"
| "answer (TxCmd t p c, fs, v) = Some (False, p, InTx c # fs, v\<lparr>v_queue := []\<rparr>)"

lemma answer_command: "answer a = Some (x, b) \<Longrightarrow> command lossy a x b"
  by (induction a rule: answer.induct)
     (auto intro: command.intros simp: get_reply_def wrongtype_error_def split: if_splits option.splits rval.splits)

definition turn :: "nat \<Rightarrow> servers \<Rightarrow> servers" where
  "turn j s =
     (case answer (c_prog (s_sessions s ! j), c_frames (s_sessions s ! j), view_of (s_db s) (s_sessions s ! j)) of
        None \<Rightarrow> s
      | Some (x, p, fs, v) \<Rightarrow>
          \<lparr>s_db = v_db v, s_sessions = (map (noticed (s_db s) (v_db v)) (s_sessions s))[j := session_of p fs v],
           s_log = s_log s @ (if x then [j] else [])\<rparr>)"

lemma turn_length: "length (s_sessions (turn j s)) = length (s_sessions s)"
  by (simp add: turn_def split: option.split)

lemma noticed_same: "noticed d d = id"
  by (rule ext) (simp add: noticed_def split: option.split)

lemma turn_step:
  fixes others :: "database \<Rightarrow> database \<Rightarrow> bool"
  assumes "j < length (s_sessions s)" and "\<And>d. others d d"
  shows "interleaved lossy others s (turn j s)"
proof (cases "answer (c_prog (s_sessions s ! j), c_frames (s_sessions s ! j), view_of (s_db s) (s_sessions s ! j))")
  case None
  then show ?thesis using of_others [where lossy = lossy, of others s "s_db s"] assms(2) by (simp add: turn_def noticed_same)
next
  case (Some a)
  obtain x p fs v where a: "a = (x, p, fs, v)" using prod_cases4 by blast
  from of_client [OF assms(1) answer_command [OF Some [unfolded a]]] show ?thesis
    using Some a by (simp add: turn_def)
qed

lemma turns_interleaved:
  fixes others :: "database \<Rightarrow> database \<Rightarrow> bool"
  assumes "\<And>d. others d d"
  shows "\<forall>j \<in> set js. j < length (s_sessions s) \<Longrightarrow> (interleaved lossy others)\<^sup>*\<^sup>* s (fold turn js s)"
proof (induction js arbitrary: s)
  case (Cons j js)
  then have "interleaved lossy others s (turn j s)" using assms by (simp add: turn_step)
  then show ?case using Cons by (simp add: converse_rtranclp_into_rtranclp turn_length)
qed simp

section \<open>Events are applied one by one\<close>

text \<open>Calls of \<^verbatim>\<open>TxProcessEvent\<close> change nothing else but the listing by state.\<close>

interpretation call: transacting configs_kept "\<lambda>g. listing_step"
  by unfold_locales (auto simp: listing_step_def)

interpretation calls: processing "\<lambda>j. configs_kept" objects_kept "\<lambda>j g. listing_step" True
    "\<lambda>j g r v. r = Ret None \<longrightarrow> g" cs reqs
  for cs reqs
  by unfold_locales (auto simp: objects_kept_def commits_keep_configs configs_kept.others_rely_axioms dest: listing_keeps_objects)

lemma calls_start:
  assumes "\<forall>r \<in> set reqs. plain (req_Config r)"
  shows "servers_inv True (\<lambda>j. configs_kept) (\<lambda>j g. listing_step) (request_commits cs reqs) (\<lambda>j g r v. r = Ret None \<longrightarrow> g) (length reqs)
    (servers_start cs timeout retries reqs d)"
proof -
  have "safe True configs_kept (\<lambda>g. listing_step) (request_commits cs reqs j) (map (request_prog cs timeout retries) reqs ! j)
      (\<lambda>g r v. r = Ret None \<longrightarrow> g) False v" if "j < length reqs" for j v
    using that assms by (auto simp: request_prog_def le_fun_def intro: safe_mono [OF call.safe_TxProcessEvent])
  then show ?thesis
    using servers_inv_start [of "map (request_prog cs timeout retries) reqs"] by (simp add: servers_start_def)
qed

text \<open>
  C4. Any number of calls of \<^verbatim>\<open>TxProcessEvent\<close>, of as many servers, on one database, in every interleaving of
  their commands with each other and with writes that replace no stored configuration or machine, where commands may
  fail and replies be lost: no call executes more than one transaction, and one that returns success has executed
  one. The history of each machine that was stored at the start is what it was, followed by
  one event for each transaction executed for it, in that order: the event of that call, with the
  transition it took. These lead along the configuration from the state the machine was in to
  the state it is in. So no call's event is lost or applied twice, and none acts on a state that is not
  current.
\<close>

theorem servers_apply_events_one_by_one:
  assumes "wire cs" and "(interleaved True objects_kept)\<^sup>*\<^sup>* (servers_start cs timeout retries reqs d) s"
    and "\<forall>r \<in> set reqs. plain (req_Config r)" and "plain n"
    and "lookup (fsm_codec cs) d (NewKeyForMachine i n) = Some m0"
    and "lookup (cfg_codec cs) d (NewKeyForConfig (fsm_ConfigId m0)) = Some c"
  shows "distinct (s_log s) \<and> set (s_log s) \<subseteq> {..<length reqs} \<and>
    (\<forall>j < length reqs. returned (s_sessions s ! j) = Some (Ret None) \<longrightarrow> j \<in> set (s_log s)) \<and>
    (\<exists>m hs. lookup (fsm_codec cs) (s_db s) (NewKeyForMachine i n) = Some m \<and>
       fsm_History m = fsm_History m0 @ hs \<and> path (cfg_Transitions c) (fsm_State m0) hs (fsm_State m) \<and>
       list_all2 (\<lambda>h r. \<exists>e t. req_Event r = Some e \<and> h = recorded e t) hs
         (filter (\<lambda>r. req_Id r = i \<and> req_Config r = n) (map ((!) reqs) (s_log s))))"
proof -
  let ?s0 = "servers_start cs timeout retries reqs d"
  have "s_log ?s0 = []" "s_db ?s0 = d" by (simp_all add: servers_start_def sessions_start_def)
  then have inv: "servers_inv True (\<lambda>j. configs_kept) (\<lambda>j g. listing_step) (request_commits cs reqs) (\<lambda>j g r v. r = Ret None \<longrightarrow> g) (length reqs) s"
    and h: "\<exists>m. lookup (fsm_codec cs) (s_db s) (NewKeyForMachine i n) = Some m \<and> went_on c m0 (committed reqs i n (s_log s)) m"
    using calls.interleaved_history [OF assms(2) calls_start [OF assms(3)] _ wire.fsm_faithful [OF assms(1)] assms(3,4), of i m0 c] assms(5,6)
    by auto
  from h show ?thesis
    using calls.returned_post [OF inv] inv by (auto simp: servers_inv_def went_on_def committed_def)
qed

text \<open>
  Three requests for one machine: two servers are to launch it, one to land it. The third reads the machine
  before the second launches it; its transaction fails, and when it reads again it is refused. Then
  the first lands the machine.
\<close>

definition three_requests :: "EventRequest list" where
  "three_requests = map (\<lambda>e. \<lparr>req_Event = Some (event_named e), req_Config = ''rover'', req_Id = ''m1''\<rparr>)
     [''land'', ''launch'', ''launch'']"

definition three_servers :: servers where
  "three_servers = fold turn ([2, 2, 2] @ replicate 9 1 @ replicate 10 2 @ replicate 9 0)
     (servers_start plain_codecs 1 1 three_requests rover_db)"

lemma three_servers_log:
  "s_log three_servers = [1, 0] \<and>
   map returned (s_sessions three_servers) =
     [Some (Ret None), Some (Ret None), Some (Ret (Some UnexpectedTransitionError))]"
  by code_simp

theorem servers_apply_events_one_by_one_witness:
  "\<exists>m t t'. lookup (fsm_codec plain_codecs) (s_db three_servers) (NewKeyForMachine ''m1'' ''rover'') = Some m \<and>
     fsm_History m = [recorded (event_named ''launch'') t, recorded (event_named ''land'') t'] \<and>
     path (cfg_Transitions lander_cfg) ''earth'' (fsm_History m) (fsm_State m)"
proof -
  have run: "(interleaved True objects_kept)\<^sup>*\<^sup>* (servers_start plain_codecs 1 1 three_requests rover_db) three_servers"
    unfolding three_servers_def 
    by (rule turns_interleaved) (simp_all add: servers_start_def sessions_start_def three_requests_def)
  have r: "\<forall>r \<in> set three_requests. plain (req_Config r)" by (simp add: three_requests_def plain_def)
  have p: "plain ''rover''" by (simp add: plain_def)
  have m: "lookup (fsm_codec plain_codecs) rover_db (NewKeyForMachine ''m1'' ''rover'') = Some (csm_FSM (lander ''earth''))"
    by code_simp
  have c: "lookup (cfg_codec plain_codecs) rover_db (NewKeyForConfig (fsm_ConfigId (csm_FSM (lander ''earth'')))) = Some lander_cfg"
    by code_simp
  have log: "s_log three_servers = [1, 0]" using three_servers_log by simp
  from servers_apply_events_one_by_one [OF plain.wire_axioms run r p m c] obtain m hs where
    "lookup (fsm_codec plain_codecs) (s_db three_servers) (NewKeyForMachine ''m1'' ''rover'') = Some m"
    "fsm_History m = hs" "path (cfg_Transitions lander_cfg) ''earth'' hs (fsm_State m)"
    "list_all2 (\<lambda>h r. \<exists>e t. req_Event r = Some e \<and> h = recorded e t) hs [three_requests ! 1, three_requests ! 0]"
    unfolding log by (auto simp: lander_def three_requests_def)
  then show ?thesis by (auto simp: three_requests_def list_all2_Cons2)
qed

section \<open>Every call returns\<close>

definition at :: "nat \<Rightarrow> servers \<Rightarrow> prog \<times> frame list" where
  "at j s = (c_prog (s_sessions s ! j), c_frames (s_sessions s ! j))"

lemma at_step:
  fixes others :: "database \<Rightarrow> database \<Rightarrow> bool"
  assumes "interleaved True others s s'" and "j < length (s_sessions s)" and "at j s' \<noteq> at j s"
  shows "next_prog (at j s') (at j s)"
  using assms(1)
proof cases
  case (of_client i x p fs v)
  then show ?thesis
    using assms(2,3) by (cases "i = j") (auto simp: at_def next_prog_def)
qed (use assms(2,3) in \<open>auto simp: at_def nth_list_update split: if_splits\<close>)

text \<open>A sequence in which each element is the one before or next to it in a well-founded relation is constant in the end.\<close>

lemma eventually_constant:
  assumes "Wellfounded.accp R (g k)" and "\<And>k. g (Suc k) = g k \<or> R (g (Suc k)) (g k)"
  shows "\<exists>K \<ge> k. \<forall>k' \<ge> K. g k' = g K"
  using assms(1)
proof (induction "g k" arbitrary: k rule: accp.induct)
  case accI
  show ?case
  proof (cases "\<forall>k' \<ge> k. g k' = g k")
    case False
    then obtain k' where "k' \<ge> k" "g k' \<noteq> g k" by blast
    then obtain l where l: "l \<ge> k" "g l = g k" "g (Suc l) \<noteq> g k"
      by (induction k' rule: dec_induct) metis+
    then have "R (g (Suc l)) (g k)" using assms(2) [of l] by auto
    from accI(2) [OF this] show ?thesis using l(1) by (meson Suc_leD le_trans)
  qed blast
qed

text \<open>A session that is not held up for ever returns.\<close>

lemma sessions_return:
  fixes others :: "database \<Rightarrow> database \<Rightarrow> bool"
  assumes "\<And>k. interleaved True others (f k) (f (Suc k))" and "\<And>k. j < length (s_sessions (f k))"
    and "\<And>k. returned (s_sessions (f k) ! j) \<noteq> None \<or> (\<exists>k' \<ge> k. at j (f (Suc k')) \<noteq> at j (f k'))"
  shows "\<exists>K r. \<forall>k \<ge> K. returned (s_sessions (f k) ! j) = Some r"
proof -
  have "\<exists>K \<ge> 0. \<forall>k \<ge> K. at j (f k) = at j (f K)"
    by (rule eventually_constant) (use programs_end at_step [OF assms(1,2)] in \<open>auto simp: at_def\<close>)
  then obtain K where K: "\<And>k. k \<ge> K \<Longrightarrow> at j (f k) = at j (f K)" by blast
  then have "at j (f (Suc k')) = at j (f k')" if "k' \<ge> K" for k' using that by (metis le_SucI)
  then obtain r where "returned (s_sessions (f K) ! j) = Some r" using assms(3) [of K] by auto
  then have "returned (s_sessions (f k) ! j) = Some r" if "k \<ge> K" for k
    using K [OF that] by (simp add: at_def returned_iff)
  then show ?thesis by blast
qed

lemma distinct_count_list: "distinct xs \<Longrightarrow> x \<in> set xs \<Longrightarrow> count_list xs x = 1"
  by (induction xs) auto

text \<open>
  In every infinite interleaving of the servers, with whatever failures and contention, a call that is not
  held up for ever, so that it always has returned or goes on with another command later, returns in the end, and
  when it returns success its transaction has been executed, once.
  The attempts of \<^verbatim>\<open>TxProcessEvent\<close>, and those of each read, are bounded, and no command waits for another
  server.
\<close>

theorem every_call_returns:
  assumes "f 0 = servers_start cs timeout retries reqs d" and "\<And>k. interleaved True objects_kept (f k) (f (Suc k))"
    and "\<forall>r \<in> set reqs. plain (req_Config r)" and "j < length reqs"
    and "\<And>k. returned (s_sessions (f k) ! j) \<noteq> None \<or> (\<exists>k' \<ge> k. at j (f (Suc k')) \<noteq> at j (f k'))"
  shows "\<exists>K r. \<forall>k \<ge> K. returned (s_sessions (f k) ! j) = Some r \<and>
    (r = Ret None \<longrightarrow> count_list (s_log (f k)) j = 1)"
proof -
  have inv: "servers_inv True (\<lambda>j. configs_kept) (\<lambda>j g. listing_step) (request_commits cs reqs) (\<lambda>j g r v. r = Ret None \<longrightarrow> g) (length reqs) (f k)" for k
    using assms(1) calls_start [OF assms(3)] calls.interleaved_step [OF assms(2)] by (induction k) auto
  then have len: "j < length (s_sessions (f k))" for k using assms(4) by (simp add: servers_inv_def)
  obtain K r where r: "\<And>k. k \<ge> K \<Longrightarrow> returned (s_sessions (f k) ! j) = Some r"
    using sessions_return [OF assms(2) len assms(5)] by blast
  then have "count_list (s_log (f k)) j = 1" if "k \<ge> K" "r = Ret None" for k
    using calls.returned_post [OF inv assms(4), of k] r that inv [of k]
    by (simp add: servers_inv_def distinct_count_list)
  with r show ?thesis by blast
qed

text \<open>One server that takes all the turns.\<close>

definition solo :: "nat \<Rightarrow> servers" where
  "solo k = (turn 0 ^^ k) (servers_start plain_codecs 1 1 three_requests rover_db)"

fun_cases answer_NoneE: "answer a = None"

lemma answer_None: "answer (p, fs, v) = None \<Longrightarrow> \<exists>r. p = Return r \<and> fs = []"
  by (elim answer_NoneE) auto

lemma next_prog_irrefl: "\<not> next_prog a a"
proof -
  have "Wellfounded.accp next_prog a" using programs_end [of "fst a" "snd a"] by simp
  then show ?thesis by induction blast
qed

lemma turn_moves:
  assumes "j < length (s_sessions s)" and "returned (s_sessions s ! j) = None"
  shows "at j (turn j s) \<noteq> at j s"
proof -
  obtain x p fs v where a: "answer (c_prog (s_sessions s ! j), c_frames (s_sessions s ! j), view_of (s_db s) (s_sessions s ! j)) =
      Some (x, p, fs, v)"
    using answer_None returned_iff assms(2) by (metis not_Some_eq prod_cases4)
  then have "next_prog (at j (turn j s)) (at j s)"
    using answer_command [OF a] assms(1) by (auto simp: turn_def at_def next_prog_def)
  then show ?thesis using next_prog_irrefl by metis
qed

lemma solo_Suc: "solo (Suc k) = turn 0 (solo k)"
  by (simp add: solo_def)

lemma solo_length: "length (s_sessions (solo k)) = 3"
  by (induction k) (simp_all add: solo_def turn_length servers_start_def sessions_start_def three_requests_def)

theorem every_call_returns_witness:
  "\<exists>K r. \<forall>k \<ge> K. returned (s_sessions (solo k) ! 0) = Some r \<and> (r = Ret None \<longrightarrow> count_list (s_log (solo k)) 0 = 1)"
proof (rule every_call_returns)
  show "solo 0 = servers_start plain_codecs 1 1 three_requests rover_db" by (simp add: solo_def)
  show "interleaved True objects_kept (solo k) (solo (Suc k))" for k
    unfolding solo_Suc by (rule turn_step) (simp_all add: solo_length)
  show "\<forall>r \<in> set three_requests. plain (req_Config r)" by (simp add: three_requests_def plain_def)
  show "0 < length three_requests" by (simp add: three_requests_def)
  show "returned (s_sessions (solo k) ! 0) \<noteq> None \<or> (\<exists>k' \<ge> k. at 0 (solo (Suc k')) \<noteq> at 0 (solo k'))" for k
    using turn_moves [of 0 "solo k"] solo_length solo_Suc by auto
qed

end
