(* ===== verification/Store_Manager.thy ===== *)
theory Store_Manager
  imports Store_Types "HOL-Library.FSet"
begin

text \<open>
  The interface \<^verbatim>\<open>StoreManager\<close> (\<^verbatim>\<open>pkg/storage/types.go\<close>): its methods as a record of
  operations, what a store holds, and, as the locale \<open>store_manager\<close>, what its clients (the events
  listener and the gRPC server) rely on when the database answers. The contract is interpreted
  on the store over Redis in theory \<open>Reliable_Store\<close>.
\<close>

section \<open>The interface\<close>

record 'w ConfigStore =
  sm_GetConfig :: "string \<Rightarrow> 'w \<Rightarrow> (go_error + Configuration) \<times> 'w"
  sm_PutConfig :: "Configuration option \<Rightarrow> 'w \<Rightarrow> go_error option \<times> 'w"
  sm_GetAllConfigs :: "'w \<Rightarrow> string list \<times> 'w"
  sm_GetAllVersions :: "string \<Rightarrow> 'w \<Rightarrow> string list \<times> 'w"

record 'w FSMStore = "'w ConfigStore" +
  sm_GetStateMachine :: "string \<Rightarrow> string \<Rightarrow> 'w \<Rightarrow> (go_error + FiniteStateMachine) \<times> 'w"
  sm_PutStateMachine :: "string \<Rightarrow> FiniteStateMachine option \<Rightarrow> 'w \<Rightarrow> go_error option \<times> 'w"
  sm_GetAllInState :: "string \<Rightarrow> string \<Rightarrow> 'w \<Rightarrow> string list \<times> 'w"
  sm_UpdateState :: "string \<Rightarrow> string \<Rightarrow> string \<Rightarrow> string \<Rightarrow> 'w \<Rightarrow> go_error option \<times> 'w"
  sm_TxProcessEvent :: "string \<Rightarrow> string \<Rightarrow> Event option \<Rightarrow> 'w \<Rightarrow> go_error option go \<times> 'w"

record 'w EventStore = "'w FSMStore" +
  sm_GetEvent :: "string \<Rightarrow> string \<Rightarrow> 'w \<Rightarrow> (go_error + Event) \<times> 'w"
  sm_PutEvent :: "Event option \<Rightarrow> string \<Rightarrow> duration \<Rightarrow> 'w \<Rightarrow> go_error option \<times> 'w"
  sm_AddEventOutcome ::
    "string \<Rightarrow> string \<Rightarrow> EventOutcome option \<Rightarrow> duration \<Rightarrow> 'w \<Rightarrow> go_error option \<times> 'w"
  sm_GetOutcomeForEvent :: "string \<Rightarrow> string \<Rightarrow> 'w \<Rightarrow> (go_error + EventOutcome) \<times> 'w"

record 'w StoreManager = "'w EventStore" +
  sm_Health :: "'w \<Rightarrow> go_error option \<times> 'w"
  sm_GetTimeout :: duration

section \<open>What a store holds\<close>

text \<open>
  Configurations by version id and machines, events and outcomes by id and configuration name;
  the names, the version ids of each name, and the ids of the machines in each state of a
  configuration.
\<close>

record store_state =
  s_names :: "string fset"
  s_versions :: "string \<Rightarrow> string fset"
  s_configs :: "string \<rightharpoonup> Configuration"
  s_machines :: "string \<times> string \<rightharpoonup> FiniteStateMachine"
  s_listing :: "string \<times> string \<Rightarrow> string fset"
  s_events :: "string \<times> string \<rightharpoonup> Event"
  s_outcomes :: "string \<times> string \<rightharpoonup> EventOutcome"

text \<open>The id of a version of a configuration whose name has no separator in it.\<close>

definition version_id :: "string \<Rightarrow> bool" where
  "version_id v \<longleftrightarrow> CHR '':'' \<in> set v \<and> plain (hd (Split v CHR '':''))"

lemma version_id_iff: "version_id v \<longleftrightarrow> (\<exists>n x. v = n @ CHR '':'' # x \<and> plain n)"
proof
  assume v: "version_id v"
  let ?n = "takeWhile (\<lambda>c. c \<noteq> CHR '':'') v"
  from v obtain a x where x: "v = a @ CHR '':'' # x" "CHR '':'' \<notin> set a"
    using split_list_first [of "CHR '':''" v] by (auto simp: version_id_def)
  then have "v = ?n @ CHR '':'' # x" by (simp add: takeWhile_sep)
  with v show "\<exists>n x. v = n @ CHR '':'' # x \<and> plain n"
    unfolding version_id_def hd_Split by blast
next
  assume "\<exists>n x. v = n @ CHR '':'' # x \<and> plain n"
  then show "version_id v"
    by (auto simp: version_id_def plain_def hd_Split takeWhile_sep)
qed

lemma version_id_GetVersionId: "plain (cfg_Name c) \<Longrightarrow> version_id (GetVersionId c)"
  unfolding version_id_iff GetVersionId_eq by blast

lemma hd_Split_GetVersionId: "plain (cfg_Name c) \<Longrightarrow> hd (Split (GetVersionId c) CHR '':'') = cfg_Name c"
  by (simp add: hd_Split GetVersionId_eq plain_def takeWhile_sep)

text \<open>How the operations change it.\<close>

definition add_config :: "Configuration \<Rightarrow> store_state \<Rightarrow> store_state" where
  "add_config c s =
     s\<lparr>s_names := finsert (cfg_Name c) (s_names s),
       s_versions := (s_versions s)(cfg_Name c := finsert (GetVersionId c) (s_versions s (cfg_Name c))),
       s_configs := (s_configs s)(GetVersionId c \<mapsto> c)\<rparr>"

definition put_machine :: "string \<Rightarrow> FiniteStateMachine \<Rightarrow> store_state \<Rightarrow> store_state" where
  "put_machine i m s =
     s\<lparr>s_machines := (s_machines s)((i, hd (Split (fsm_ConfigId m) CHR '':'')) \<mapsto> m)\<rparr>"

definition unlist :: "string \<Rightarrow> string \<Rightarrow> string \<Rightarrow> store_state \<Rightarrow> store_state" where
  "unlist n i st s =
     (if st = '''' then s
      else s\<lparr>s_listing := (s_listing s)((n, st) := s_listing s (n, st) |-| {|i|})\<rparr>)"

definition enlist :: "string \<Rightarrow> string \<Rightarrow> string \<Rightarrow> store_state \<Rightarrow> store_state" where
  "enlist n i st s =
     (if st = '''' then s
      else s\<lparr>s_listing := (s_listing s)((n, st) := finsert i (s_listing s (n, st)))\<rparr>)"

definition relist :: "string \<Rightarrow> string \<Rightarrow> string \<Rightarrow> string \<Rightarrow> store_state \<Rightarrow> store_state" where
  "relist n i old new s = enlist n i new (unlist n i old s)"

text \<open>
  Processing an event: the machine, then its configuration are looked up, the event is sent, and
  the new machine stored and listed under its new state. \<open>ok\<close> says which machines can be stored.
\<close>

definition process ::
    "(FiniteStateMachine \<Rightarrow> bool) \<Rightarrow> string \<Rightarrow> string \<Rightarrow> Event option \<Rightarrow> store_state
       \<Rightarrow> go_error option go \<times> store_state \<Rightarrow> bool" where
  "process ok i n evt s r \<longleftrightarrow>
     (case s_machines s (i, n) of
        None \<Rightarrow> r = (Ret (Some (NotFoundError (NewKeyForMachine i n))), s)
      | Some m \<Rightarrow>
          (case s_configs s (fsm_ConfigId m) of
             None \<Rightarrow> r = (Ret (Some (NotFoundError
                       (Error_text (NotFoundError (NewKeyForConfig (fsm_ConfigId m)))))), s)
           | Some c \<Rightarrow>
               (case SendEvent \<lparr>csm_Config = c, csm_FSM = m\<rparr> evt of
                  Panic \<Rightarrow> r = (Panic, s)
                | Ret (Some e, x) \<Rightarrow> r = (Ret (Some e), s)
                | Ret (None, x) \<Rightarrow>
                    if ok (csm_FSM x)
                    then r = (Ret None, relist n i (fsm_State m) (fsm_State (csm_FSM x))
                                          (s\<lparr>s_machines := (s_machines s)((i, n) \<mapsto> csm_FSM x)\<rparr>))
                    else \<exists>e. r = (Ret (Some (InvalidDataError e)), s))))"

section \<open>The contract\<close>

text \<open>
  \<open>st\<close> is what the store holds in a world, \<open>sound\<close> an invariant of the worlds. \<open>can_...\<close> are the
  messages that can be serialised. Nothing is promised for configuration names with a separator in
  them (\<open>plain\<close>), nor for values that expire.
\<close>

locale store_manager =
  fixes sm :: "'w StoreManager" and rt :: "'w go_runtime"
    and st :: "'w \<Rightarrow> store_state" and sound :: "'w \<Rightarrow> bool"
    and can_cfg :: "Configuration \<Rightarrow> bool" and can_fsm :: "FiniteStateMachine \<Rightarrow> bool"
    and can_evt :: "Event \<Rightarrow> bool" and can_out :: "EventOutcome \<Rightarrow> bool"
  assumes uuid_same: "sound w \<Longrightarrow> sound (snd (uuid_NewString rt w)) \<and> st (snd (uuid_NewString rt w)) = st w"
    and now_same: "sound w \<Longrightarrow> sound (snd (time_Now rt w)) \<and> st (snd (time_Now rt w)) = st w"
    and config_key: "sound w \<Longrightarrow> s_configs (st w) v = Some c \<Longrightarrow> GetVersionId c = v \<and> plain (cfg_Name c)"
    and machine_key: "sound w \<Longrightarrow> s_machines (st w) (i, n) = Some m \<Longrightarrow>
      version_id (fsm_ConfigId m) \<and> hd (Split (fsm_ConfigId m) CHR '':'') = n"
    and GetConfig_law: "sm_GetConfig sm v w = (g, w') \<Longrightarrow> sound w \<Longrightarrow> version_id v \<Longrightarrow>
      sound w' \<and> st w' = st w \<and>
      g = (case s_configs (st w) v of None \<Rightarrow> Inl (NotFoundError (NewKeyForConfig v)) | Some c \<Rightarrow> Inr c)"
    and PutConfig_law: "sm_PutConfig sm (Some c) w = (e, w') \<Longrightarrow> sound w \<Longrightarrow> plain (cfg_Name c) \<Longrightarrow>
      sound w' \<and>
      (if s_configs (st w) (GetVersionId c) \<noteq> None
       then e = Some (AlreadyExistsError (NewKeyForConfig (GetVersionId c))) \<and> st w' = st w
       else if can_cfg c then e = None \<and> st w' = add_config c (st w)
       else (\<exists>x. e = Some (InvalidDataError x)) \<and>
         (\<exists>ns vs. st w' = (st w)\<lparr>s_names := ns, s_versions := vs\<rparr>))"
    and GetAllConfigs_law: "sm_GetAllConfigs sm w = (l, w') \<Longrightarrow> sound w \<Longrightarrow>
      sound w' \<and> st w' = st w \<and> fset_of_list l = s_names (st w) \<and> distinct l"
    and GetAllVersions_law: "sm_GetAllVersions sm n w = (l, w') \<Longrightarrow> sound w \<Longrightarrow> plain n \<Longrightarrow>
      sound w' \<and> st w' = st w \<and> fset_of_list l = s_versions (st w) n \<and> distinct l"
    and GetStateMachine_law: "sm_GetStateMachine sm i n w = (f, w') \<Longrightarrow> sound w \<Longrightarrow> plain n \<Longrightarrow>
      sound w' \<and> st w' = st w \<and>
      f = (case s_machines (st w) (i, n) of
             None \<Rightarrow> Inl (NotFoundError (NewKeyForMachine i n)) | Some m \<Rightarrow> Inr m)"
    and PutStateMachine_law: "sm_PutStateMachine sm i (Some m) w = (e, w') \<Longrightarrow> sound w \<Longrightarrow>
      version_id (fsm_ConfigId m) \<Longrightarrow>
      sound w' \<and>
      (if can_fsm m then e = None \<and> st w' = put_machine i m (st w)
       else (\<exists>x. e = Some (InvalidDataError x)) \<and> st w' = st w)"
    and GetAllInState_law: "sm_GetAllInState sm n s w = (l, w') \<Longrightarrow> sound w \<Longrightarrow> plain n \<Longrightarrow>
      sound w' \<and> st w' = st w \<and> fset_of_list l = s_listing (st w) (n, s) \<and> distinct l"
    and UpdateState_law: "sm_UpdateState sm n i old new w = (e, w') \<Longrightarrow> sound w \<Longrightarrow> plain n \<Longrightarrow>
      sound w' \<and> e = None \<and> st w' = relist n i old new (st w)"
    and TxProcessEvent_law: "sm_TxProcessEvent sm i n evt w = (r, w') \<Longrightarrow> sound w \<Longrightarrow> plain n \<Longrightarrow>
      sound w' \<and> process can_fsm i n evt (st w) (r, st w')"
    and GetEvent_law: "sm_GetEvent sm i n w = (ge, w') \<Longrightarrow> sound w \<Longrightarrow> plain n \<Longrightarrow>
      sound w' \<and> st w' = st w \<and>
      ge = (case s_events (st w) (i, n) of
             None \<Rightarrow> Inl (NotFoundError (NewKeyForEvent i n)) | Some e \<Rightarrow> Inr e)"
    and PutEvent_law: "sm_PutEvent sm (Some ev) n NeverExpire w = (e, w') \<Longrightarrow> sound w \<Longrightarrow> plain n \<Longrightarrow>
      sound w' \<and>
      (if can_evt ev
       then e = None \<and> st w' = (st w)\<lparr>s_events := (s_events (st w))((evt_EventId ev, n) \<mapsto> ev)\<rparr>
       else (\<exists>x. e = Some (InvalidDataError x)) \<and> st w' = st w)"
    and PutEvent_nil: "sm_PutEvent sm None n t w = (Some (InvalidDataError ''nil event''), w)"
    and AddEventOutcome_law: "sm_AddEventOutcome sm i n (Some out) NeverExpire w = (e, w') \<Longrightarrow> sound w \<Longrightarrow> plain n \<Longrightarrow>
      sound w' \<and>
      (if can_out out
       then e = None \<and> st w' = (st w)\<lparr>s_outcomes := (s_outcomes (st w))((i, n) \<mapsto> out)\<rparr>
       else (\<exists>x. e = Some (InvalidDataError x)) \<and> st w' = st w)"
    and GetOutcomeForEvent_law: "sm_GetOutcomeForEvent sm i n w = (go, w') \<Longrightarrow> sound w \<Longrightarrow> plain n \<Longrightarrow>
      sound w' \<and> st w' = st w \<and>
      go = (case s_outcomes (st w) (i, n) of
             None \<Rightarrow> Inl (NotFoundError (NewKeyForOutcome i n)) | Some o' \<Rightarrow> Inr o')"
    and Health_law: "sm_Health sm w = (e, w') \<Longrightarrow> sound w \<Longrightarrow> sound w' \<and> st w' = st w \<and> e = None"

section \<open>What clients of the interface may conclude\<close>

lemma add_config_sels [simp]:
  "s_configs (add_config c s) = (s_configs s)(GetVersionId c \<mapsto> c)"
  "s_names (add_config c s) = finsert (cfg_Name c) (s_names s)"
  "s_versions (add_config c s) (cfg_Name c) = finsert (GetVersionId c) (s_versions s (cfg_Name c))"
  "s_machines (add_config c s) = s_machines s" "s_listing (add_config c s) = s_listing s"
  by (simp_all add: add_config_def)

lemma put_machine_sels [simp]:
  "s_machines (put_machine i m s) = (s_machines s)((i, hd (Split (fsm_ConfigId m) CHR '':'')) \<mapsto> m)"
  "s_configs (put_machine i m s) = s_configs s" "s_listing (put_machine i m s) = s_listing s"
  by (simp_all add: put_machine_def)

lemma relist_sels [simp]:
  "s_machines (relist n i old new s) = s_machines s" "s_configs (relist n i old new s) = s_configs s"
  "s_outcomes (relist n i old new s) = s_outcomes s" "s_events (relist n i old new s) = s_events s"
  "s_names (relist n i old new s) = s_names s" "s_versions (relist n i old new s) = s_versions s"
  by (simp_all add: relist_def enlist_def unlist_def)

lemma s_listing_relist:
  "s_listing (relist n i old new s) (m, x) =
     (if m \<noteq> n \<or> x = '''' then s_listing s (m, x)
      else if x = new then finsert i (s_listing s (m, x))
      else if x = old then s_listing s (m, x) |-| {|i|}
      else s_listing s (m, x))"
  by (auto simp: relist_def enlist_def unlist_def)

context store_manager
begin

lemma GetConfig_fst:
  "sound w \<Longrightarrow> version_id v \<Longrightarrow> fst (sm_GetConfig sm v w) =
     (case s_configs (st w) v of None \<Rightarrow> Inl (NotFoundError (NewKeyForConfig v)) | Some c \<Rightarrow> Inr c)"
  using GetConfig_law [of v w] by (metis prod.collapse)

lemma GetStateMachine_fst:
  "sound w \<Longrightarrow> plain n \<Longrightarrow> fst (sm_GetStateMachine sm i n w) =
     (case s_machines (st w) (i, n) of
        None \<Rightarrow> Inl (NotFoundError (NewKeyForMachine i n)) | Some m \<Rightarrow> Inr m)"
  using GetStateMachine_law [of i n w] by (metis prod.collapse)

lemma GetAllConfigs_fst:
  "sound w \<Longrightarrow> set (fst (sm_GetAllConfigs sm w)) = fset (s_names (st w))"
  using GetAllConfigs_law [of w] by (metis fset_of_list.rep_eq prod.collapse)

lemma GetAllVersions_fst:
  "sound w \<Longrightarrow> plain n \<Longrightarrow> set (fst (sm_GetAllVersions sm n w)) = fset (s_versions (st w) n)"
  using GetAllVersions_law [of n w] by (metis fset_of_list.rep_eq prod.collapse)

lemma GetAllInState_fst:
  "sound w \<Longrightarrow> plain n \<Longrightarrow> set (fst (sm_GetAllInState sm n s w)) = fset (s_listing (st w) (n, s))"
  using GetAllInState_law [of n s w] by (metis fset_of_list.rep_eq prod.collapse)

text \<open>A configuration once stored is found, and never replaced.\<close>

lemma config_roundtrip:
  assumes "sm_PutConfig sm (Some c) w = (None, w1)" and "sound w" and "plain (cfg_Name c)"
  shows "sound w1 \<and> fst (sm_GetConfig sm (GetVersionId c) w1) = Inr c \<and>
         cfg_Name c \<in> set (fst (sm_GetAllConfigs sm w1)) \<and>
         GetVersionId c \<in> set (fst (sm_GetAllVersions sm (cfg_Name c) w1))"
proof -
  have "sound w1 \<and> st w1 = add_config c (st w)"
    using PutConfig_law [OF assms] by (auto split: if_splits)
  then show ?thesis
    using assms(3) version_id_GetVersionId [OF assms(3)]
    by (simp add: GetConfig_fst GetAllConfigs_fst GetAllVersions_fst)
qed

lemma config_immutable:
  assumes "sm_PutConfig sm (Some c') w = (e, w')" and "sound w" and "plain (cfg_Name c')"
    and "fst (sm_GetConfig sm v w) = Inr c" and "version_id v"
  shows "fst (sm_GetConfig sm v w') = Inr c \<and>
         (GetVersionId c' = v \<longrightarrow> e = Some (AlreadyExistsError (NewKeyForConfig v)))"
proof -
  have "s_configs (st w) v = Some c"
    using assms(2,4,5) by (simp add: GetConfig_fst split: option.splits)
  moreover have "sound w'" using PutConfig_law [OF assms(1-3)] by simp
  moreover have "s_configs (st w') v = Some c"
    using PutConfig_law [OF assms(1-3)] \<open>s_configs (st w) v = Some c\<close> by (auto split: if_splits)
  ultimately show ?thesis
    using PutConfig_law [OF assms(1-3)] assms(5) by (auto simp: GetConfig_fst)
qed

end

end
