(* ===== verification/Reliable_Store.thy ===== *)
theory Reliable_Store
  imports Store_Laws Store_Manager
begin

text \<open>
  The store over a Redis server that answers implements the interface of \<open>Store_Manager\<close>: an
  abstraction from databases to what a store holds, an invariant of databases, and, in the
  locale \<open>reliable_store\<close>, the refinement of every operation. The last section interprets the
  contract on \<open>RedisStore\<close>.
\<close>

section \<open>The interface on RedisStore\<close>

definition RedisStore_manager :: "'w go_runtime \<Rightarrow> codecs \<Rightarrow> 'w RedisStore \<Rightarrow> 'w StoreManager" where
  "RedisStore_manager rt cs csm =
     \<lparr>sm_GetConfig = RedisStore_GetConfig rt cs csm,
      sm_PutConfig = RedisStore_PutConfig rt cs csm,
      sm_GetAllConfigs = RedisStore_GetAllConfigs csm,
      sm_GetAllVersions = RedisStore_GetAllVersions csm,
      sm_GetStateMachine = RedisStore_GetStateMachine rt cs csm,
      sm_PutStateMachine = RedisStore_PutStateMachine rt cs csm,
      sm_GetAllInState = RedisStore_GetAllInState csm,
      sm_UpdateState = RedisStore_UpdateState csm,
      sm_TxProcessEvent = RedisStore_TxProcessEvent rt cs csm,
      sm_GetEvent = RedisStore_GetEvent rt cs csm,
      sm_PutEvent = RedisStore_PutEvent rt cs csm,
      sm_AddEventOutcome = RedisStore_AddEventOutcome rt cs csm,
      sm_GetOutcomeForEvent = RedisStore_GetOutcomeForEvent rt cs csm,
      sm_Health = RedisStore_Health csm,
      sm_GetTimeout = RedisStore_GetTimeout csm\<rparr>"

section \<open>What a database holds\<close>

definition message :: "'a codec \<Rightarrow> rval option \<Rightarrow> 'a option" where
  "message c v = lookup c (\<lambda>_. v) ''''"

lemma lookup_message: "lookup c d k = message c (d k)"
  by (simp add: lookup_def message_def)

lemma message_simps [simp]:
  "message c None = None" "message c (Some (RSet S)) = None"
  "unmarshal c b = Inr x \<Longrightarrow> message c (Some (RString b)) = Some x"
  by (simp_all add: message_def lookup_def)

lemma message_Some:
  "message c v = Some x \<longleftrightarrow> (\<exists>b. v = Some (RString b) \<and> unmarshal c b = Inr x)"
  by (auto simp: message_def lookup_def split: option.splits rval.splits sum.splits)

text \<open>Values that the key of an object may have.\<close>

fun content_ok :: "codecs \<Rightarrow> object \<Rightarrow> rval option \<Rightarrow> bool" where
  "content_ok cs ConfigNames v \<longleftrightarrow> \<not> holds_string v"
| "content_ok cs (Versions n) v \<longleftrightarrow> \<not> holds_string v"
| "content_ok cs (Config n x) v \<longleftrightarrow> v = None \<or>
     (case message (cfg_codec cs) v of None \<Rightarrow> False | Some c \<Rightarrow> cfg_Name c = n \<and> cfg_Version c = x)"
| "content_ok cs (Machine i n) v \<longleftrightarrow> v = None \<or>
     (case message (fsm_codec cs) v of
        None \<Rightarrow> False
      | Some m \<Rightarrow> version_id (fsm_ConfigId m) \<and> hd (Split (fsm_ConfigId m) CHR '':'') = n)"
| "content_ok cs (ByState n s) v \<longleftrightarrow> \<not> holds_string v"
| "content_ok cs (StoredEvent i n) v \<longleftrightarrow> v = None \<or> message (evt_codec cs) v \<noteq> None"
| "content_ok cs (Outcome i n) v \<longleftrightarrow> v = None \<or> message (out_codec cs) v \<noteq> None"

lemma content_readable:
  "content_ok cs (Config n x) v \<Longrightarrow> v = None \<or> message (cfg_codec cs) v \<noteq> None"
  "content_ok cs (Machine i n) v \<Longrightarrow> v = None \<or> message (fsm_codec cs) v \<noteq> None"
  "content_ok cs (StoredEvent i n) v \<Longrightarrow> v = None \<or> message (evt_codec cs) v \<noteq> None"
  "content_ok cs (Outcome i n) v \<Longrightarrow> v = None \<or> message (out_codec cs) v \<noteq> None"
  by (auto split: option.splits)

definition sound_db :: "codecs \<Rightarrow> database \<Rightarrow> bool" where
  "sound_db cs d \<longleftrightarrow> (\<forall>x. plain (config_name x) \<longrightarrow> content_ok cs x (d (key_of x)))"

lemma sound_dbD: "sound_db cs d \<Longrightarrow> plain (config_name x) \<Longrightarrow> content_ok cs x (d (key_of x))"
  by (simp add: sound_db_def)

lemma sound_db_upd:
  assumes "sound_db cs d" and "plain (config_name y)" and "content_ok cs y v"
  shows "sound_db cs (d(key_of y := v))"
  using assms key_of_inject by (auto simp: sound_db_def)

definition abs_db :: "codecs \<Rightarrow> database \<Rightarrow> store_state" where
  "abs_db cs d =
     \<lparr>s_names = elements (d ConfigsPrefix),
      s_versions = (\<lambda>n. if plain n then elements (d (NewKeyForConfig n)) else {||}),
      s_configs = (\<lambda>v. if version_id v then message (cfg_codec cs) (d (NewKeyForConfig v)) else None),
      s_machines = (\<lambda>(i, n).
        if plain n then message (fsm_codec cs) (d (NewKeyForMachine i n)) else None),
      s_listing = (\<lambda>(n, s). if plain n then elements (d (NewKeyForMachinesByState n s)) else {||}),
      s_events = (\<lambda>(i, n).
        if plain n then message (evt_codec cs) (d (NewKeyForEvent i n)) else None),
      s_outcomes = (\<lambda>(i, n).
        if plain n then message (out_codec cs) (d (NewKeyForOutcome i n)) else None)\<rparr>"

lemma abs_db_sels [simp]:
  "s_names (abs_db cs d) = elements (d ConfigsPrefix)"
  "plain n \<Longrightarrow> s_versions (abs_db cs d) n = elements (d (NewKeyForConfig n))"
  "version_id v \<Longrightarrow> s_configs (abs_db cs d) v = message (cfg_codec cs) (d (NewKeyForConfig v))"
  "plain n \<Longrightarrow> s_machines (abs_db cs d) (i, n) = message (fsm_codec cs) (d (NewKeyForMachine i n))"
  "plain n \<Longrightarrow> s_listing (abs_db cs d) (n, s) = elements (d (NewKeyForMachinesByState n s))"
  "plain n \<Longrightarrow> s_events (abs_db cs d) (i, n) = message (evt_codec cs) (d (NewKeyForEvent i n))"
  "plain n \<Longrightarrow> s_outcomes (abs_db cs d) (i, n) = message (out_codec cs) (d (NewKeyForOutcome i n))"
  by (simp_all add: abs_db_def)

subsection \<open>Keys that differ\<close>

lemma config_key_inject [key_simps]: "NewKeyForConfig a = NewKeyForConfig b \<longleftrightarrow> a = b"
  by (simp add: key_eqs)

lemma keys_of_kinds_differ [key_simps]:
  "ConfigsPrefix \<noteq> NewKeyForConfig a" "ConfigsPrefix \<noteq> NewKeyForMachine i n"
  "ConfigsPrefix \<noteq> NewKeyForMachinesByState n i" "ConfigsPrefix \<noteq> NewKeyForEvent i n"
  "ConfigsPrefix \<noteq> NewKeyForOutcome i n"
  "NewKeyForConfig a \<noteq> NewKeyForMachine i n" "NewKeyForConfig a \<noteq> NewKeyForMachinesByState n i"
  "NewKeyForConfig a \<noteq> NewKeyForEvent i n" "NewKeyForConfig a \<noteq> NewKeyForOutcome i n"
  "NewKeyForMachine i n \<noteq> NewKeyForEvent j m" "NewKeyForMachine i n \<noteq> NewKeyForOutcome j m"
  "NewKeyForMachinesByState n i \<noteq> NewKeyForEvent j m"
  "NewKeyForMachinesByState n i \<noteq> NewKeyForOutcome j m"
  by (simp_all add: key_eqs ConfigsPrefix_def)

lemma keys_of_plain_names [key_simps]:
  assumes "plain n" and "plain m"
  shows "NewKeyForMachine i n = NewKeyForMachine j m \<longleftrightarrow> i = j \<and> n = m"
    and "NewKeyForMachinesByState n i = NewKeyForMachinesByState m j \<longleftrightarrow> i = j \<and> n = m"
    and "NewKeyForEvent i n = NewKeyForEvent j m \<longleftrightarrow> i = j \<and> n = m"
    and "NewKeyForOutcome i n = NewKeyForOutcome j m \<longleftrightarrow> i = j \<and> n = m"
  using assms key_of_inject [of "Machine i n" "Machine j m"]
    key_of_inject [of "ByState n i" "ByState m j"] key_of_inject [of "StoredEvent i n" "StoredEvent j m"]
    key_of_inject [of "Outcome i n" "Outcome j m"]
  by auto

lemma keys_of_plain_kinds_differ [key_simps]:
  assumes "plain n" and "plain m"
  shows "NewKeyForMachine i n \<noteq> NewKeyForMachinesByState m j"
    and "NewKeyForEvent i n \<noteq> NewKeyForOutcome j m"
  using assms key_of_inject [of "Machine i n" "ByState m j"]
    key_of_inject [of "StoredEvent i n" "Outcome j m"]
  by auto

lemmas key_differs = key_simps keys_of_kinds_differ [THEN not_sym]
  keys_of_plain_kinds_differ [THEN not_sym]

lemma plain_not_version_id [simp]: "plain n \<Longrightarrow> \<not> version_id n"
  by (auto simp: plain_def version_id_def)

subsection \<open>What a write changes\<close>

lemma version_id_plain: "version_id v \<Longrightarrow> plain n \<Longrightarrow> v \<noteq> n"
  by auto

lemma abs_names:
  "abs_db cs (d(ConfigsPrefix := v)) = (abs_db cs d)\<lparr>s_names := elements v\<rparr>"
  by (simp add: abs_db_def key_differs fun_eq_iff)

lemma abs_versions:
  assumes "plain n"
  shows "abs_db cs (d(NewKeyForConfig n := v)) =
           (abs_db cs d)\<lparr>s_versions := (s_versions (abs_db cs d))(n := elements v)\<rparr>"
  using assms by (auto simp: abs_db_def key_differs fun_eq_iff)

lemma abs_config:
  assumes "version_id i"
  shows "abs_db cs (d(NewKeyForConfig i := v)) =
           (abs_db cs d)\<lparr>s_configs := (s_configs (abs_db cs d))(i := message (cfg_codec cs) v)\<rparr>"
  using assms by (auto simp: abs_db_def key_differs fun_eq_iff)

lemma abs_machine:
  assumes "plain n"
  shows "abs_db cs (d(NewKeyForMachine i n := v)) =
           (abs_db cs d)\<lparr>s_machines := (s_machines (abs_db cs d))((i, n) := message (fsm_codec cs) v)\<rparr>"
  using assms by (auto simp: abs_db_def key_differs fun_eq_iff)

lemma abs_listing:
  assumes "plain n"
  shows "abs_db cs (d(NewKeyForMachinesByState n s := v)) =
           (abs_db cs d)\<lparr>s_listing := (s_listing (abs_db cs d))((n, s) := elements v)\<rparr>"
  using assms by (auto simp: abs_db_def key_differs fun_eq_iff)

lemma abs_event:
  assumes "plain n"
  shows "abs_db cs (d(NewKeyForEvent i n := v)) =
           (abs_db cs d)\<lparr>s_events := (s_events (abs_db cs d))((i, n) := message (evt_codec cs) v)\<rparr>"
  using assms by (auto simp: abs_db_def key_differs fun_eq_iff)

lemma abs_outcome:
  assumes "plain n"
  shows "abs_db cs (d(NewKeyForOutcome i n := v)) =
           (abs_db cs d)\<lparr>s_outcomes := (s_outcomes (abs_db cs d))((i, n) := message (out_codec cs) v)\<rparr>"
  using assms by (auto simp: abs_db_def key_differs fun_eq_iff)

lemma remove_member_upd:
  assumes "\<not> holds_string (d k)"
  shows "\<exists>v. remove_member k m d = d(k := v) \<and> elements v = elements (d k) |-| {|m|} \<and> \<not> holds_string v"
proof (cases "holds_set (d k)")
  case True
  then show ?thesis by (cases "d k" rule: holds_set.cases) (auto simp: remove_member_def)
next
  case False
  with assms have "d k = None" by (cases "d k" rule: holds_set.cases) auto
  then show ?thesis by (intro exI [of _ None]) (simp add: remove_member_def fun_upd_idem)
qed

text \<open>Listing a machine under a state, and the whole move.\<close>

lemma sound_listing: "sound_db cs d \<Longrightarrow> plain n \<Longrightarrow> \<not> holds_string (d (NewKeyForMachinesByState n s))"
  using sound_dbD [of cs d "ByState n s"] by simp

lemma left_state_refines:
  assumes "sound_db cs d" and "plain n"
  shows "sound_db cs (left_state n i s d) \<and> abs_db cs (left_state n i s d) = unlist n i s (abs_db cs d)"
proof (cases "s = ''''")
  case False
  let ?k = "NewKeyForMachinesByState n s"
  obtain v where v: "remove_member ?k i d = d(?k := v)" "elements v = elements (d ?k) |-| {|i|}"
      "\<not> holds_string v"
    using remove_member_upd [of d ?k i] sound_listing [OF assms] by blast
  have "sound_db cs (d(?k := v))"
    using sound_db_upd [OF assms(1), of "ByState n s" v] assms(2) v(3) by simp
  moreover have "abs_db cs (d(?k := v)) = unlist n i s (abs_db cs d)"
    using False assms(2) v(2) by (simp add: abs_listing unlist_def)
  ultimately show ?thesis using False v(1) by (simp add: left_state_def)
qed (use assms in \<open>simp add: left_state_def unlist_def\<close>)

lemma entered_state_refines:
  assumes "sound_db cs d" and "plain n"
  shows "sound_db cs (entered_state n i s d) \<and> abs_db cs (entered_state n i s d) = enlist n i s (abs_db cs d)"
  using assms sound_db_upd [OF assms(1), of "ByState n s"]
  by (simp add: entered_state_def add_member_def enlist_def abs_listing)

lemma moved_refines:
  assumes "sound_db cs d" and "plain n"
  shows "sound_db cs (moved n i old new d) \<and>
         abs_db cs (moved n i old new d) = relist n i old new (abs_db cs d)"
  using left_state_refines [OF assms] entered_state_refines [of cs "left_state n i old d"] assms(2)
  by (simp add: moved_def relist_def)

lemma sound_config_None:
  assumes "sound_db cs d" and "plain (cfg_Name c)"
  shows "d (NewKeyForConfig (GetVersionId c)) = None \<longleftrightarrow> s_configs (abs_db cs d) (GetVersionId c) = None"
  using content_readable(1) [OF sound_dbD [OF assms(1), of "Config (cfg_Name c) (cfg_Version c)"]]
    assms(2) version_id_GetVersionId [OF assms(2)]
  by (auto simp: GetVersionId_def)

section \<open>The operations over a server that answers\<close>

locale reliable_store = redis_store rc rt view cs csm + reliable_redis rc rt view
  for rc :: "'w redis_client" and rt :: "'w go_runtime" and view :: "'w \<Rightarrow> redis_view"
    and cs :: codecs and csm :: "'w RedisStore"
begin

abbreviation sound :: "'w \<Rightarrow> bool" where
  "sound w \<equiv> sound_db cs (db w)"

abbreviation st :: "'w \<Rightarrow> store_state" where
  "st w \<equiv> abs_db cs (db w)"

subsection \<open>get and put\<close>

lemma get_reliable:
  assumes "RedisStore_get rt c csm key w = (r, w')"
    and "db w key = None \<or> message c (db w key) \<noteq> None"
  shows "view w' = view w \<and>
         r = (case message c (db w key) of None \<Rightarrow> Inl (NotFoundError key) | Some x \<Rightarrow> Inr x)"
proof -
  obtain g x w1 where call: "rdb_Get rc key (rs_Timeout csm) w = (g, x, w1)"
    using prod_cases3 by blast
  have "\<not> holds_set (db w key)" using assms(2) by (cases "db w key" rule: holds_set.cases) auto
  from get_ok [OF call this] get_law [OF call]
  have "view w1 = view w" and "g = Inl RedisNil \<and> db w key = None \<or>
      (\<exists>b. g = Inr b \<and> db w key = Some (RString b))"
    by auto
  then show ?thesis
    using assms call unfolding RedisStore_get_def
    by (subst (asm) get_loop.simps) (auto simp: client message_Some)
qed

lemma put_reliable:
  assumes "RedisStore_put rt c csm key val NeverExpire w = (e, w')"
  shows "case marshal c val of
           Inl err \<Rightarrow> e = Some (InvalidDataError (Error_text err)) \<and> w' = w
         | Inr b \<Rightarrow> e = None \<and> db w' = (db w)(key := Some (RString b))"
proof (cases "marshal c val")
  case (Inl err)
  then show ?thesis
    using assms unfolding RedisStore_put_def by (subst (asm) put_loop.simps) auto
next
  case (Inr data)
  obtain g x w1 where call: "rdb_Set rc key data 0 (rs_Timeout csm) w = (g, x, w1)"
    using prod_cases3 by blast
  from set_ok [OF call] set_law [OF call]
  have "g = None" and "db w1 = (db w)(key := Some (RString data))"
    by (auto simp: set_string_def)
  then show ?thesis
    using assms call Inr unfolding RedisStore_put_def NeverExpire_def
    by (subst (asm) put_loop.simps) (auto simp: client)
qed

text \<open>Looking up an object that a sound database holds.\<close>

lemma get_object:
  assumes "RedisStore_get rt c csm k w = (r, w')" and "sound w" and "plain (config_name x)"
    and "\<And>v. content_ok cs x v \<Longrightarrow> v = None \<or> message c v \<noteq> None" and "k = key_of x"
  shows "view w' = view w \<and>
         r = (case message c (db w k) of None \<Rightarrow> Inl (NotFoundError k) | Some x \<Rightarrow> Inr x)"
  using assms sound_dbD [OF assms(2,3)] by (intro get_reliable) auto

lemma put_object:
  assumes "RedisStore_put rt c csm (key_of x) val NeverExpire w = (e, w')" and "sound w"
    and "plain (config_name x)" and "faithful c"
    and "\<And>v. message c v = Some val \<Longrightarrow> content_ok cs x v"
  shows "sound w' \<and>
         (if \<exists>b. marshal c val = Inr b
          then e = None \<and> (\<exists>v. message c v = Some val \<and> db w' = (db w)(key_of x := v))
          else (\<exists>y. e = Some (InvalidDataError y)) \<and> w' = w)"
proof (cases "marshal c val")
  case (Inl err)
  then show ?thesis using put_reliable [OF assms(1)] assms(2) by auto
next
  case (Inr b)
  then have m: "message c (Some (RString b)) = Some val" using assms(4) by (simp add: faithfulD)
  have "db w' = (db w)(key_of x := Some (RString b))" and "e = None"
    using put_reliable [OF assms(1)] Inr by simp_all
  then show ?thesis using Inr m sound_db_upd [OF assms(2,3) assms(5) [OF m]] by auto
qed

subsection \<open>Configurations\<close>

lemma GetConfig_reliable:
  assumes "RedisStore_GetConfig rt cs csm v w = (g, w')" and "sound w" and "version_id v"
  shows "view w' = view w \<and>
    g = (case s_configs (st w) v of None \<Rightarrow> Inl (NotFoundError (NewKeyForConfig v)) | Some c \<Rightarrow> Inr c)"
proof -
  obtain n x where v: "v = n @ CHR '':'' # x" "plain n" using assms(3) by (auto simp: version_id_iff)
  then have k: "NewKeyForConfig v = key_of (Config n x)" by (simp add: ConfigurationVersionSeparator_def)
  from assms(1) have "RedisStore_get rt (cfg_codec cs) csm (NewKeyForConfig v) w = (g, w')"
    by (simp only: RedisStore_GetConfig_def)
  from get_object [OF this assms(2) _ content_readable(1) k] v(2) assms(3) show ?thesis by simp
qed

lemma sadd_reliable:
  assumes "rdb_SAdd rc k m w = (e, w')" and "\<not> holds_string (db w k)"
  shows "e = None \<and> db w' = (db w)(k := Some (RSet (finsert m (elements (db w k)))))"
proof -
  have "e = None" using sadd_ok [OF assms] .
  with sadd_law [OF assms(1)] have "view w' = changed k (add_member k m (db w)) (view w)" by blast
  with \<open>e = None\<close> show ?thesis by (simp add: add_member_def)
qed

lemma exists_reliable:
  assumes "rdb_Exists rc k w = (c, w')"
  shows "view w' = view w \<and> Val c = (if db w k = None then 0 else 1)"
proof -
  obtain i where "c = Inr i" using exists_ok [OF assms] by blast
  with exists_law [OF assms] show ?thesis by (simp add: Val_def)
qed

lemma members_reliable:
  assumes "members_or_nil (rdb_SMembers rc k w) = (l, w')" and "\<not> holds_string (db w k)"
  shows "view w' = view w \<and> fset_of_list l = elements (db w k) \<and> distinct l"
proof -
  obtain m w1 where call: "rdb_SMembers rc k w = (m, w1)" by fastforce
  obtain xs where "m = Inr xs" using smembers_ok [OF call assms(2)] by blast
  with smembers_law [OF call] assms(1) call show ?thesis by (simp add: members_or_nil_def)
qed

lemma GetAllConfigs_reliable:
  assumes "RedisStore_GetAllConfigs csm w = (l, w')" and "sound w"
  shows "view w' = view w \<and> fset_of_list l = s_names (st w) \<and> distinct l"
  using assms sound_dbD [OF assms(2), of ConfigNames]
  by (simp add: RedisStore_GetAllConfigs_def client members_reliable plain_def)

lemma GetAllVersions_reliable:
  assumes "RedisStore_GetAllVersions csm n w = (l, w')" and "sound w" and "plain n"
  shows "view w' = view w \<and> fset_of_list l = s_versions (st w) n \<and> distinct l"
  using assms sound_dbD [OF assms(2), of "Versions n"]
  by (simp add: RedisStore_GetAllVersions_def client members_reliable)

text \<open>The two sets are updated before the configuration is stored.\<close>

lemma PutConfig_sets:
  assumes "rdb_SAdd rc ConfigsPrefix (cfg_Name c) w = (e1, w1)"
    and "rdb_SAdd rc (NewKeyForConfig (cfg_Name c)) (GetVersionId c) w1 = (e2, w2)"
    and "sound w" and "plain (cfg_Name c)"
  shows "sound w2 \<and>
    st w2 = (st w)\<lparr>s_names := finsert (cfg_Name c) (s_names (st w)),
       s_versions := (s_versions (st w))(cfg_Name c := finsert (GetVersionId c) (s_versions (st w) (cfg_Name c)))\<rparr> \<and>
    s_configs (st w2) = s_configs (st w)"
proof -
  let ?n = "cfg_Name c"
  have h: "\<not> holds_string (db w ConfigsPrefix)" "\<not> holds_string (db w (NewKeyForConfig ?n))"
    using sound_dbD [OF assms(3), of ConfigNames] sound_dbD [OF assms(3), of "Versions ?n"] assms(4)
    by (simp_all add: plain_def)
  have d1: "db w1 = (db w)(ConfigsPrefix := Some (RSet (finsert ?n (elements (db w ConfigsPrefix)))))"
    using sadd_reliable [OF assms(1) h(1)] by simp
  have d2: "db w2 = (db w1)(NewKeyForConfig ?n :=
      Some (RSet (finsert (GetVersionId c) (elements (db w (NewKeyForConfig ?n))))))"
    using sadd_reliable [OF assms(2)] h(2) d1 by (simp add: key_differs)
  have "sound w1"
    unfolding d1 using sound_db_upd [OF assms(3), of ConfigNames] by (simp add: plain_def)
  then have "sound w2"
    unfolding d2 using sound_db_upd [of cs "db w1" "Versions ?n"] assms(4) by simp
  then show ?thesis
    unfolding d2 d1 using assms(4) by (simp add: abs_versions abs_names)
qed

lemma PutConfig_reliable:
  assumes "RedisStore_PutConfig rt cs csm (Some c) w = (e, w')" and "sound w" and "plain (cfg_Name c)"
  shows "sound w' \<and>
      (if s_configs (st w) (GetVersionId c) \<noteq> None
       then e = Some (AlreadyExistsError (NewKeyForConfig (GetVersionId c))) \<and> st w' = st w
       else if \<exists>b. marshal (cfg_codec cs) c = Inr b then e = None \<and> st w' = add_config c (st w)
       else (\<exists>x. e = Some (InvalidDataError x)) \<and>
         (\<exists>ns vs. st w' = (st w)\<lparr>s_names := ns, s_versions := vs\<rparr>))"
proof -
  let ?v = "GetVersionId c"
  let ?x = "Config (cfg_Name c) (cfg_Version c)"
  have v: "version_id ?v" using assms(3) by (rule version_id_GetVersionId)
  have k: "NewKeyForConfig ?v = key_of ?x" by (simp add: GetVersionId_def)
  obtain m w0 where ex: "rdb_Exists rc (NewKeyForConfig ?v) w = (m, w0)" by fastforce
  obtain e1 w1 where s1: "rdb_SAdd rc ConfigsPrefix (cfg_Name c) w0 = (e1, w1)" by fastforce
  obtain e2 w2 where s2: "rdb_SAdd rc (NewKeyForConfig (cfg_Name c)) ?v w1 = (e2, w2)" by fastforce
  note ex' = exists_reliable [OF ex]
  note ok = sound_config_None [OF assms(2,3)]
  have "sound w0" using ex' assms(2) by simp
  note sets = PutConfig_sets [OF s1 s2 this assms(3)]
  show ?thesis
  proof (cases "s_configs (st w) ?v = None")
    case False
    then show ?thesis
      using assms(1,2) ex ex' ok by (auto simp: RedisStore_PutConfig_def Let_def client)
  next
    case True
    then have put: "RedisStore_put rt (cfg_codec cs) csm (key_of ?x) c NeverExpire w2 = (e, w')"
      using assms(1) ex s1 s2 ex' ok by (simp add: RedisStore_PutConfig_def Let_def client k)
    note spec = put_object [OF put conjunct1 [OF sets] _ cfg_faithful, simplified k [symmetric]]
    have "add_config c (st w) = (st w2)\<lparr>s_configs := (s_configs (st w2))(?v \<mapsto> c)\<rparr>"
      using sets ex' by (simp add: add_config_def)
    then show ?thesis
      using True spec assms(3) sets ex' v by (auto simp: abs_config)
  qed
qed

subsection \<open>State machines\<close>

lemma GetStateMachine_reliable:
  assumes "RedisStore_GetStateMachine rt cs csm i n w = (f, w')" and "sound w" and "plain n"
  shows "view w' = view w \<and>
    f = (case s_machines (st w) (i, n) of None \<Rightarrow> Inl (NotFoundError (NewKeyForMachine i n)) | Some m \<Rightarrow> Inr m)"
  using get_object [OF assms(1) [unfolded RedisStore_GetStateMachine_def] assms(2) _ _ key_of.simps(4) [symmetric],
      OF _ content_readable(2)] assms(3) by simp

lemma PutStateMachine_reliable:
  assumes "RedisStore_PutStateMachine rt cs csm i (Some m) w = (e, w')" and "sound w"
    and "version_id (fsm_ConfigId m)"
  shows "sound w' \<and>
      (if \<exists>b. marshal (fsm_codec cs) m = Inr b then e = None \<and> st w' = put_machine i m (st w)
       else (\<exists>x. e = Some (InvalidDataError x)) \<and> st w' = st w)"
proof -
  let ?n = "hd (Split (fsm_ConfigId m) CHR '':'')"
  have n: "plain ?n" using assms(3) by (simp add: version_id_def)
  have put: "RedisStore_put rt (fsm_codec cs) csm (key_of (Machine i ?n)) m NeverExpire w = (e, w')"
    using assms(1) by (simp add: RedisStore_PutStateMachine_def Let_def)
  have "content_ok cs (Machine i ?n) v" if "message (fsm_codec cs) v = Some m" for v
    using that assms(3) by simp
  from put_object [OF put assms(2) _ fsm_faithful this] n show ?thesis
    by (auto simp: abs_machine put_machine_def)
qed

lemma GetAllInState_reliable:
  assumes "RedisStore_GetAllInState csm n s w = (l, w')" and "sound w" and "plain n"
  shows "view w' = view w \<and> fset_of_list l = s_listing (st w) (n, s) \<and> distinct l"
  using assms sound_listing [OF assms(2,3)]
  by (simp add: RedisStore_GetAllInState_def client members_reliable)

lemma UpdateState_ok:
  assumes "RedisStore_UpdateState csm n i old new w = (e, w')" and "sound w" and "plain n"
  shows "e = None"
proof -
  obtain e1 w1 where c1: "(if old \<noteq> '''' then rdb_SRem rc (NewKeyForMachinesByState n old) i w
      else (None, w)) = (e1, w1)"
    by fastforce
  obtain e2 w2 where c2: "(if new \<noteq> '''' then rdb_SAdd rc (NewKeyForMachinesByState n new) i w1
      else (None, w1)) = (e2, w2)"
    by fastforce
  have "e1 = None"
    using c1 srem_ok sound_listing [OF assms(2,3)] by (auto split: if_splits)
  then have "db w1 = left_state n i old (db w)" using leave_cases [OF c1] by blast
  then have "sound w1" using left_state_refines [OF assms(2,3)] by simp
  then have "e2 = None"
    using c2 sadd_ok sound_listing [OF _ assms(3)] by (auto split: if_splits)
  with \<open>e1 = None\<close> show ?thesis
    using assms(1) c1 c2
    by (auto simp: RedisStore_UpdateState_def client split: if_splits option.splits prod.splits)
qed

lemma UpdateState_reliable:
  assumes "RedisStore_UpdateState csm n i old new w = (e, w')" and "sound w" and "plain n"
  shows "sound w' \<and> e = None \<and> st w' = relist n i old new (st w)"
  using UpdateState_ok [OF assms] UpdateState_spec [OF assms(1)] moved_refines [OF assms(2,3)] by auto

subsection \<open>Events and outcomes\<close>

lemma GetEvent_reliable:
  assumes "RedisStore_GetEvent rt cs csm i n w = (g, w')" and "sound w" and "plain n"
  shows "view w' = view w \<and>
    g = (case s_events (st w) (i, n) of None \<Rightarrow> Inl (NotFoundError (NewKeyForEvent i n)) | Some e \<Rightarrow> Inr e)"
  using get_object [OF assms(1) [unfolded RedisStore_GetEvent_def] assms(2) _ _ key_of.simps(6) [symmetric],
      OF _ content_readable(3)] assms(3) by simp

lemma GetOutcomeForEvent_reliable:
  assumes "RedisStore_GetOutcomeForEvent rt cs csm i n w = (g, w')" and "sound w" and "plain n"
  shows "view w' = view w \<and>
    g = (case s_outcomes (st w) (i, n) of None \<Rightarrow> Inl (NotFoundError (NewKeyForOutcome i n)) | Some r \<Rightarrow> Inr r)"
  using get_object [OF assms(1) [unfolded RedisStore_GetOutcomeForEvent_def] assms(2) _ _ key_of.simps(7) [symmetric],
      OF _ content_readable(4)] assms(3) by simp

lemma PutEvent_reliable:
  assumes "RedisStore_PutEvent rt cs csm (Some v) n NeverExpire w = (e, w')" and "sound w" and "plain n"
  shows "sound w' \<and>
      (if \<exists>b. marshal (evt_codec cs) v = Inr b
       then e = None \<and> st w' = (st w)\<lparr>s_events := (s_events (st w))((evt_EventId v, n) \<mapsto> v)\<rparr>
       else (\<exists>x. e = Some (InvalidDataError x)) \<and> st w' = st w)"
proof -
  have put: "RedisStore_put rt (evt_codec cs) csm (key_of (StoredEvent (evt_EventId v) n)) v NeverExpire w = (e, w')"
    using assms(1) by (simp add: RedisStore_PutEvent_def)
  from put_object [OF put assms(2) _ evt_faithful] assms(3) show ?thesis
    by (auto simp: abs_event)
qed

lemma AddEventOutcome_reliable:
  assumes "RedisStore_AddEventOutcome rt cs csm i n (Some v) NeverExpire w = (e, w')" and "sound w" and "plain n"
  shows "sound w' \<and>
      (if \<exists>b. marshal (out_codec cs) v = Inr b
       then e = None \<and> st w' = (st w)\<lparr>s_outcomes := (s_outcomes (st w))((i, n) \<mapsto> v)\<rparr>
       else (\<exists>x. e = Some (InvalidDataError x)) \<and> st w' = st w)"
proof -
  have put: "RedisStore_put rt (out_codec cs) csm (key_of (Outcome i n)) v NeverExpire w = (e, w')"
    using assms(1) by (simp add: RedisStore_AddEventOutcome_def)
  from put_object [OF put assms(2) _ out_faithful] assms(3) show ?thesis
    by (auto simp: abs_outcome)
qed

lemma Health_reliable: "RedisStore_Health csm w = (e, w') \<Longrightarrow> view w' = view w \<and> e = None"
  using ping_ok ping_view
  by (auto simp: RedisStore_Health_def client split: prod.splits option.splits)

subsection \<open>Processing an event\<close>

lemma tx_commit_reliable:
  assumes "tx_commit cs csm i n old m w = (r, w')" and "v_queue (view w) = []" and "\<not> v_dirty (view w)"
    and "v_watch (view w) = Some (NewKeyForMachine i n)" and "sound w" and "plain n"
  shows "case marshal (fsm_codec cs) m of
           Inl err \<Rightarrow> r = Ret (Some (InvalidDataError (Error_text err))) \<and> w' = w
         | Inr b \<Rightarrow> r = Ret None \<and> \<not> v_dirty (view w')"
proof (cases "marshal (fsm_codec cs) m")
  case (Inl err)
  then show ?thesis using assms(1) by (simp add: tx_commit_def)
next
  case (Inr data)
  obtain e1 w1 where p: "pipe_Set rc (NewKeyForMachine i n) data 0 w = (e1, w1)" by fastforce
  obtain e2 w2 where u: "RedisStore_UpdateState csm n i old (fsm_State m) w1 = (e2, w2)" by fastforce
  have "e1 = None" using pipe_ok [OF p] .
  then have v1: "view w1 = (view w)\<lparr>v_queue := v_queue (view w) @ [(NewKeyForMachine i n, data)]\<rparr>"
    using pipe_law [OF p] by simp
  then have "e2 = None" using UpdateState_ok [OF u] assms(5,6) by simp
  moreover have "\<not> v_dirty (view w2)"
    using UpdateState_spec [OF u] v1 assms(3,4,6) machine_key_other [of n i]
    by (auto simp: same_tx_def state_keys_def)
  ultimately show ?thesis
    using assms(1) Inr p u \<open>e1 = None\<close> by (auto simp: tx_commit_def client NeverExpire_def)
qed

lemma TxPipelined_reliable:
  assumes "rdb_TxPipelined rc t0 (tx_commit cs csm i n old m) w = (r, w')"
    and "\<not> v_dirty (view w)" and "v_watch (view w) = Some (NewKeyForMachine i n)"
    and "sound w" and "plain n"
  shows "case marshal (fsm_codec cs) m of
           Inl err \<Rightarrow> r = Ret (Some (InvalidDataError (Error_text err))) \<and> db w' = db w
         | Inr b \<Rightarrow> r = Ret None \<and>
             db w' = (moved n i old (fsm_State m) (db w))(NewKeyForMachine i n := Some (RString b))"
proof -
  obtain w1 w2 r1 where w1: "view w1 = (view w)\<lparr>v_queue := []\<rparr>"
    and c: "tx_commit cs csm i n old m w1 = (r1, w2)"
    and law: "if r1 \<noteq> Ret None then r = r1 \<and> db w' = db w2
         else if v_dirty (view w2) then r = Ret (Some TxFailedErr) \<and> db w' = db w2
         else r = Ret None \<and> db w' = run_queue (v_queue (view w2)) (db w2)"
    using tx_ok [OF assms(1)] by blast
  have q: "v_queue (view w1) = []" and "\<not> v_dirty (view w1)"
    and "v_watch (view w1) = Some (NewKeyForMachine i n)" and "sound w1"
    using w1 assms(2-4) by simp_all
  note one = tx_commit_reliable [OF c this assms(5)]
  note spec = tx_commit_spec [OF c q]
  show ?thesis
  proof (cases "marshal (fsm_codec cs) m")
    case (Inl err)
    then show ?thesis using one law w1 by auto
  next
    case (Inr b)
    then have "r1 = Ret None" "\<not> v_dirty (view w2)" using one by simp_all
    moreover from this spec Inr w1 have "db w2 = moved n i old (fsm_State m) (db w)"
        "v_queue (view w2) = [(NewKeyForMachine i n, b)]"
      by auto
    ultimately show ?thesis using law Inr by (simp add: run_queue_def set_string_def)
  qed
qed

end

lemma relist_machines:
  "relist n i old new (s\<lparr>s_machines := f\<rparr>) = (relist n i old new s)\<lparr>s_machines := f\<rparr>"
  "s_machines (relist n i old new s) = s_machines s"
  by (simp_all add: relist_def enlist_def unlist_def)

lemma SendEvent_config_id:
  "SendEvent x evt = Ret (err, y) \<Longrightarrow> fsm_ConfigId (csm_FSM y) = fsm_ConfigId (csm_FSM x)"
  by (erule SendEvent_cases) auto

context reliable_store
begin

abbreviation can_store :: "FiniteStateMachine \<Rightarrow> bool" where
  "can_store m \<equiv> \<exists>b. marshal (fsm_codec cs) m = Inr b"

lemma sound_machine:
  assumes "sound w" and "plain n" and "s_machines (st w) (i, n) = Some m"
  shows "version_id (fsm_ConfigId m) \<and> hd (Split (fsm_ConfigId m) CHR '':'') = n"
  using sound_dbD [OF assms(1), of "Machine i n"] assms(2,3) by auto

lemma txf_commit:
  assumes m: "s_machines (st w) (i, n) = Some m" and c: "s_configs (st w) (fsm_ConfigId m) = Some c"
    and x: "SendEvent \<lparr>csm_Config = c, csm_FSM = m\<rparr> evt = Ret (None, x)"
    and tx: "rdb_TxPipelined rc t0 (tx_commit cs csm i n (fsm_State m) (csm_FSM x)) w = (r, w')"
    and w: "\<not> v_dirty (view w)" "v_watch (view w) = Some (NewKeyForMachine i n)" "sound w" "plain n"
  shows "sound w' \<and> process can_store i n evt (st w) (r, st w') \<and> r \<noteq> Ret (Some TxFailedErr)"
proof (cases "marshal (fsm_codec cs) (csm_FSM x)")
  case (Inl err)
  then show ?thesis using TxPipelined_reliable [OF tx w] w m c x by (auto simp: process_def)
next
  case (Inr b)
  let ?d = "moved n i (fsm_State m) (fsm_State (csm_FSM x)) (db w)"
  have r: "r = Ret None" and d: "db w' = ?d(NewKeyForMachine i n := Some (RString b))"
    using TxPipelined_reliable [OF tx w] Inr by simp_all
  have msg: "message (fsm_codec cs) (Some (RString b)) = Some (csm_FSM x)"
    using faithfulD [OF fsm_faithful Inr] by simp
  note mv = moved_refines [OF w(3,4), of i "fsm_State m" "fsm_State (csm_FSM x)"]
  have "content_ok cs (Machine i n) (Some (RString b))"
    using msg SendEvent_config_id [OF x] sound_machine [OF w(3,4) m] by simp
  then have "sound w'"
    using sound_db_upd [OF conjunct1 [OF mv], of "Machine i n"] w(4) d by simp
  moreover have "st w' = relist n i (fsm_State m) (fsm_State (csm_FSM x))
      ((st w)\<lparr>s_machines := (s_machines (st w))((i, n) \<mapsto> csm_FSM x)\<rparr>)"
    using d mv w(4) msg by (simp add: abs_machine relist_machines)
  ultimately show ?thesis using r m c x Inr by (auto simp: process_def)
qed

lemma txf_reliable:
  assumes "txf rt cs csm i n evt w = (r, w')"
    and "\<not> v_dirty (view w)" and "v_watch (view w) = Some (NewKeyForMachine i n)"
    and "sound w" and "plain n"
  shows "sound w' \<and> process can_store i n evt (st w) (r, st w') \<and> r \<noteq> Ret (Some TxFailedErr)"
proof -
  obtain g w1 where g: "RedisStore_GetStateMachine rt cs csm i n w = (g, w1)" by fastforce
  note gm = GetStateMachine_reliable [OF g assms(4,5)]
  show ?thesis
  proof (cases "s_machines (st w) (i, n)")
    case None
    then show ?thesis using assms(1,4) g gm by (auto simp: txf_def process_def)
  next
    case (Some m)
    obtain g2 w2 where c: "RedisStore_GetConfig rt cs csm (fsm_ConfigId m) w1 = (g2, w2)" by fastforce
    have "version_id (fsm_ConfigId m)" using sound_machine [OF assms(4,5) Some] by simp
    with gm assms(4) GetConfig_reliable [OF c]
    have v2: "view w2 = view w" and gc: "g2 = (case s_configs (st w) (fsm_ConfigId m) of
        None \<Rightarrow> Inl (NotFoundError (NewKeyForConfig (fsm_ConfigId m))) | Some c \<Rightarrow> Inr c)"
      by auto
    show ?thesis
    proof (cases "s_configs (st w) (fsm_ConfigId m)")
      case None
      then show ?thesis using assms(1,4) g gm c gc v2 Some by (auto simp: txf_def process_def)
    next
      case (Some cfg)
      let ?x = "\<lparr>csm_Config = cfg, csm_FSM = m\<rparr>"
      have run: "txf rt cs csm i n evt w =
          (case SendEvent ?x evt of
             Panic \<Rightarrow> (Panic, w2)
           | Ret (Some err, x) \<Rightarrow> (Ret (Some err), w2)
           | Ret (None, x) \<Rightarrow>
               rdb_TxPipelined (rs_client csm) DefaultTimeout
                 (tx_commit cs csm i n (fsm_State m) (csm_FSM x)) w2)"
        using g gm c gc Some \<open>s_machines (st w) (i, n) = Some m\<close> by (simp add: txf_def)
      show ?thesis
      proof (cases "\<exists>x. SendEvent ?x evt = Ret (None, x)")
        case False
        then show ?thesis
          using assms(1,4) v2 Some \<open>s_machines (st w) (i, n) = Some m\<close> unfolding run
          by (auto simp: process_def elim!: SendEvent_cases split: go.splits prod.splits option.splits)
      next
        case True
        then obtain x where x: "SendEvent ?x evt = Ret (None, x)" by blast
        have "rdb_TxPipelined rc DefaultTimeout (tx_commit cs csm i n (fsm_State m) (csm_FSM x)) w2 = (r, w')"
          using assms(1) x unfolding run client by simp
        from txf_commit [OF _ _ x this] v2 assms(2-5) Some \<open>s_machines (st w) (i, n) = Some m\<close>
        show ?thesis by simp
      qed
    qed
  qed
qed

lemma TxProcessEvent_reliable:
  assumes "RedisStore_TxProcessEvent rt cs csm i n evt w = (r, w')" and "sound w" and "plain n"
  shows "sound w' \<and> process can_store i n evt (st w) (r, st w')"
proof -
  obtain r1 w1 where call: "rdb_Watch rc DefaultTimeout (NewKeyForMachine i n)
      (txf rt cs csm i n evt) w = (r1, w1)" by fastforce
  obtain v u where v: "view v = started (NewKeyForMachine i n) (view w)"
    and u: "txf rt cs csm i n evt v = (r1, u)" and w1: "view w1 = finished (view u)"
    using watch_ok [OF call] by blast
  have "sound u \<and> process can_store i n evt (st v) (r1, st u) \<and> r1 \<noteq> Ret (Some TxFailedErr)"
    using txf_reliable [OF u] v assms(2,3) by simp
  moreover from this have "r = r1" and "w' = w1"
    using assms(1) call
    by (simp_all add: RedisStore_TxProcessEvent_def DefaultMaxRetries_def numeral_3_eq_3 client)
  ultimately show ?thesis using v w1 by simp
qed

end

section \<open>The contract holds\<close>

text \<open>Which messages a codec can write.\<close>

definition can_marshal :: "'a codec \<Rightarrow> 'a \<Rightarrow> bool" where
  "can_marshal c x \<longleftrightarrow> (case marshal c x of Inl e \<Rightarrow> False | Inr b \<Rightarrow> True)"

lemma can_marshal_iff: "can_marshal c x \<longleftrightarrow> (\<exists>b. marshal c x = Inr b)"
  by (auto simp: can_marshal_def split: sum.splits)

lemma can_marshal_eq: "can_marshal c = (\<lambda>x. \<exists>b. marshal c x = Inr b)"
  by (simp add: fun_eq_iff can_marshal_iff)

sublocale reliable_store \<subseteq> manager: store_manager "RedisStore_manager rt cs csm" rt
    "\<lambda>w. abs_db cs (v_db (view w))" "\<lambda>w. sound_db cs (v_db (view w))"
    "can_marshal (cfg_codec cs)" "can_marshal (fsm_codec cs)" "can_marshal (evt_codec cs)"
    "can_marshal (out_codec cs)"
proof (unfold_locales, goal_cases)
  case (3 w v c)
  then have "version_id v" by (auto simp: abs_db_def split: if_splits)
  then obtain n x where v: "v = n @ CHR '':'' # x" "plain n" by (auto simp: version_id_iff)
  have "content_ok cs (Config n x) (v_db (view w) (NewKeyForConfig v))"
    using sound_dbD [OF 3(1), of "Config n x"] v by (simp add: ConfigurationVersionSeparator_def)
  with 3 v \<open>version_id v\<close> show ?case by (auto simp: GetVersionId_eq)
next
  case (4 w i n m)
  then have "plain n" by (auto simp: abs_db_def split: if_splits)
  with sound_machine 4 show ?case by blast
next
  case (5 v w g w')
  then show ?case using GetConfig_reliable [of v w g w'] by (simp add: RedisStore_manager_def)
next
  case (6 c w e w')
  then show ?case using PutConfig_reliable by (simp add: RedisStore_manager_def can_marshal_iff)
next
  case (10 i m w e w')
  then show ?case using PutStateMachine_reliable by (simp add: RedisStore_manager_def can_marshal_iff)
next
  case (12 n i old new w e w')
  then show ?case using UpdateState_reliable by (simp add: RedisStore_manager_def)
next
  case (13 i n evt w r w')
  then show ?case using TxProcessEvent_reliable by (simp add: RedisStore_manager_def can_marshal_eq)
next
  case (15 ev n w e w')
  then show ?case using PutEvent_reliable by (simp add: RedisStore_manager_def can_marshal_iff)
next
  case (17 i n out w e w')
  then show ?case using AddEventOutcome_reliable by (simp add: RedisStore_manager_def can_marshal_iff)
next
  case (7 w l w')
  then show ?case using GetAllConfigs_reliable [of w l w'] by (simp add: RedisStore_manager_def)
next
  case (8 n w l w')
  then show ?case using GetAllVersions_reliable [of n w l w'] by (simp add: RedisStore_manager_def)
next
  case (9 i n w f w')
  then show ?case using GetStateMachine_reliable [of i n w f w'] by (simp add: RedisStore_manager_def)
next
  case (11 n s w l w')
  then show ?case using GetAllInState_reliable [of n s w l w'] by (simp add: RedisStore_manager_def)
next
  case (14 i n w ge w')
  then show ?case using GetEvent_reliable [of i n w ge w'] by (simp add: RedisStore_manager_def)
next
  case (18 i n w go w')
  then show ?case using GetOutcomeForEvent_reliable [of i n w go w'] by (simp add: RedisStore_manager_def)
next
  case (19 w e w')
  then show ?case using Health_reliable [of w e w'] by (simp add: RedisStore_manager_def)
qed (simp_all add: RedisStore_manager_def RedisStore_PutEvent_def uuid_view now_view)

context reliable_store
begin

lemmas refines = manager.store_manager_axioms

end

section \<open>Properties of the store\<close>

text \<open>The store over a server in memory that always answers, and an empty database.\<close>

definition mem_store :: "mem RedisStore" where
  "mem_store = \<lparr>rs_client = mem_client, rs_Timeout = 1, rs_MaxRetries = 3\<rparr>"

definition mem_world :: "database \<Rightarrow> mem" where
  "mem_world d = \<lparr>mem_view = start_view d, mem_tick = 0\<rparr>"

interpretation mem_store: reliable_store mem_client mem_runtime mem_view plain_codecs mem_store
proof (intro reliable_store.intro redis_store.intro redis_store_axioms.intro)
  show "reliable_redis mem_client (mem_runtime :: mem go_runtime) mem_view" by (rule mem_reliable)
  then show "redis_server mem_client (mem_runtime :: mem go_runtime) mem_view"
    by (rule reliable_redis.axioms(1))
  show "wire plain_codecs" by (rule plain.wire_axioms)
qed (simp add: mem_store_def)

lemma sound_db_empty: "sound_db cs Map.empty"
proof -
  have "content_ok cs x None" for x by (cases x) auto
  then show ?thesis by (simp add: sound_db_def)
qed

lemma sound_mem_world [simp]: "sound_db cs (v_db (mem_view (mem_world Map.empty)))"
  by (simp add: mem_world_def start_view_def sound_db_empty)

lemma lander_plain [simp]: "plain (cfg_Name lander_cfg)" "GetVersionId lander_cfg = ''rover:v2''"
  by (simp_all add: lander_cfg_def plain_def GetVersionId_eq)

text \<open>
  Storing a configuration, over a server that answers: when no configuration has its id,
  \<^verbatim>\<open>PutConfig\<close> succeeds, \<^verbatim>\<open>GetConfig\<close> then returns it, its name is among \<^verbatim>\<open>GetAllConfigs\<close> and its id
  among \<^verbatim>\<open>GetAllVersions\<close> of its name; the database stays well formed. When the id is taken,
  \<^verbatim>\<open>PutConfig\<close> returns \<^verbatim>\<open>AlreadyExistsError\<close> of the key, whatever the configuration says, and what is
  stored does not change.
\<close>

theorem PutConfig_stores_once:
  assumes "reliable_store rc rt view cs csm" and "sound_db cs (v_db (view w))"
    and "plain (cfg_Name c)" and "can_marshal (cfg_codec cs) c"
    and "RedisStore_PutConfig rt cs csm (Some c) w = (e, w')"
  shows "sound_db cs (v_db (view w')) \<and>
    (if v_db (view w) (NewKeyForConfig (GetVersionId c)) = None
     then e = None \<and> fst (RedisStore_GetConfig rt cs csm (GetVersionId c) w') = Inr c \<and>
          cfg_Name c \<in> set (fst (RedisStore_GetAllConfigs csm w')) \<and>
          GetVersionId c \<in> set (fst (RedisStore_GetAllVersions csm (cfg_Name c) w'))
     else e = Some (AlreadyExistsError (NewKeyForConfig (GetVersionId c))) \<and>
          abs_db cs (v_db (view w')) = abs_db cs (v_db (view w)))"
proof -
  have p: "sm_PutConfig (RedisStore_manager rt cs csm) (Some c) w = (e, w')"
    using assms(5) by (simp add: RedisStore_manager_def)
  note law = reliable_store.PutConfig_reliable [OF assms(1,5,2,3)]
  have free: "v_db (view w) (NewKeyForConfig (GetVersionId c)) = None \<longleftrightarrow>
      s_configs (abs_db cs (v_db (view w))) (GetVersionId c) = None"
    by (rule sound_config_None [OF assms(2,3)])
  show ?thesis
  proof (cases "v_db (view w) (NewKeyForConfig (GetVersionId c)) = None")
    case True
    then have "e = None" using law free assms(4) by (simp add: can_marshal_iff)
    with store_manager.config_roundtrip [OF reliable_store.refines [OF assms(1)]] p assms(2,3) True law
    show ?thesis by (simp add: RedisStore_manager_def)
  next
    case False
    then show ?thesis using law free by simp
  qed
qed

theorem PutConfig_stores_once_witness:
  "let (e, w) = RedisStore_PutConfig mem_runtime plain_codecs mem_store (Some lander_cfg) (mem_world Map.empty) in
   e = None \<and> fst (RedisStore_GetConfig mem_runtime plain_codecs mem_store ''rover:v2'' w) = Inr lander_cfg"
proof -
  obtain e w where c: "RedisStore_PutConfig mem_runtime plain_codecs mem_store (Some lander_cfg)
      (mem_world Map.empty) = (e, w)" by fastforce
  have "can_marshal (cfg_codec plain_codecs) lander_cfg" by (simp add: can_marshal_def)
  from PutConfig_stores_once [OF mem_store.reliable_store_axioms sound_mem_world lander_plain(1) this c] c
  show ?thesis by (simp add: mem_world_def start_view_def)
qed

text \<open>
  A stored configuration never changes, over a server that answers: once \<^verbatim>\<open>GetConfig\<close> returns it,
  it returns the same after storing any configuration with a plain name, under whatever id.
\<close>

theorem stored_configurations_never_change:
  assumes "reliable_store rc rt view cs csm" and "sound_db cs (v_db (view w))"
    and "fst (RedisStore_GetConfig rt cs csm v w) = Inr c" and "version_id v"
    and "plain (cfg_Name c')" and "RedisStore_PutConfig rt cs csm (Some c') w = (e, w')"
  shows "fst (RedisStore_GetConfig rt cs csm v w') = Inr c"
proof -
  have "sm_PutConfig (RedisStore_manager rt cs csm) (Some c') w = (e, w')"
    and "fst (sm_GetConfig (RedisStore_manager rt cs csm) v w) = Inr c"
    using assms(3,6) by (simp_all add: RedisStore_manager_def)
  from store_manager.config_immutable [OF reliable_store.refines [OF assms(1)] this(1) assms(2,5) this(2) assms(4)]
  show ?thesis by (simp add: RedisStore_manager_def)
qed

theorem stored_configurations_never_change_witness:
  "let w = snd (RedisStore_PutConfig mem_runtime plain_codecs mem_store (Some lander_cfg) (mem_world Map.empty));
       w' = snd (RedisStore_PutConfig mem_runtime plain_codecs mem_store
                   (Some (lander_cfg\<lparr>cfg_States := [''venus'']\<rparr>)) w)
   in fst (RedisStore_GetConfig mem_runtime plain_codecs mem_store ''rover:v2'' w') = Inr lander_cfg"
proof -
  let ?p = "RedisStore_PutConfig mem_runtime plain_codecs mem_store"
  let ?w = "snd (?p (Some lander_cfg) (mem_world Map.empty))"
  let ?c = "lander_cfg\<lparr>cfg_States := [''venus'']\<rparr>"
  have s: "sound_db plain_codecs (v_db (mem_view ?w))"
    using mem_store.PutConfig_reliable [OF prod.collapse [symmetric] sound_mem_world lander_plain(1)] by simp
  have g: "fst (RedisStore_GetConfig mem_runtime plain_codecs mem_store ''rover:v2'' ?w) = Inr lander_cfg"
    by code_simp
  have "version_id ''rover:v2''" "plain (cfg_Name ?c)"
    by (simp_all add: version_id_def plain_def lander_cfg_def)
  from stored_configurations_never_change [OF mem_store.reliable_store_axioms s g this prod.collapse [symmetric]]
  show ?thesis by (simp add: Let_def)
qed

text \<open>
  The check that protects a stored configuration is not atomic with the write, and its error
  is not read: when the server loses the \<^verbatim>\<open>EXISTS\<close> call, \<^verbatim>\<open>PutConfig\<close> replaces a stored configuration
  and reports success.
\<close>

theorem lost_EXISTS_replaces_a_configuration:
  "\<exists>w c w'. fst (RedisStore_GetConfig mem_runtime plain_codecs planned_store ''rover:v2'' (planned_world rover_db [])) =
       Inr lander_cfg \<and>
     v_db (mem_view w) = rover_db \<and> c \<noteq> lander_cfg \<and> GetVersionId c = ''rover:v2'' \<and>
     RedisStore_PutConfig mem_runtime plain_codecs planned_store (Some c) w = (None, w') \<and>
     fst (RedisStore_GetConfig mem_runtime plain_codecs planned_store ''rover:v2'' w') = Inr c"
proof -
  let ?c = "lander_cfg\<lparr>cfg_States := [''venus'']\<rparr>"
  let ?w = "planned_world rover_db [Lost]"
  let ?call = "RedisStore_PutConfig mem_runtime plain_codecs planned_store (Some ?c) ?w"
  have "fst (RedisStore_GetConfig mem_runtime plain_codecs planned_store ''rover:v2'' (planned_world rover_db [])) =
      Inr lander_cfg" by code_simp
  moreover have "v_db (mem_view ?w) = rover_db" by (simp add: planned_world_def start_view_def)
  moreover have "?c \<noteq> lander_cfg" "GetVersionId ?c = ''rover:v2''" by code_simp+
  moreover have "fst ?call = None" by code_simp
  moreover have "fst (RedisStore_GetConfig mem_runtime plain_codecs planned_store ''rover:v2'' (snd ?call)) = Inr ?c"
    by code_simp
  ultimately show ?thesis by (metis prod.collapse)
qed

text \<open>
  A client that is held up after \<^verbatim>\<open>EXISTS\<close>, while another server stores \<open>other\<close> with a call of its own.
\<close>

definition interrupted :: "Configuration \<Rightarrow> mem redis_client" where
  "interrupted other = mem_client\<lparr>rdb_Exists := (\<lambda>k w.
     case rdb_Exists mem_client k w of
       (n, w1) \<Rightarrow> (n, snd (RedisStore_PutConfig mem_runtime plain_codecs mem_store (Some other) w1)))\<rparr>"


subsection \<open>Any sequence of writes\<close>

text \<open>The calls that write, in any order and with any results, for plain configuration names.\<close>

inductive store_run ::
    "'w go_runtime \<Rightarrow> codecs \<Rightarrow> 'w RedisStore \<Rightarrow> 'w \<Rightarrow> 'w \<Rightarrow> bool"
  for rt :: "'w go_runtime" and cs :: codecs and csm :: "'w RedisStore" and w0 :: 'w where
  start: "store_run rt cs csm w0 w0"
| put_config: "store_run rt cs csm w0 w \<Longrightarrow> plain (cfg_Name c) \<Longrightarrow>
    RedisStore_PutConfig rt cs csm (Some c) w = (e, w') \<Longrightarrow> store_run rt cs csm w0 w'"
| put_machine: "store_run rt cs csm w0 w \<Longrightarrow> version_id (fsm_ConfigId m) \<Longrightarrow>
    RedisStore_PutStateMachine rt cs csm i (Some m) w = (e, w') \<Longrightarrow> store_run rt cs csm w0 w'"
| update_state: "store_run rt cs csm w0 w \<Longrightarrow> plain n \<Longrightarrow>
    RedisStore_UpdateState csm n i old new w = (e, w') \<Longrightarrow> store_run rt cs csm w0 w'"
| process_event: "store_run rt cs csm w0 w \<Longrightarrow> plain n \<Longrightarrow>
    RedisStore_TxProcessEvent rt cs csm i n evt w = (r, w') \<Longrightarrow> store_run rt cs csm w0 w'"
| put_event: "store_run rt cs csm w0 w \<Longrightarrow> plain n \<Longrightarrow>
    RedisStore_PutEvent rt cs csm (Some ev) n NeverExpire w = (e, w') \<Longrightarrow> store_run rt cs csm w0 w'"
| add_outcome: "store_run rt cs csm w0 w \<Longrightarrow> plain n \<Longrightarrow>
    RedisStore_AddEventOutcome rt cs csm i n (Some out) NeverExpire w = (e, w') \<Longrightarrow>
    store_run rt cs csm w0 w'"

text \<open>Configurations stay as they are; machines and events stay present.\<close>

definition keeps :: "store_state \<Rightarrow> store_state \<Rightarrow> bool" where
  "keeps s s' \<longleftrightarrow> s_configs s \<subseteq>\<^sub>m s_configs s' \<and> dom (s_machines s) \<subseteq> dom (s_machines s') \<and>
     dom (s_events s) \<subseteq> dom (s_events s') \<and> dom (s_outcomes s) \<subseteq> dom (s_outcomes s')"

lemma keeps_refl [simp]: "keeps s s"
  by (simp add: keeps_def)

lemma keeps_trans: "keeps s t \<Longrightarrow> keeps t u \<Longrightarrow> keeps s u"
  unfolding keeps_def by (meson map_le_trans subset_trans)

lemma keeps_simps [simp]:
  "s_configs s (GetVersionId c) = None \<Longrightarrow> keeps s (add_config c s)"
  "keeps s (put_machine i m s)" "keeps s (relist n i old new s)"
  "keeps s (relist n i old new (s\<lparr>s_machines := (s_machines s)(x \<mapsto> m)\<rparr>))"
  "keeps s (s\<lparr>s_events := (s_events s)(x \<mapsto> v)\<rparr>)"
  "keeps s (s\<lparr>s_outcomes := (s_outcomes s)(x \<mapsto> out)\<rparr>)"
  "keeps s (s\<lparr>s_names := ns, s_versions := vs\<rparr>)"
  by (auto simp: keeps_def add_config_def put_machine_def map_le_def)

lemma keeps_process: "process ok i n evt s (r, s') \<Longrightarrow> keeps s s'"
  by (auto simp: process_def split: option.splits go.splits prod.splits if_splits)

context reliable_store
begin

lemma store_run_step:
  assumes "store_run rt cs csm w0 w'"
  shows "sound w0 \<longrightarrow> sound w' \<and> keeps (st w0) (st w')"
  using assms
proof induction
  case (put_config w c e w')
  have "keeps (st w) (st w')" if "sound w"
    using PutConfig_reliable [OF put_config(3) that put_config(2)]
    by (auto split: if_splits)
  then show ?case
    using put_config.IH PutConfig_reliable [OF put_config(3) _ put_config(2)]
    by (auto intro: keeps_trans)
next
  case (put_machine w m i e w')
  then show ?case
    using PutStateMachine_reliable [OF put_machine(3) _ put_machine(2)]
    by (auto split: if_splits intro: keeps_trans [OF _ keeps_simps(2)])
next
  case (update_state w n i old new e w')
  then show ?case
    using UpdateState_reliable [OF update_state(3) _ update_state(2)]
    by (auto intro: keeps_trans [OF _ keeps_simps(3)])
next
  case (process_event w n i evt r w')
  then show ?case
    using TxProcessEvent_reliable [OF process_event(3) _ process_event(2)]
    by (blast intro: keeps_trans keeps_process)
next
  case (put_event w n ev e w')
  then show ?case
    using PutEvent_reliable [OF put_event(3) _ put_event(2)]
    by (auto split: if_splits intro: keeps_trans [OF _ keeps_simps(5)])
next
  case (add_outcome w n i out e w')
  then show ?case
    using AddEventOutcome_reliable [OF add_outcome(3) _ add_outcome(2)]
    by (auto split: if_splits intro: keeps_trans [OF _ keeps_simps(6)])
qed simp

end

text \<open>
  C32. Over a server that answers, any sequence of writes for plain configuration names, whatever
  their results, keeps the database well formed: every key holds what its kind of object asks for,
  a configuration under the id made of its name and version, a machine under the name in its
  configuration id. No stored configuration is ever changed or lost, and no machine, event or
  outcome disappears.
\<close>

theorem writes_keep_the_store_sound:
  assumes "reliable_store rc rt view cs csm" and "store_run rt cs csm w w'"
    and "sound_db cs (v_db (view w))"
  shows "sound_db cs (v_db (view w')) \<and> keeps (abs_db cs (v_db (view w))) (abs_db cs (v_db (view w')))"
  using reliable_store.store_run_step [OF assms(1,2)] assms(3) by simp

theorem writes_keep_the_store_sound_witness:
  "sound_db plain_codecs (v_db (mem_view (snd (RedisStore_PutConfig mem_runtime plain_codecs mem_store
     (Some lander_cfg) (mem_world Map.empty)))))"
proof -
  have "store_run mem_runtime plain_codecs mem_store (mem_world Map.empty)
      (snd (RedisStore_PutConfig mem_runtime plain_codecs mem_store (Some lander_cfg) (mem_world Map.empty)))"
    by (rule store_run.put_config [OF store_run.start lander_plain(1) prod.collapse [symmetric]])
  from writes_keep_the_store_sound [OF mem_store.reliable_store_axioms this sound_mem_world]
  show ?thesis by simp
qed

text \<open>
  C2. Over a server that answers, \<^verbatim>\<open>TxProcessEvent\<close> implements its specification \<open>process\<close> on
  what the store holds, on every branch: a machine or a configuration that is not stored is
  reported as not found, the configuration with an error that wraps the text of the store's
  not-found error; an event that has no transition from the current state is refused; otherwise
  the machine with its transition taken is stored and moves from the listing of its old state to
  that of its new one, in one attempt. Nothing else changes, and the database stays well formed.
\<close>

theorem TxProcessEvent_refines_process:
  assumes "reliable_store rc rt view cs csm" and "sound_db cs (v_db (view w))" and "plain n"
    and "RedisStore_TxProcessEvent rt cs csm i n evt w = (r, w')"
  shows "sound_db cs (v_db (view w')) \<and>
         process (can_marshal (fsm_codec cs)) i n evt
           (abs_db cs (v_db (view w))) (r, abs_db cs (v_db (view w')))"
  using reliable_store.TxProcessEvent_reliable [OF assms(1,4,2,3)] by (simp add: can_marshal_eq)

theorem TxProcessEvent_refines_process_witness:
  "fst (RedisStore_TxProcessEvent mem_runtime plain_codecs mem_store ''m1'' ''rover'' None
     (mem_world Map.empty)) = Ret (Some (NotFoundError (NewKeyForMachine ''m1'' ''rover'')))"
proof -
  have "plain ''rover''" by (simp add: plain_def)
  from TxProcessEvent_refines_process [OF mem_store.reliable_store_axioms sound_mem_world this
      prod.collapse [symmetric], of "''m1''" None] this
  show ?thesis
    by (simp add: process_def mem_world_def start_view_def)
qed

end
