(* ===== verification/Listener.thy ===== *)
theory Listener
  imports Reliable_Store
begin

text \<open>
  The events listener (\<^verbatim>\<open>pkg/pubsub/listener.go\<close> and its types in \<^verbatim>\<open>pkg/pubsub/types.go\<close>): it takes
  the requests off the events channel one at a time, has the store process each event, and
  records an outcome for it. The lemmas say which outcome every request gets, when the
  listener panics, and what it posts to the notifications channel. They are proved once for any
  store that keeps the contract of \<open>Store_Manager\<close>.
\<close>

section \<open>Definitions\<close>

text \<open>
  The events channel is the list of the requests that are sent on it before it is closed; the
  notifications channel is the list of what the listener posts on it, and may be nil.
\<close>

record 'w ListenerOptions =
  EventsChannel :: "EventRequest list"
  NotificationsChannel :: bool                     \<comment> \<open>not nil\<close>
  StatemachinesStore :: "'w StoreManager"

record 'w EventsListener =
  l_events :: "EventRequest list"
  l_notifications :: bool                          \<comment> \<open>not nil\<close>
  l_store :: "'w StoreManager"

definition NewEventsListener :: "'w ListenerOptions \<Rightarrow> 'w EventsListener" where
  "NewEventsListener options =
     \<lparr>l_events = EventsChannel options, l_notifications = NotificationsChannel options,
      l_store = StatemachinesStore options\<rparr>"

definition makeResponse :: "EventRequest \<Rightarrow> StatusCode \<Rightarrow> string \<Rightarrow> EventResponse" where
  "makeResponse request code details =
     \<lparr>resp_EventId = (case req_Event request of None \<Rightarrow> '''' | Some e \<Rightarrow> evt_EventId e),
      resp_Outcome = Some \<lparr>out_Code = code, out_Details = details,
                           out_Config = req_Config request, out_Id = req_Id request\<rparr>\<rparr>"

text \<open>An error of the store is only logged.\<close>

definition reportOutcome :: "'w EventsListener \<Rightarrow> EventResponse \<Rightarrow> 'w \<Rightarrow> 'w" where
  "reportOutcome listener response w =
     snd (sm_AddEventOutcome (l_store listener) (resp_EventId response)
            (case resp_Outcome response of None \<Rightarrow> '''' | Some out \<Rightarrow> out_Config out)
            (resp_Outcome response) NeverExpire w)"

definition PostNotificationAndReportOutcome ::
    "'w EventsListener \<Rightarrow> EventResponse \<Rightarrow> 'w \<Rightarrow> EventResponse list go \<times> 'w" where
  "PostNotificationAndReportOutcome listener eventResponse w =
     (case resp_Outcome eventResponse of
        None \<Rightarrow> (Panic, w)
      | Some out \<Rightarrow>
          (Ret (if l_notifications listener then [eventResponse] else []),
           reportOutcome listener eventResponse w))"

text \<open>One turn of the loop: what is posted to the notifications channel.\<close>

definition process_request ::
    "'w EventsListener \<Rightarrow> EventRequest \<Rightarrow> 'w \<Rightarrow> EventResponse list go \<times> 'w" where
  "process_request listener request w =
     (let fsmId = req_Id request in
      if fsmId = '''' then
        PostNotificationAndReportOutcome listener
          (makeResponse request MissingDestination ''no statemachine ID specified'') w
      else
        (let cfgName = req_Config request in
         if cfgName = '''' then
           PostNotificationAndReportOutcome listener
             (makeResponse request MissingDestination ''no Configuration name specified'') w
         else
           (case sm_PutEvent (l_store listener) (req_Event request) cfgName NeverExpire w of
              (Some err, w1) \<Rightarrow>
                PostNotificationAndReportOutcome listener
                  (makeResponse request InternalError (''could not store event: '' @ Error_text err)) w1
            | (None, w1) \<Rightarrow>
                if Option.bind (req_Event request) evt_Transition = None then (Panic, w1)
                else
                  (case sm_TxProcessEvent (l_store listener) fsmId cfgName (req_Event request) w1 of
                     (Panic, w2) \<Rightarrow> (Panic, w2)
                   | (Ret (Some err), w2) \<Rightarrow>
                       PostNotificationAndReportOutcome listener
                         (makeResponse request
                            (if IsNotFoundErr err then FsmNotFound else InternalError)
                            (''could not update statemachine ['' @ cfgName @ ''#'' @ fsmId @
                             ''] in store: '' @ Error_text err)) w2
                   | (Ret None, w2) \<Rightarrow>
                       (Ret [], reportOutcome listener (makeResponse request Ok '''') w2)))))"

text \<open>The loop over the channel: what was posted, whether it ended, and the world it leaves.\<close>

fun ListenForMessages_loop ::
    "'w EventsListener \<Rightarrow> EventRequest list \<Rightarrow> 'w \<Rightarrow> EventResponse list \<times> unit go \<times> 'w" where
  "ListenForMessages_loop listener [] w = ([], Ret (), w)"
| "ListenForMessages_loop listener (request # rest) w =
     (case process_request listener request w of
        (Panic, w1) \<Rightarrow> ([], Panic, w1)
      | (Ret posted, w1) \<Rightarrow>
          (case ListenForMessages_loop listener rest w1 of
             (later, r, w2) \<Rightarrow> (posted @ later, r, w2)))"

definition ListenForMessages ::
    "'w EventsListener \<Rightarrow> 'w \<Rightarrow> EventResponse list \<times> unit go \<times> 'w" where
  "ListenForMessages listener w = ListenForMessages_loop listener (l_events listener) w"

section \<open>What a request leads to\<close>

definition outcome_code :: "go_error option \<Rightarrow> StatusCode" where
  "outcome_code r =
     (case r of None \<Rightarrow> Ok | Some err \<Rightarrow> if IsNotFoundErr err then FsmNotFound else InternalError)"

definition outcome_details :: "EventRequest \<Rightarrow> go_error option \<Rightarrow> string" where
  "outcome_details request r =
     (case r of
        None \<Rightarrow> ''''
      | Some err \<Rightarrow> ''could not update statemachine ['' @ req_Config request @ ''#'' @ req_Id request @
                    ''] in store: '' @ Error_text err)"

definition outcome_for :: "EventRequest \<Rightarrow> go_error option \<Rightarrow> EventOutcome" where
  "outcome_for request r =
     \<lparr>out_Code = outcome_code r, out_Details = outcome_details request r,
      out_Config = req_Config request, out_Id = req_Id request\<rparr>"

text \<open>A request with an id, a configuration name, and an event that names a transition.\<close>

definition complete :: "EventRequest \<Rightarrow> bool" where
  "complete request \<longleftrightarrow> req_Id request \<noteq> '''' \<and> req_Config request \<noteq> '''' \<and>
     Option.bind (req_Event request) evt_Transition \<noteq> None"

text \<open>A request without an event that lacks a transition, for a destination.\<close>

definition harmless :: "EventRequest \<Rightarrow> bool" where
  "harmless request \<longleftrightarrow>
     req_Id request = '''' \<or> req_Config request = '''' \<or> req_Event request = None \<or>
     Option.bind (req_Event request) evt_Transition \<noteq> None"

lemma completeE:
  assumes "complete request"
  obtains e tr where "req_Event request = Some e" "evt_Transition e = Some tr"
    "req_Id request \<noteq> ''''" "req_Config request \<noteq> ''''"
  using assms by (cases "req_Event request") (auto simp: complete_def)

lemma process_request_complete:
  assumes "complete request" and "req_Event request = Some e"
    and "sm_PutEvent (l_store l) (Some e) (req_Config request) NeverExpire w = (None, w1)"
    and "sm_TxProcessEvent (l_store l) (req_Id request) (req_Config request) (Some e) w1 = (Ret r, w2)"
  shows "process_request l request w =
    (Ret (if r \<noteq> None \<and> l_notifications l
          then [\<lparr>resp_EventId = evt_EventId e, resp_Outcome = Some (outcome_for request r)\<rparr>] else []),
     snd (sm_AddEventOutcome (l_store l) (evt_EventId e) (req_Config request)
            (Some (outcome_for request r)) NeverExpire w2))"
  using assms
  by (cases r)
     (auto simp: process_request_def Let_def complete_def PostNotificationAndReportOutcome_def
        reportOutcome_def makeResponse_def outcome_for_def outcome_code_def outcome_details_def)

lemma process_request_incomplete:
  assumes "req_Id request = '''' \<or> req_Config request = ''''"
  shows "\<exists>d. process_request l request w =
    PostNotificationAndReportOutcome l (makeResponse request MissingDestination d) w"
  using assms by (auto simp: process_request_def Let_def)

text \<open>The ways a request can take through the body of the loop.\<close>

lemma process_request_cases:
  assumes "process_request l request w = (p, w')"
  obtains (missing) details where "PostNotificationAndReportOutcome l (makeResponse request MissingDestination details) w = (p, w')"
  | (unstored) err w1 details where "sm_PutEvent (l_store l) (req_Event request) (req_Config request) NeverExpire w = (Some err, w1)"
      "PostNotificationAndReportOutcome l (makeResponse request InternalError details) w1 = (p, w')"
  | (no_transition) "sm_PutEvent (l_store l) (req_Event request) (req_Config request) NeverExpire w = (None, w')" "p = Panic"
      "\<not> harmless request \<or> req_Event request = None"
  | (processed) w1 r w2 where "complete request" "sm_PutEvent (l_store l) (req_Event request) (req_Config request) NeverExpire w = (None, w1)"
      "sm_TxProcessEvent (l_store l) (req_Id request) (req_Config request) (req_Event request) w1 = (r, w2)"
      "r = Panic \<and> p = Panic \<and> w' = w2 \<or>
       r = Ret None \<and> p = Ret [] \<and> w' = reportOutcome l (makeResponse request Ok '''') w2 \<or>
       (\<exists>err. r = Ret (Some err) \<and>
          PostNotificationAndReportOutcome l
            (makeResponse request (outcome_code (Some err)) (outcome_details request (Some err))) w2 = (p, w'))"
proof -
  obtain e1 w1 where put: "sm_PutEvent (l_store l) (req_Event request) (req_Config request) NeverExpire w = (e1, w1)"
    by fastforce
  obtain r w2 where tx: "sm_TxProcessEvent (l_store l) (req_Id request) (req_Config request) (req_Event request) w1 = (r, w2)"
    by fastforce
  consider "req_Id request = '''' \<or> req_Config request = ''''"
    | "req_Id request \<noteq> ''''" "req_Config request \<noteq> ''''" by blast
  then show thesis
  proof cases
    case 1
    then show thesis using process_request_incomplete [of request l w] missing assms by auto
  next
    case 2
    note run = assms [unfolded process_request_def] 2 put tx
    show thesis
    proof (cases e1)
      case (Some err)
      with run have "PostNotificationAndReportOutcome l
          (makeResponse request InternalError (''could not store event: '' @ Error_text err)) w1 = (p, w')" by simp
      with put Some show thesis by (intro unstored) simp_all
    next
      case None
      show thesis
      proof (cases "Option.bind (req_Event request) evt_Transition = None")
        case True
        with run None show thesis by (intro no_transition) (auto simp: harmless_def)
      next
        case False
        have "r = Panic \<and> p = Panic \<and> w' = w2 \<or>
            r = Ret None \<and> p = Ret [] \<and> w' = reportOutcome l (makeResponse request Ok '''') w2 \<or>
            (\<exists>err. r = Ret (Some err) \<and> PostNotificationAndReportOutcome l
               (makeResponse request (outcome_code (Some err)) (outcome_details request (Some err))) w2 = (p, w'))"
          using run None False
          by (cases r) (auto simp: outcome_code_def outcome_details_def split: option.splits)
        with put tx None False 2 show thesis by (intro processed) (simp_all add: complete_def)
      qed
    qed
  qed
qed

text \<open>When the listener panics.\<close>

lemma process_request_panics:
  assumes "\<And>w. Option.bind (req_Event request) evt_Transition \<noteq> None \<Longrightarrow>
      fst (sm_TxProcessEvent (l_store l) (req_Id request) (req_Config request) (req_Event request) w) \<noteq> Panic"
  shows "fst (process_request l request w) = Panic \<longleftrightarrow>
     req_Id request \<noteq> '''' \<and> req_Config request \<noteq> '''' \<and>
     Option.bind (req_Event request) evt_Transition = None \<and>
     fst (sm_PutEvent (l_store l) (req_Event request) (req_Config request) NeverExpire w) = None"
  using assms
  by (auto simp: process_request_def Let_def PostNotificationAndReportOutcome_def makeResponse_def
      split: prod.splits option.splits go.splits) (metis fst_conv)+

subsection \<open>With a store that keeps its contract\<close>

text \<open>The machine an event leads to, when it fires a transition.\<close>

definition next_machine :: "store_state \<Rightarrow> string \<Rightarrow> string \<Rightarrow> Event \<Rightarrow> FiniteStateMachine option" where
  "next_machine s i n e =
     Option.bind (s_machines s (i, n)) (\<lambda>m.
     Option.bind (s_configs s (fsm_ConfigId m)) (\<lambda>c.
     Option.bind (evt_Transition e) (\<lambda>tr.
     map_option (advance m e) (enabled c (fsm_State m) (t_Event tr)))))"

lemma process_next:
  assumes "process ok i n (Some e) s (r, s')" and "evt_Transition e \<noteq> None"
  shows "case next_machine s i n e of
           Some m \<Rightarrow>
             if ok m then r = Ret None \<and>
               s' = relist n i (fsm_State (the (s_machines s (i, n)))) (fsm_State m)
                      (s\<lparr>s_machines := (s_machines s)((i, n) \<mapsto> m)\<rparr>)
             else (\<exists>x. r = Ret (Some (InvalidDataError x))) \<and> s' = s
         | None \<Rightarrow>
             s' = s \<and> r = Ret (Some
               (case s_machines s (i, n) of
                  None \<Rightarrow> NotFoundError (NewKeyForMachine i n)
                | Some m \<Rightarrow>
                    if s_configs s (fsm_ConfigId m) = None
                    then NotFoundError (Error_text (NotFoundError (NewKeyForConfig (fsm_ConfigId m))))
                    else UnexpectedTransitionError))"
proof -
  obtain tr where tr: "evt_Transition e = Some tr" using assms(2) by blast
  show ?thesis
  proof (cases "s_machines s (i, n)")
    case None
    then show ?thesis using assms(1) by (simp add: next_machine_def process_def)
  next
    case (Some m)
    note m = this
    show ?thesis
    proof (cases "s_configs s (fsm_ConfigId m)")
      case None
      then show ?thesis using assms(1) m by (simp add: next_machine_def process_def)
    next
      case (Some c)
      then show ?thesis using assms(1) m tr
        by (cases "enabled c (fsm_State m) (t_Event tr)")
           (auto simp: next_machine_def process_def SendEvent_eq split: if_splits)
    qed
  qed
qed

lemma next_machine_upd [simp]:
  "next_machine (s\<lparr>s_events := f\<rparr>) = next_machine s" "next_machine (s\<lparr>s_outcomes := g\<rparr>) = next_machine s"
  by (simp_all add: fun_eq_iff next_machine_def)

definition expected_code ::
    "(FiniteStateMachine \<Rightarrow> bool) \<Rightarrow> store_state \<Rightarrow> string \<Rightarrow> string \<Rightarrow> Event \<Rightarrow> StatusCode" where
  "expected_code ok s i n e =
     (case next_machine s i n e of
        Some m \<Rightarrow> if ok m then Ok else InternalError
      | None \<Rightarrow> if s_machines s (i, n) = None \<and> one_word (NewKeyForMachine i n) then FsmNotFound
                else InternalError)"

lemma expected_code_upd [simp]: "expected_code ok (s\<lparr>s_events := f\<rparr>) = expected_code ok s"
  by (auto simp: fun_eq_iff expected_code_def split: option.splits)

context store_manager
begin

lemma process_request_law:
  assumes "complete request" and "req_Event request = Some e" and "l_store l = sm"
    and "sound w" and "plain (req_Config request)" and "can_evt e"
    and "\<And>r. can_out (outcome_for request r)"
    and "process_request l request w = (p, w')"
  obtains r s2 where
    "process can_fsm (req_Id request) (req_Config request) (Some e)
       ((st w)\<lparr>s_events := (s_events (st w))((evt_EventId e, req_Config request) \<mapsto> e)\<rparr>) (Ret r, s2)"
    "sound w'"
    "st w' = s2\<lparr>s_outcomes := (s_outcomes s2)((evt_EventId e, req_Config request) \<mapsto> outcome_for request r)\<rparr>"
    "p = Ret (if r \<noteq> None \<and> l_notifications l
              then [\<lparr>resp_EventId = evt_EventId e, resp_Outcome = Some (outcome_for request r)\<rparr>] else [])"
proof -
  let ?n = "req_Config request"
  obtain e1 w1 where p1: "sm_PutEvent sm (Some e) ?n NeverExpire w = (e1, w1)" by fastforce
  from PutEvent_law [OF p1 assms(4,5)] assms(6)
  have e1: "e1 = None" and w1: "sound w1" "st w1 = (st w)\<lparr>s_events := (s_events (st w))((evt_EventId e, ?n) \<mapsto> e)\<rparr>"
    by auto
  obtain g w2 where p2: "sm_TxProcessEvent sm (req_Id request) ?n (Some e) w1 = (g, w2)" by fastforce
  note tx = TxProcessEvent_law [OF p2 w1(1) assms(5)]
  have "evt_Transition e \<noteq> None" using assms(1,2) by (simp add: complete_def)
  with process_next [of can_fsm "req_Id request" ?n e "st w1" g "st w2"] tx
  obtain r where r: "g = Ret r" by (auto split: option.splits if_splits)
  obtain e3 w3 where p3: "sm_AddEventOutcome sm (evt_EventId e) ?n (Some (outcome_for request r))
      NeverExpire w2 = (e3, w3)" by fastforce
  have w3: "sound w3" "st w3 = (st w2)\<lparr>s_outcomes := (s_outcomes (st w2))((evt_EventId e, ?n) \<mapsto> outcome_for request r)\<rparr>"
    using AddEventOutcome_law [OF p3 _ assms(5)] tx assms(7) by auto
  have "process_request l request w =
    (Ret (if r \<noteq> None \<and> l_notifications l
          then [\<lparr>resp_EventId = evt_EventId e, resp_Outcome = Some (outcome_for request r)\<rparr>] else []), w3)"
    using process_request_complete [OF assms(1,2), of l w w1 r w2] p1 p2 p3 e1 r assms(3) by simp
  then show thesis using that [of r "st w2"] tx w1 w3 r assms(8) by simp
qed

end

lemma outcome_code_eqs [simp]:
  "outcome_code None = Ok" "outcome_code (Some (InvalidDataError x)) = InternalError"
  "outcome_code (Some UnexpectedTransitionError) = InternalError"
  "outcome_code (Some (NotFoundError k)) = (if one_word k then FsmNotFound else InternalError)"
  by (simp_all add: outcome_code_def IsNotFoundErr_NotFoundError)

lemma not_one_word_wrapped [simplified, simp]: "\<not> one_word (Error_text (NotFoundError k))"
  using IsNotFoundErr_others(1) unfolding IsNotFoundErr_NotFoundError .

lemma process_code:
  assumes "process ok i n (Some e) s (Ret r, s')" and "evt_Transition e \<noteq> None"
  shows "outcome_code r = expected_code ok s i n e \<and>
         s_machines s' = (case next_machine s i n e of
            Some m \<Rightarrow> if ok m then (s_machines s)((i, n) \<mapsto> m) else s_machines s
          | None \<Rightarrow> s_machines s) \<and>
         s_events s' = s_events s"
  using process_next [OF assms]
  by (auto simp: expected_code_def split: option.splits if_splits)

text \<open>
  C8. The listener on a complete request (an id, a configuration name, an event that names a
  transition), with a store that keeps its contract. It stores the event and an outcome under the
  event's id. The outcome is \<^verbatim>\<open>Ok\<close> exactly when the machine and its configuration are stored and
  the configuration has a transition for the event from the machine's state (and the new machine can
  be serialised); then the stored machine has taken that transition. Otherwise no machine changes,
  and the outcome is \<^verbatim>\<open>FsmNotFound\<close> when the machine is not stored, unless its key has a space in
  it, and \<^verbatim>\<open>InternalError\<close> in all other cases, a missing configuration and an event that is not
  allowed included. A notification with the outcome is posted exactly when the outcome is not \<^verbatim>\<open>Ok\<close>
  and there is a channel for it.
\<close>

theorem listener_records_the_outcome:
  assumes "store_manager sm rt st sound can_cfg can_fsm can_evt can_out" and "l_store l = sm"
    and "complete request" and "req_Event request = Some e"
    and "sound w" and "plain (req_Config request)"
    and "can_evt e" and "\<And>r. can_out (outcome_for request r)"
    and "process_request l request w = (p, w')"
    and "i = req_Id request" and "n = req_Config request"
  shows "sound w' \<and> s_events (st w') (evt_EventId e, n) = Some e \<and>
    (\<exists>out. s_outcomes (st w') (evt_EventId e, n) = Some out \<and>
       out_Code out = expected_code can_fsm (st w) i n e \<and> out_Id out = i \<and> out_Config out = n \<and>
       p = Ret (if out_Code out \<noteq> Ok \<and> l_notifications l
                then [\<lparr>resp_EventId = evt_EventId e, resp_Outcome = Some out\<rparr>] else [])) \<and>
    s_machines (st w') =
      (case next_machine (st w) i n e of
         Some m \<Rightarrow> if can_fsm m then (s_machines (st w))((i, n) \<mapsto> m) else s_machines (st w)
       | None \<Rightarrow> s_machines (st w))"
proof -
  let ?s1 = "(st w)\<lparr>s_events := (s_events (st w))((evt_EventId e, n) \<mapsto> e)\<rparr>"
  obtain r s2 where r: "process can_fsm i n (Some e) ?s1 (Ret r, s2)" and "sound w'"
    and w': "st w' = s2\<lparr>s_outcomes := (s_outcomes s2)((evt_EventId e, n) \<mapsto> outcome_for request r)\<rparr>"
    and p: "p = Ret (if r \<noteq> None \<and> l_notifications l
        then [\<lparr>resp_EventId = evt_EventId e, resp_Outcome = Some (outcome_for request r)\<rparr>] else [])"
    using store_manager.process_request_law [OF assms(1,3,4,2,5-9)] assms(10,11) by metis
  have t: "evt_Transition e \<noteq> None" using assms(3,4) by (simp add: complete_def)
  have c: "outcome_code r = expected_code can_fsm (st w) i n e"
    using process_code [OF r t] by simp
  have m: "s_machines s2 = (case next_machine (st w) i n e of
         Some m \<Rightarrow> if can_fsm m then (s_machines (st w))((i, n) \<mapsto> m) else s_machines (st w)
       | None \<Rightarrow> s_machines (st w))"
    using process_code [OF r t] by (simp split: option.splits)
  have ev: "s_events s2 (evt_EventId e, n) = Some e" using process_code [OF r t] by simp
  have "outcome_code r = Ok \<longleftrightarrow> r = None"
    by (simp add: outcome_code_def split: option.splits)
  then have "p = Ret (if out_Code (outcome_for request r) \<noteq> Ok \<and> l_notifications l
      then [\<lparr>resp_EventId = evt_EventId e, resp_Outcome = Some (outcome_for request r)\<rparr>] else [])"
    using p by (simp add: outcome_for_def)
  moreover have "out_Code (outcome_for request r) = expected_code can_fsm (st w) i n e"
    using c by (simp add: outcome_for_def)
  moreover have "out_Id (outcome_for request r) = i \<and> out_Config (outcome_for request r) = n"
    by (simp add: outcome_for_def assms(10,11))
  moreover have "s_outcomes (st w') (evt_EventId e, n) = Some (outcome_for request r)"
    "s_machines (st w') = s_machines s2" "s_events (st w') = s_events s2"
    by (simp_all add: w')
  ultimately show ?thesis using m ev \<open>sound w'\<close> by auto
qed

subsection \<open>A machine and its configuration in the store\<close>

lemma plain_messages [simp]:
  "message (cfg_codec plain_codecs) (Some (RString (enc_cfg c))) = Some c"
  "message (fsm_codec plain_codecs) (Some (RString (enc_fsm m))) = Some m"
  using faithfulD [OF plain.cfg_faithful, of c] faithfulD [OF plain.fsm_faithful, of m] by simp_all

lemma sound_rover_db [simp]: "sound_db plain_codecs rover_db"
proof -
  let ?v1 = "Some (RString (enc_cfg lander_cfg))"
    and ?v2 = "Some (RString (enc_fsm (csm_FSM (lander ''earth''))))"
  let ?d1 = "Map.empty(key_of (Config ''rover'' ''v2'') := ?v1)"
  let ?d2 = "?d1(key_of (Machine ''m1'' ''rover'') := ?v2)"
  have p: "plain ''rover''" by (simp add: plain_def)
  have "sound_db plain_codecs ?d1"
    by (rule sound_db_upd [OF sound_db_empty]) (simp_all add: p lander_cfg_def)
  then have "sound_db plain_codecs ?d2"
    by (rule sound_db_upd) (simp_all add: p lander_def version_id_def)
  then have "sound_db plain_codecs (?d2(key_of (ByState ''rover'' ''earth'') := Some (RSet {|''m1''|})))"
    by (rule sound_db_upd) (simp_all add: p)
  then show ?thesis by (simp add: rover_db_def ConfigurationVersionSeparator_def)
qed

definition mem_listener :: "EventRequest list \<Rightarrow> mem EventsListener" where
  "mem_listener reqs = NewEventsListener
     \<lparr>EventsChannel = reqs, NotificationsChannel = True,
      StatemachinesStore = RedisStore_manager mem_runtime plain_codecs mem_store\<rparr>"

definition launch_request :: EventRequest where
  "launch_request = \<lparr>req_Event = Some (event_named ''launch''), req_Config = ''rover'', req_Id = ''m1''\<rparr>"

lemma mem_listener_store [simp]:
  "l_store (mem_listener reqs) = RedisStore_manager mem_runtime plain_codecs mem_store"
  "l_events (mem_listener reqs) = reqs"
  by (simp_all add: mem_listener_def NewEventsListener_def)

lemma launch_complete: "complete launch_request" "req_Event launch_request = Some (event_named ''launch'')"
    "plain (req_Config launch_request)"
  by (simp_all add: complete_def launch_request_def event_named_def plain_def)

lemma plain_can_marshal [simp]:
  "can_marshal (cfg_codec plain_codecs) c" "can_marshal (fsm_codec plain_codecs) m"
  "can_marshal (evt_codec plain_codecs) e" "can_marshal (out_codec plain_codecs) out"
  by (simp_all add: can_marshal_def)

theorem listener_records_the_outcome_witness:
  "\<exists>out. s_outcomes (abs_db plain_codecs (v_db (mem_view (snd
       (process_request (mem_listener []) launch_request (mem_world rover_db))))))
       (''e1'', ''rover'') = Some out \<and> out_Code out = Ok"
proof -
  have s: "sound_db plain_codecs (v_db (mem_view (mem_world rover_db)))"
    by (simp add: mem_world_def start_view_def)
  have "expected_code (can_marshal (fsm_codec plain_codecs)) (abs_db plain_codecs rover_db) ''m1'' ''rover''
      (event_named ''launch'') = Ok"
    by code_simp
  moreover have "evt_EventId (event_named ''launch'') = ''e1''" by (simp add: event_named_def)
  moreover note listener_records_the_outcome [OF mem_store.refines mem_listener_store(1) launch_complete(1,2) s
      launch_complete(3) plain_can_marshal(3,4) prod.collapse [symmetric] refl refl, of "[]"]
  ultimately show ?thesis
    by (auto simp: launch_request_def mem_world_def start_view_def)
qed

section \<open>When the listener stops\<close>

text \<open>
  C35. The listener over the Redis store, whatever the server does: a request makes it panic, and
  with it the whole server, exactly when the request has an id and a configuration name, its event
  has no transition, and the event was stored; nothing checks the transition of an event that does
  not come through gRPC before it is read for a log message.
\<close>

theorem listener_panics_iff:
  assumes "redis_store rc rt view cs csm" and "l_store l = RedisStore_manager rt cs csm"
    and "plain (req_Config request)"
  shows "fst (process_request l request w) = Panic \<longleftrightarrow>
     req_Id request \<noteq> '''' \<and> req_Config request \<noteq> '''' \<and>
     Option.bind (req_Event request) evt_Transition = None \<and>
     fst (RedisStore_PutEvent rt cs csm (req_Event request) (req_Config request) NeverExpire w) = None"
proof -
  have "fst (RedisStore_TxProcessEvent rt cs csm (req_Id request) (req_Config request) (req_Event request) v) \<noteq> Panic"
    if "Option.bind (req_Event request) evt_Transition \<noteq> None" for v
    using redis_store.TxProcessEvent_spec [OF assms(1) prod.collapse [symmetric] assms(3), of "req_Id request"
        "req_Event request" v] that
    by (auto simp: processed_def)
  then show ?thesis
    using process_request_panics [of request l w] assms(2) by (simp add: RedisStore_manager_def)
qed

theorem listener_panics_iff_witness:
  "fst (process_request (mem_listener []) (launch_request\<lparr>req_Event :=
      Some ((event_named ''launch'')\<lparr>evt_Transition := None\<rparr>)\<rparr>) (mem_world rover_db)) = Panic"
proof -
  let ?r = "launch_request\<lparr>req_Event := Some ((event_named ''launch'')\<lparr>evt_Transition := None\<rparr>)\<rparr>"
  have "plain (req_Config ?r)" by (simp add: launch_request_def plain_def)
  moreover have "fst (RedisStore_PutEvent mem_runtime plain_codecs mem_store (req_Event ?r)
      (req_Config ?r) NeverExpire (mem_world rover_db)) = None" by code_simp
  ultimately show ?thesis
    using listener_panics_iff [OF mem_store.redis_store_axioms mem_listener_store(1), of ?r "[]"]
    by (simp add: launch_request_def)
qed

section \<open>Every request gets an outcome\<close>

text \<open>The id under which the outcome of a request is stored, and the requests that do not panic.\<close>

definition event_id :: "EventRequest \<Rightarrow> string" where
  "event_id request = (case req_Event request of None \<Rightarrow> '''' | Some e \<Rightarrow> evt_EventId e)"

definition any_outcome :: "EventRequest \<Rightarrow> StatusCode \<Rightarrow> string \<Rightarrow> EventOutcome" where
  "any_outcome request code details =
     \<lparr>out_Code = code, out_Details = details, out_Config = req_Config request, out_Id = req_Id request\<rparr>"

context store_manager
begin

lemma post_law:
  assumes "PostNotificationAndReportOutcome l (makeResponse request code details) w = (p, w')"
    and "l_store l = sm" and "sound w" and "plain (req_Config request)"
    and "can_out (any_outcome request code details)"
  shows "sound w' \<and>
    p = Ret (if l_notifications l then [\<lparr>resp_EventId = event_id request,
               resp_Outcome = Some (any_outcome request code details)\<rparr>] else []) \<and>
    st w' = (st w)\<lparr>s_outcomes := (s_outcomes (st w))((event_id request, req_Config request) \<mapsto>
               any_outcome request code details)\<rparr>"
proof -
  obtain e v where c: "sm_AddEventOutcome sm (event_id request) (req_Config request)
      (Some (any_outcome request code details)) NeverExpire w = (e, v)" by fastforce
  show ?thesis
    using AddEventOutcome_law [OF c assms(3,4)] assms(1,2,5) c
    by (auto simp: PostNotificationAndReportOutcome_def makeResponse_def reportOutcome_def
        event_id_def any_outcome_def)
qed

text \<open>What one request leaves: an outcome under its id, which is posted when it is not \<^verbatim>\<open>Ok\<close>.\<close>

lemma process_outcomes: "process ok i n evt s (r, s') \<Longrightarrow> s_outcomes s' = s_outcomes s"
  by (auto simp: process_def split: option.splits go.splits if_splits)

lemma request_gets_outcome:
  assumes "process_request l request w = (p, w')" and "l_store l = sm" and "sound w"
    and "plain (req_Config request)" and "harmless request"
    and out: "\<And>code details. can_out (any_outcome request code details)"
  shows "sound w' \<and> (\<exists>out. s_outcomes (st w') = (s_outcomes (st w))((event_id request, req_Config request) \<mapsto> out) \<and>
    p = Ret (if out_Code out \<noteq> Ok \<and> l_notifications l
             then [\<lparr>resp_EventId = event_id request, resp_Outcome = Some out\<rparr>] else []))"
proof -
  have posted: ?thesis if "PostNotificationAndReportOutcome l (makeResponse request code details) v = (p, w')"
      "sound v" "s_outcomes (st v) = s_outcomes (st w)" "code \<noteq> Ok" for v code details
    using post_law [OF that(1) assms(2) that(2) assms(4) out] that(3,4)
    by (intro conjI exI [of _ "any_outcome request code details"]) (auto simp: any_outcome_def)
  have put: "sound v \<and> s_outcomes (st v) = s_outcomes (st w) \<and> (req_Event request = None \<longrightarrow> err \<noteq> None) \<and>
      (\<forall>e. req_Event request = Some e \<and> err = None \<longrightarrow> can_evt e)"
    if "sm_PutEvent (l_store l) (req_Event request) (req_Config request) NeverExpire w = (err, v)" for err v
    using that [unfolded assms(2)] assms(3)
    by (cases "req_Event request") (auto simp: PutEvent_nil split: if_splits dest!: PutEvent_law [OF _ assms(3,4)])
  from assms(1) show ?thesis
  proof (cases rule: process_request_cases)
    case (missing details)
    then show ?thesis by (rule posted) (simp_all add: assms(3))
  next
    case (unstored err w1 details)
    then show ?thesis using posted [OF unstored(2)] put [OF unstored(1)] by simp
  next
    case no_transition
    then show ?thesis using put assms(5) by auto
  next
    case (processed w1 g w2)
    then obtain e where e: "req_Event request = Some e" by (auto elim: completeE)
    then have "can_evt e" using put [OF processed(2)] by simp
    moreover have "can_out (outcome_for request r)" for r
      using out [of "outcome_code r" "outcome_details request r"] by (simp add: any_outcome_def outcome_for_def)
    ultimately obtain r s2 where r: "process can_fsm (req_Id request) (req_Config request) (Some e)
        ((st w)\<lparr>s_events := (s_events (st w))((evt_EventId e, req_Config request) \<mapsto> e)\<rparr>) (Ret r, s2)"
      and w': "sound w'"
        "st w' = s2\<lparr>s_outcomes := (s_outcomes s2)((evt_EventId e, req_Config request) \<mapsto> outcome_for request r)\<rparr>"
      and p: "p = Ret (if r \<noteq> None \<and> l_notifications l
          then [\<lparr>resp_EventId = evt_EventId e, resp_Outcome = Some (outcome_for request r)\<rparr>] else [])"
      using process_request_law [OF processed(1) e assms(2-4) _ _ assms(1)] by metis
    have "r \<noteq> None \<longleftrightarrow> out_Code (outcome_for request r) \<noteq> Ok"
      by (cases r) (simp_all add: outcome_for_def outcome_code_def)
    then show ?thesis
      using w' p e process_outcomes [OF r]
      by (intro conjI exI [of _ "outcome_for request r"]) (simp_all add: event_id_def)
  qed
qed

lemma requests_get_outcomes:
  assumes "ListenForMessages_loop l reqs w = (posted, r, w')" and "l_store l = sm" and "sound w"
    and "\<forall>request \<in> set reqs. plain (req_Config request) \<and> harmless request \<and>
           (\<forall>code details. can_out (any_outcome request code details))"
  shows "r = Ret () \<and> sound w' \<and> dom (s_outcomes (st w)) \<subseteq> dom (s_outcomes (st w')) \<and>
    (\<forall>request \<in> set reqs. s_outcomes (st w') (event_id request, req_Config request) \<noteq> None) \<and>
    (l_notifications l \<or> posted = []) \<and>
    (\<forall>x \<in> set posted. \<exists>out. resp_Outcome x = Some out \<and> out_Code out \<noteq> Ok)"
  using assms(1,3,4)
proof (induction reqs arbitrary: w posted)
  case (Cons request reqs)
  obtain p w1 where one: "process_request l request w = (p, w1)" by fastforce
  from request_gets_outcome [OF this assms(2) Cons.prems(2)] Cons.prems(3)
  have "sound w1 \<and> (\<exists>out. s_outcomes (st w1) = (s_outcomes (st w))((event_id request, req_Config request) \<mapsto> out) \<and>
    p = Ret (if out_Code out \<noteq> Ok \<and> l_notifications l
             then [\<lparr>resp_EventId = event_id request, resp_Outcome = Some out\<rparr>] else []))" by simp
  then obtain out where w1: "sound w1" and o: "s_outcomes (st w1) = (s_outcomes (st w))((event_id request, req_Config request) \<mapsto> out)"
    and p: "p = Ret (if out_Code out \<noteq> Ok \<and> l_notifications l
        then [\<lparr>resp_EventId = event_id request, resp_Outcome = Some out\<rparr>] else [])" by blast
  then obtain now where now: "p = Ret now" "l_notifications l \<or> now = []"
    "\<forall>x \<in> set now. \<exists>out. resp_Outcome x = Some out \<and> out_Code out \<noteq> Ok" by (simp split: if_splits)
  obtain later r' w2 where rest: "ListenForMessages_loop l reqs w1 = (later, r', w2)"
    using prod_cases3 by blast
  then have eq: "posted = now @ later" "r' = r" "w2 = w'" using Cons.prems(1) one now(1) by auto
  from Cons.IH [OF _ w1] rest eq Cons.prems(3)
  have ih: "r = Ret ()" "sound w'" "dom (s_outcomes (st w1)) \<subseteq> dom (s_outcomes (st w'))"
    "\<forall>request \<in> set reqs. s_outcomes (st w') (event_id request, req_Config request) \<noteq> None"
    "l_notifications l \<or> later = []"
    "\<forall>x \<in> set later. \<exists>out. resp_Outcome x = Some out \<and> out_Code out \<noteq> Ok"
    by auto
  have "s_outcomes (st w') (event_id request, req_Config request) \<noteq> None"
    using o ih(3) by auto
  moreover have "dom (s_outcomes (st w)) \<subseteq> dom (s_outcomes (st w'))" using o ih(3) by auto
  moreover have "l_notifications l \<or> posted = []" using now(2) ih(5) eq(1) by auto
  moreover have "\<forall>x \<in> set posted. \<exists>out. resp_Outcome x = Some out \<and> out_Code out \<noteq> Ok"
    using now(3) ih(6) eq(1) by auto
  ultimately show ?case using ih(1,2,4) by simp
qed auto

end

text \<open>
  C9. The listener keeps track of an outcome for each event, successful or not: with a store that
  keeps its contract, any list of requests, complete or not, of which none has an event without a
  transition, is processed to the end; afterwards every one of them has an outcome stored under
  its event's id and configuration name. Only outcomes that are not \<^verbatim>\<open>Ok\<close> are posted as notifications,
  and none when there is no channel for them.
\<close>

theorem every_request_gets_an_outcome:
  assumes "store_manager sm rt st sound can_cfg can_fsm can_evt can_out" and "l_store l = sm"
    and "sound w"
    and "\<forall>request \<in> set (l_events l). plain (req_Config request) \<and> harmless request \<and>
           (\<forall>code details. can_out (any_outcome request code details))"
    and "ListenForMessages l w = (posted, r, w')"
  shows "r = Ret () \<and> sound w' \<and>
    (\<forall>request \<in> set (l_events l). s_outcomes (st w') (event_id request, req_Config request) \<noteq> None) \<and>
    (l_notifications l \<or> posted = []) \<and>
    (\<forall>x \<in> set posted. \<exists>out. resp_Outcome x = Some out \<and> out_Code out \<noteq> Ok)"
  using store_manager.requests_get_outcomes [OF assms(1) _ assms(2-4)] assms(5)
  by (simp add: ListenForMessages_def)

theorem every_request_gets_an_outcome_witness:
  "let s = abs_db plain_codecs (v_db (mem_view (snd (snd (ListenForMessages
       (mem_listener [launch_request, launch_request\<lparr>req_Id := ''''\<rparr>, launch_request\<lparr>req_Event := None\<rparr>])
       (mem_world rover_db))))))
   in s_outcomes s (''e1'', ''rover'') \<noteq> None \<and> s_outcomes s ('''', ''rover'') \<noteq> None"
proof -
  let ?reqs = "[launch_request, launch_request\<lparr>req_Id := ''''\<rparr>, launch_request\<lparr>req_Event := None\<rparr>]"
  have s: "sound_db plain_codecs (v_db (mem_view (mem_world rover_db)))"
    by (simp add: mem_world_def start_view_def)
  have h: "\<forall>request \<in> set (l_events (mem_listener ?reqs)). plain (req_Config request) \<and> harmless request \<and>
      (\<forall>code details. can_marshal (out_codec plain_codecs) (any_outcome request code details))"
    by (simp add: launch_request_def harmless_def plain_def event_named_def)
  obtain posted r w' where run: "ListenForMessages (mem_listener ?reqs) (mem_world rover_db) = (posted, r, w')"
    using prod_cases3 by blast
  from every_request_gets_an_outcome [OF mem_store.refines mem_listener_store(1) s h run] run
  show ?thesis by (simp add: Let_def event_id_def launch_request_def event_named_def)
qed

end
