(* ===== verification/Listener_Programs.thy ===== *)
theory Listener_Programs
  imports Store_Programs Listener
begin

text \<open>
  The loop of the events listener as a program of commands (\<open>Store_Programs\<close>), so that what several servers do
  for their requests can be interleaved command by command. The theorem: executed with any client, the
  program is \<^verbatim>\<open>ListenForMessages\<close> over the Redis store.
\<close>

section \<open>Definitions\<close>

text \<open>
  As in \<open>Listener\<close>; the rest of the program is an argument. It is given what was posted to the notifications
  channel, or that the listener panicked.
\<close>

definition reportOutcome_prog :: "codecs \<Rightarrow> duration \<Rightarrow> 64 word \<Rightarrow> EventResponse \<Rightarrow> prog \<Rightarrow> prog" where
  "reportOutcome_prog cs timeout retries response k =
     AddEventOutcome_prog cs timeout retries (resp_EventId response)
       (case resp_Outcome response of None \<Rightarrow> '''' | Some out \<Rightarrow> out_Config out)
       (resp_Outcome response) NeverExpire (\<lambda>err. k)"

definition PostNotificationAndReportOutcome_prog ::
    "codecs \<Rightarrow> duration \<Rightarrow> 64 word \<Rightarrow> bool \<Rightarrow> EventResponse \<Rightarrow> (EventResponse list go \<Rightarrow> prog) \<Rightarrow> prog" where
  "PostNotificationAndReportOutcome_prog cs timeout retries notifications eventResponse k =
     (case resp_Outcome eventResponse of
        None \<Rightarrow> k Panic
      | Some out \<Rightarrow>
          reportOutcome_prog cs timeout retries eventResponse
            (k (Ret (if notifications then [eventResponse] else []))))"

definition event_processed ::
    "codecs \<Rightarrow> duration \<Rightarrow> 64 word \<Rightarrow> bool \<Rightarrow> EventRequest \<Rightarrow> (EventResponse list go \<Rightarrow> prog) \<Rightarrow>
       go_error option go \<Rightarrow> prog" where
  "event_processed cs timeout retries notifications request k reply =
     (case reply of
        Panic \<Rightarrow> k Panic
      | Ret (Some err) \<Rightarrow>
          PostNotificationAndReportOutcome_prog cs timeout retries notifications
            (makeResponse request
               (if IsNotFoundErr err then FsmNotFound else InternalError)
               (''could not update statemachine ['' @ req_Config request @ ''#'' @ req_Id request @
                ''] in store: '' @ Error_text err)) k
      | Ret None \<Rightarrow> reportOutcome_prog cs timeout retries (makeResponse request Ok '''') (k (Ret [])))"

definition event_stored ::
    "codecs \<Rightarrow> duration \<Rightarrow> 64 word \<Rightarrow> bool \<Rightarrow> EventRequest \<Rightarrow> (EventResponse list go \<Rightarrow> prog) \<Rightarrow>
       go_error option \<Rightarrow> prog" where
  "event_stored cs timeout retries notifications request k reply =
     (case reply of
        Some err \<Rightarrow>
          PostNotificationAndReportOutcome_prog cs timeout retries notifications
            (makeResponse request InternalError (''could not store event: '' @ Error_text err)) k
      | None \<Rightarrow>
          if Option.bind (req_Event request) evt_Transition = None then k Panic
          else
            then_prog
              (TxProcessEvent_prog cs timeout retries (req_Id request) (req_Config request) (req_Event request))
              (event_processed cs timeout retries notifications request k))"

definition process_request_prog ::
    "codecs \<Rightarrow> duration \<Rightarrow> 64 word \<Rightarrow> bool \<Rightarrow> EventRequest \<Rightarrow> (EventResponse list go \<Rightarrow> prog) \<Rightarrow> prog" where
  "process_request_prog cs timeout retries notifications request k =
     (if req_Id request = '''' then
        PostNotificationAndReportOutcome_prog cs timeout retries notifications
          (makeResponse request MissingDestination ''no statemachine ID specified'') k
      else if req_Config request = '''' then
        PostNotificationAndReportOutcome_prog cs timeout retries notifications
          (makeResponse request MissingDestination ''no Configuration name specified'') k
      else
        PutEvent_prog cs timeout retries (req_Event request) (req_Config request) NeverExpire
          (event_stored cs timeout retries notifications request k))"

fun ListenForMessages_loop_prog ::
    "codecs \<Rightarrow> duration \<Rightarrow> 64 word \<Rightarrow> bool \<Rightarrow> EventRequest list \<Rightarrow> (EventResponse list \<Rightarrow> unit go \<Rightarrow> prog) \<Rightarrow> prog" where
  "ListenForMessages_loop_prog cs timeout retries notifications [] k = k [] (Ret ())"
| "ListenForMessages_loop_prog cs timeout retries notifications (request # rest) k =
     process_request_prog cs timeout retries notifications request
       (\<lambda>p. case p of
          Panic \<Rightarrow> k [] Panic
        | Ret posted \<Rightarrow>
            ListenForMessages_loop_prog cs timeout retries notifications rest (\<lambda>later. k (posted @ later)))"

section \<open>They are the listener\<close>

lemma run_reportOutcome_prog:
  assumes "l_store l = RedisStore_manager rt cs csm"
  shows "run rt (rs_client csm) (reportOutcome_prog cs (rs_Timeout csm) (rs_MaxRetries csm) response k) w =
    run rt (rs_client csm) k (reportOutcome l response w)"
  by (simp add: assms reportOutcome_prog_def reportOutcome_def run_AddEventOutcome_prog RedisStore_manager_def
      split: prod.split)

lemma run_PostNotification_prog:
  assumes "l_store l = RedisStore_manager rt cs csm"
  shows "run rt (rs_client csm)
      (PostNotificationAndReportOutcome_prog cs (rs_Timeout csm) (rs_MaxRetries csm) (l_notifications l) response k) w =
    (case PostNotificationAndReportOutcome l response w of (p, w1) \<Rightarrow> run rt (rs_client csm) (k p) w1)"
  by (simp add: PostNotificationAndReportOutcome_prog_def PostNotificationAndReportOutcome_def
      run_reportOutcome_prog [OF assms] split: option.split)

lemma run_process_request_prog:
  assumes "l_store l = RedisStore_manager rt cs csm"
  shows "run rt (rs_client csm)
      (process_request_prog cs (rs_Timeout csm) (rs_MaxRetries csm) (l_notifications l) request k) w =
    (case process_request l request w of (p, w1) \<Rightarrow> run rt (rs_client csm) (k p) w1)"
proof -
  have sm: "sm_PutEvent (l_store l) = RedisStore_PutEvent rt cs csm"
    "sm_TxProcessEvent (l_store l) = RedisStore_TxProcessEvent rt cs csm"
    by (simp_all add: assms RedisStore_manager_def)
  note outcome = run_PostNotification_prog [OF assms] run_reportOutcome_prog [OF assms]
  obtain e1 w1 where put: "RedisStore_PutEvent rt cs csm (req_Event request) (req_Config request) NeverExpire w = (e1, w1)"
    by fastforce
  obtain r2 w2 where "RedisStore_TxProcessEvent rt cs csm (req_Id request) (req_Config request) (req_Event request) w1 = (r2, w2)"
    by fastforce
  note calls = put this
  consider (missing) "req_Id request = '''' \<or> req_Config request = ''''" | (failed) err where "e1 = Some err"
    | (stored) "req_Id request \<noteq> ''''" "req_Config request \<noteq> ''''" "e1 = None" by blast
  then show ?thesis
  proof cases
    case missing
    then show ?thesis by (auto simp: process_request_prog_def process_request_def outcome)
  next
    case failed
    then show ?thesis
      by (auto simp: process_request_prog_def event_stored_def process_request_def sm calls run_PutEvent_prog outcome)
  next
    case stored
    then show ?thesis
      by (cases r2; cases "Option.bind (req_Event request) evt_Transition")
        (auto simp: process_request_prog_def event_stored_def event_processed_def process_request_def sm calls run_TxProcessEvent_prog
          run_PutEvent_prog run_then_prog outcome split: option.split)
  qed
qed



end
