(* ===== verification/Concurrent_Listeners.thy ===== *)
theory Concurrent_Listeners
  imports Concurrent_Servers Listener_Programs
begin

text \<open>
  Any number of servers whose listeners process requests in one database, command by command: storing the event,
  \<^verbatim>\<open>TxProcessEvent\<close>, storing the outcome. The theorems: whatever the interleaving, and whatever commands fail, an
  outcome \<^verbatim>\<open>Ok\<close> is only ever stored for a request whose transaction has been executed, once; if no reply is
  lost, every request that has been processed has an outcome, which is \<^verbatim>\<open>Ok\<close> exactly when its transaction has
  been executed; and every request is processed.
\<close>

section \<open>The listeners\<close>

text \<open>
  A session for each request. A server processes its requests one after the other; these runs are among the
  interleavings.
\<close>

definition listener_prog :: "codecs \<Rightarrow> duration \<Rightarrow> 64 word \<Rightarrow> bool \<Rightarrow> EventRequest \<Rightarrow> prog" where
  "listener_prog cs timeout retries notifications request =
     process_request_prog cs timeout retries notifications request
       (\<lambda>p. Return (case p of Panic \<Rightarrow> Panic | Ret posted \<Rightarrow> Ret None))"

definition listeners_start :: "codecs \<Rightarrow> duration \<Rightarrow> 64 word \<Rightarrow> bool \<Rightarrow> EventRequest list \<Rightarrow> database \<Rightarrow> servers" where
  "listeners_start cs timeout retries notifications reqs d =
     sessions_start (map (listener_prog cs timeout retries notifications) reqs) d"

abbreviation outcome_key :: "EventRequest \<Rightarrow> string" where
  "outcome_key r \<equiv> NewKeyForOutcome (event_id r) (req_Config r)"

text \<open>
  What a listener writes for a request, the transaction apart; \<open>g\<close> tells that the transaction has been executed.
\<close>

definition request_writes :: "codecs \<Rightarrow> EventRequest \<Rightarrow> bool \<Rightarrow> database \<Rightarrow> database \<Rightarrow> bool" where
  "request_writes cs r g d d' \<longleftrightarrow> listing_step d d' \<or>
     plain (req_Config r) \<and>
       ((\<exists>b. d' = set_string (NewKeyForEvent (event_id r) (req_Config r)) b d) \<or>
        (\<exists>out b. marshal (out_codec cs) out = Inr b \<and> d' = set_string (outcome_key r) b d \<and>
           out_Id out = req_Id r \<and> out_Config out = req_Config r \<and> (out_Code out = Ok \<longrightarrow> g)))"

text \<open>What else may happen to the database: nothing replaces a configuration or a machine, or writes an outcome of these requests.\<close>

definition requests_kept :: "EventRequest list \<Rightarrow> database \<Rightarrow> database \<Rightarrow> bool" where
  "requests_kept reqs d d' \<longleftrightarrow> objects_kept d d' \<and> (\<forall>r \<in> set reqs. d' (outcome_key r) = d (outcome_key r))"

text \<open>In an interleaving nobody else writes the outcome of a request.\<close>

definition listener_guar :: "codecs \<Rightarrow> EventRequest list \<Rightarrow> nat \<Rightarrow> bool \<Rightarrow> database \<Rightarrow> database \<Rightarrow> bool" where
  "listener_guar cs reqs k g d d' \<longleftrightarrow> request_writes cs (reqs ! k) g d d' \<and>
     (\<forall>j < length reqs. j \<noteq> k \<longrightarrow> d' (outcome_key (reqs ! j)) = d (outcome_key (reqs ! j)))"

definition listener_rely :: "EventRequest list \<Rightarrow> nat \<Rightarrow> database \<Rightarrow> database \<Rightarrow> bool" where
  "listener_rely reqs j d d' \<longleftrightarrow> configs_kept d d' \<and>
     (j < length reqs \<longrightarrow> d' (outcome_key (reqs ! j)) = d (outcome_key (reqs ! j)))"

text \<open>
  When the processing of a request has ended: there was no panic, unless its event has no transition, and when no
  reply is lost its outcome is stored.
\<close>

definition recordable :: "codecs \<Rightarrow> EventRequest \<Rightarrow> bool" where
  "recordable cs r \<longleftrightarrow> (\<forall>code details. can_marshal (out_codec cs) (any_outcome r code details))"

definition has_outcome :: "codecs \<Rightarrow> EventRequest \<Rightarrow> bool \<Rightarrow> database \<Rightarrow> bool" where
  "has_outcome cs r g d \<longleftrightarrow>
     (\<exists>code details. lookup (out_codec cs) d (outcome_key r) = Some (any_outcome r code details) \<and> (code = Ok \<longleftrightarrow> g))"

definition listener_post :: "codecs \<Rightarrow> bool \<Rightarrow> EventRequest \<Rightarrow> postcondition" where
  "listener_post cs lossy r g x v \<longleftrightarrow> (harmless r \<longrightarrow> x = Ret None) \<and>
     (x = Ret None \<and> \<not> lossy \<and> recordable cs r \<longrightarrow> has_outcome cs r g (v_db v))"

section \<open>Keys\<close>

lemma outcome_key_other:
  assumes "plain (req_Config r)" and "plain n"
  shows "NewKeyForEvent i n \<noteq> outcome_key r" and "NewKeyForMachine i n \<noteq> NewKeyForEvent j (req_Config r)"
    and "NewKeyForOutcome i n = outcome_key r \<longleftrightarrow> i = event_id r \<and> n = req_Config r"
  using assms key_of_inject [of "StoredEvent i n" "Outcome (event_id r) (req_Config r)"]
    key_of_inject [of "Machine i n" "StoredEvent j (req_Config r)"]
    key_of_inject [of "Outcome i n" "Outcome (event_id r) (req_Config r)"] by simp_all

lemma other_prefix:
  "NewKeyForConfig c \<noteq> NewKeyForEvent i n" "NewKeyForConfig c \<noteq> NewKeyForOutcome i n"
  "NewKeyForOutcome i n \<noteq> NewKeyForMachine i' n'" "NewKeyForOutcome i n \<noteq> NewKeyForMachinesByState n' x"
  by (simp_all add: key_eqs)

lemma writes_keep_objects: "request_writes cs r g d d' \<Longrightarrow> objects_kept d d'"
  using listing_keeps_objects outcome_key_other(2) other_prefix other_prefix(3) [THEN not_sym]
  by (auto simp: request_writes_def objects_kept_def configs_kept_def set_string_apply)

text \<open>Requests of which no two have the same outcome.\<close>

definition distinct_requests :: "EventRequest list \<Rightarrow> bool" where
  "distinct_requests reqs \<longleftrightarrow> (\<forall>r \<in> set reqs. plain (req_Config r)) \<and>
     distinct (map (\<lambda>r. (event_id r, req_Config r)) reqs)"

lemma distinct_requests_plain: "distinct_requests reqs \<Longrightarrow> j < length reqs \<Longrightarrow> plain (req_Config (reqs ! j))"
  by (simp add: distinct_requests_def)

lemma same_outcome_key:
  assumes "distinct_requests reqs" and "j < length reqs" and "k < length reqs"
  shows "outcome_key (reqs ! j) = outcome_key (reqs ! k) \<longleftrightarrow> j = k"
  using assms distinct_requests_plain outcome_key_other(3) [of "reqs ! k" "req_Config (reqs ! j)"]
  by (auto simp: distinct_conv_nth distinct_requests_def)

lemma event_key_not_outcome:
  assumes "distinct_requests reqs" and "j < length reqs" and "k < length reqs"
  shows "NewKeyForEvent i (req_Config (reqs ! k)) \<noteq> outcome_key (reqs ! j)"
  using assms distinct_requests_plain outcome_key_other(1) by simp

section \<open>What a listener does whatever the others do\<close>

lemma listing_steps:
  "plain n \<Longrightarrow> listing_step d (add_member (NewKeyForMachinesByState n x) i d)"
  "plain n \<Longrightarrow> listing_step d (remove_member (NewKeyForMachinesByState n x) i d)"
  by (auto simp: listing_step_def)

interpretation listener: transacting "listener_rely reqs j" "listener_guar cs reqs j" for cs reqs j
  using other_prefix(4) configs_kept.rely_trans configs_kept.rely_add configs_kept.rely_remove configs_kept.rely_config
  by unfold_locales
     (auto simp: listener_rely_def listener_guar_def request_writes_def listing_steps configs_kept.rely_refl)

lemma safe_report:
  assumes "distinct_requests reqs" and "j < length reqs" and "faithful (out_codec cs)" and "code = Ok \<Longrightarrow> g" and "g \<Longrightarrow> lossy \<or> code = Ok"
  shows "safe lossy (listener_rely reqs j) (listener_guar cs reqs j) commit
    (reportOutcome_prog cs t retries (makeResponse (reqs ! j) code details) (Return (Ret None)))
    (listener_post cs lossy (reqs ! j)) g v"
proof -
  let ?r = "reqs ! j" and ?out = "any_outcome (reqs ! j) code details"
  have "safe lossy (listener_rely reqs j) (listener_guar cs reqs j) commit
      (put_prog (out_codec cs) t (outcome_key ?r) ?out NeverExpire retries (\<lambda>err. Return (Ret None)))
      (listener_post cs lossy ?r) g v"
  proof (rule listener.safe_put, goal_cases)
    case (1 d b)
    then have "request_writes cs ?r g d (set_string (outcome_key ?r) b d)"
      unfolding request_writes_def using assms(2,4) distinct_requests_plain [OF assms(1)]
      by (intro disjI2 conjI exI [of _ ?out] exI [of _ b]) (auto simp: any_outcome_def)
    then show ?case using same_outcome_key [OF assms(1)] assms(2) by (simp add: listener_guar_def set_string_apply)
  next
    case (2 e v)
    then have "lossy \<or> \<not> recordable cs ?r" by (auto simp: recordable_def can_marshal_iff) (metis sum.distinct(1))
    then show ?case by (auto simp: listener_post_def)
  next
    case (3 b u v)
    then have "lookup (out_codec cs) (v_db v) (outcome_key ?r) = Some ?out"
      using assms(2) faithfulD [OF assms(3) 3(1)] by (simp add: interferes_def listener_rely_def lookup_def)
    then show ?case using assms(4,5) by (auto simp: listener_post_def has_outcome_def)
  qed
  then show ?thesis
    by (simp add: reportOutcome_prog_def AddEventOutcome_prog_def makeResponse_def any_outcome_def event_id_def)
qed

lemma safe_listener_prog:
  assumes "distinct_requests reqs" and "j < length reqs" and "faithful (out_codec cs)"
  shows "safe lossy (listener_rely reqs j) (listener_guar cs reqs j) (request_commits cs reqs j)
    (listener_prog cs t retries notifications (reqs ! j)) (listener_post cs lossy (reqs ! j)) False v"
proof -
  let ?r = "reqs ! j"
  let ?safe = "safe lossy (listener_rely reqs j) (listener_guar cs reqs j) (request_commits cs reqs j)"
  let ?Q = "listener_post cs lossy ?r"
  define k where "k = (\<lambda>p. Return (case p of Panic \<Rightarrow> Panic | Ret (posted :: EventResponse list) \<Rightarrow> Ret None))"
  have k: "k Panic = Return Panic" "k (Ret posted) = Return (Ret None)" for posted by (simp_all add: k_def)
  have p: "plain (req_Config ?r)" using assms(1,2) by (rule distinct_requests_plain)
  have post: "?safe (PostNotificationAndReportOutcome_prog cs t retries notifications (makeResponse ?r code details) k) ?Q g u"
    if "code \<noteq> Ok" "\<not> g \<or> lossy" for code details g u
  proof -
    have "?safe (reportOutcome_prog cs t retries (makeResponse ?r code details) (Return (Ret None))) ?Q g u"
      by (rule safe_report [OF assms]) (use that in auto)
    then show ?thesis by (simp add: PostNotificationAndReportOutcome_prog_def makeResponse_def k)
  qed
  have failed: "?safe (event_stored cs t retries notifications ?r k (Some err)) ?Q False u" for err u
    unfolding event_stored_def option.case by (rule post) simp_all
  have processed: "?safe (event_processed cs t retries notifications ?r k x) ?Q g u"
    if "(x = Ret None \<longrightarrow> g) \<and> (g \<and> \<not> lossy \<longrightarrow> x = Ret None) \<and> (x = Panic \<longrightarrow> \<not> harmless ?r)" for x g u
  proof (cases "\<exists>err. x = Ret (Some err)")
    case True
    then obtain err where x: "x = Ret (Some err)" by blast
    then have "\<not> g \<or> lossy" using that by auto
    then show ?thesis unfolding x event_processed_def go.case option.case by (intro post) (simp_all split: if_splits)
  next
    case False
    then consider "x = Panic" | "x = Ret None" by (metis go.exhaust not_Some_eq)
    then show ?thesis
    proof cases
      case 1
      then show ?thesis using that by (simp add: event_processed_def k listener_post_def)
    next
      case 2
      have "?safe (reportOutcome_prog cs t retries (makeResponse ?r Ok '''') (Return (Ret None))) ?Q g u"
        by (rule safe_report [OF assms]) (use that 2 in auto)
      then show ?thesis using 2 by (simp add: event_processed_def k)
    qed
  qed
  have stored: "?safe (event_stored cs t retries notifications ?r k e) ?Q False u"
    if h: "Option.bind (req_Event ?r) evt_Transition = None \<Longrightarrow> \<not> harmless ?r" for e u
  proof -
    have "(\<lambda>g x v. (x = Ret None \<longrightarrow> g) \<and> (g \<and> \<not> lossy \<longrightarrow> x = Ret None) \<and>
          (x = Panic \<longrightarrow> Option.bind (req_Event ?r) evt_Transition = None)) \<le>
        (\<lambda>g x v. ?safe (event_processed cs t retries notifications ?r k x) ?Q g v)"
      using h by (intro le_funI le_boolI processed) blast
    from safe_then [OF safe_mono [OF listener.safe_TxProcessEvent [OF p] this]] show ?thesis
      using h failed
      by (cases e) (simp_all add: event_stored_def [of cs t retries notifications ?r k None] k listener_post_def)
  qed
  have "?safe (put_prog (evt_codec cs) t (NewKeyForEvent (evt_EventId e) (req_Config ?r)) e NeverExpire retries
      (event_stored cs t retries notifications ?r k)) ?Q False v"
    if "req_Event ?r = Some e" "req_Id ?r \<noteq> ''''" "req_Config ?r \<noteq> ''''" for e
  proof (rule listener.safe_put, goal_cases)
    case (1 d b)
    then show ?case
      using that p event_key_not_outcome [OF assms(1), THEN not_sym] assms(2)
      by (auto simp: listener_guar_def request_writes_def event_id_def set_string_apply)
  qed (use that failed stored in \<open>auto simp: harmless_def\<close>)
  with failed have "?safe (PutEvent_prog cs t retries (req_Event ?r) (req_Config ?r) NeverExpire
      (event_stored cs t retries notifications ?r k)) ?Q False v" if "req_Id ?r \<noteq> ''''" "req_Config ?r \<noteq> ''''"
    using that by (cases "req_Event ?r") (simp_all add: PutEvent_prog_def)
  moreover have "?safe (PostNotificationAndReportOutcome_prog cs t retries notifications
      (makeResponse ?r MissingDestination details) k) ?Q False v" for details by (rule post) simp_all
  ultimately show ?thesis
    unfolding listener_prog_def k_def [symmetric] process_request_prog_def by presburger
qed

section \<open>The listeners together\<close>

interpretation listeners: processing "listener_rely reqs" "requests_kept reqs" "listener_guar cs reqs" lossy
    "\<lambda>j. listener_post cs lossy (reqs ! j)" cs reqs
  for cs reqs lossy
  using commits_keep_configs other_prefix(3) writes_keep_objects
  by unfold_locales
     (auto simp: listener_rely_def listener_guar_def requests_kept_def objects_kept_def commits_def set_string_apply
       intro: listener.others_rely_axioms)

abbreviation listeners_inv :: "bool \<Rightarrow> codecs \<Rightarrow> EventRequest list \<Rightarrow> servers \<Rightarrow> bool" where
  "listeners_inv lossy cs reqs \<equiv> servers_inv lossy (listener_rely reqs) (listener_guar cs reqs) (request_commits cs reqs)
     (\<lambda>j. listener_post cs lossy (reqs ! j)) (length reqs)"

lemma listeners_inv_start:
  assumes "distinct_requests reqs" and "faithful (out_codec cs)"
  shows "listeners_inv lossy cs reqs (listeners_start cs timeout retries notifications reqs d)"
  using safe_listener_prog [OF assms(1) _ assms(2)]
    servers_inv_start [of "map (listener_prog cs timeout retries notifications) reqs" lossy "listener_rely reqs" "listener_guar cs reqs"]
  by (simp add: listeners_start_def)

text \<open>The outcomes \<^verbatim>\<open>Ok\<close> that are stored for the requests are those of sessions in the log.\<close>

definition ok_logged :: "codecs \<Rightarrow> EventRequest list \<Rightarrow> servers \<Rightarrow> bool" where
  "ok_logged cs reqs s \<longleftrightarrow>
     (\<forall>j < length reqs. \<forall>out. lookup (out_codec cs) (s_db s) (outcome_key (reqs ! j)) = Some out \<and> out_Code out = Ok \<longrightarrow>
        j \<in> set (s_log s) \<and> out_Id out = req_Id (reqs ! j))"

lemma write_ok_logged:
  assumes "listener_guar cs reqs k (k \<in> set (s_log s)) (s_db s) (s_db s')" and "ok_logged cs reqs s"
    and "s_log s' = s_log s" and "faithful (out_codec cs)" and "distinct_requests reqs" and "k < length reqs"
  shows "ok_logged cs reqs s'"
proof -
  have "j \<in> set (s_log s) \<and> out_Id out = req_Id (reqs ! j)"
    if j: "j < length reqs" and out: "lookup (out_codec cs) (s_db s') (outcome_key (reqs ! j)) = Some out" "out_Code out = Ok"
    for j out
  proof (cases "s_db s' (outcome_key (reqs ! j)) = s_db s (outcome_key (reqs ! j))")
    case True
    then show ?thesis using assms(2) j out lookup_cong by (metis ok_logged_def)
  next
    case False
    then have "k = j" using assms(1) j by (auto simp: listener_guar_def)
    then obtain o' b where o': "marshal (out_codec cs) o' = Inr b" "s_db s' = set_string (outcome_key (reqs ! j)) b (s_db s)"
      "out_Id o' = req_Id (reqs ! j)" "out_Code o' = Ok \<longrightarrow> j \<in> set (s_log s)"
      using assms(1) False event_key_not_outcome [OF assms(5) j j, THEN not_sym] other_prefix(4)
      by (auto simp: listener_guar_def request_writes_def listing_step_def set_string_apply)
    then show ?thesis using out faithfulD [OF assms(4) o'(1)] by (auto simp: lookup_def set_string_apply)
  qed
  then show ?thesis using assms(3) by (simp add: ok_logged_def)
qed

lemma listeners_ok_logged:
  assumes "(interleaved lossy (requests_kept reqs))\<^sup>*\<^sup>* (listeners_start cs timeout retries notifications reqs d) s"
    and "faithful (out_codec cs)" and "distinct_requests reqs"
    and "\<forall>r \<in> set reqs. \<forall>out. lookup (out_codec cs) d (outcome_key r) = Some out \<longrightarrow> out_Code out \<noteq> Ok"
  shows "listeners_inv lossy cs reqs s \<and> ok_logged cs reqs s"
  using assms(1)
proof induction
  case base
  then show ?case
    using listeners_inv_start [OF assms(3,2)] assms(4) by (auto simp: ok_logged_def listeners_start_def sessions_start_def)
next
  case (step s s')
  then have inv: "listeners_inv lossy cs reqs s" and ok: "ok_logged cs reqs s" by auto
  have kept: "ok_logged cs reqs s'"
    if "\<forall>r \<in> set reqs. s_db s' (outcome_key r) = s_db s (outcome_key r)" "set (s_log s) \<subseteq> set (s_log s')"
    using that ok lookup_cong unfolding ok_logged_def by (metis nth_mem subsetD)
  from listeners.interleaved_step [OF step.hyps(2) inv] show ?case
  proof (elim conjE disjE exE, goal_cases)
    case (3 k)
    then show ?thesis using write_ok_logged [OF _ ok _ assms(2,3)] by simp
  next
    case (4 k)
    then obtain b where "s_db s' = set_string (NewKeyForMachine (req_Id (reqs ! k)) (req_Config (reqs ! k))) b (s_db s)"
      by (auto simp: commits_def)
    then have "\<forall>r \<in> set reqs. s_db s' (outcome_key r) = s_db s (outcome_key r)"
      using other_prefix(3) by (simp add: set_string_apply)
    then show ?thesis using 4 kept by auto
  qed (auto intro!: kept simp: requests_kept_def)
qed

text \<open>Requests with different event ids make different entries in a history.\<close>

lemma committed_ids_distinct:
  assumes "distinct log" and "set log \<subseteq> {..<length reqs}" and "distinct (map (\<lambda>r. (event_id r, req_Config r)) reqs)"
  shows "distinct (map event_id (committed reqs i n log))"
proof -
  have "inj_on (\<lambda>j. (event_id (reqs ! j), req_Config (reqs ! j))) (set log)"
    using assms(2,3) by (auto simp: inj_on_def distinct_conv_nth)
  then have "distinct (map (\<lambda>j. (event_id (reqs ! j), req_Config (reqs ! j))) log)" using assms(1) by (simp add: distinct_map)
  then have "distinct (map (\<lambda>j. (event_id (reqs ! j), req_Config (reqs ! j))) (filter (\<lambda>j. req_Config (reqs ! j) = n \<and> req_Id (reqs ! j) = i) log))"
    by (rule distinct_map_filter)
  then show ?thesis
    by (auto simp: committed_def filter_map comp_def distinct_map inj_on_def conj_commute)
qed

lemma entries_of_event:
  assumes "list_all2 (\<lambda>h r. \<exists>e t. req_Event r = Some e \<and> h = recorded e t) hs (committed reqs i n log)"
    and "distinct log" and "set log \<subseteq> {..<length reqs}" and "distinct_requests reqs"
    and "j < length reqs" and "req_Id (reqs ! j) = i" and "req_Config (reqs ! j) = n"
  shows "length (filter (\<lambda>h. evt_EventId h = event_id (reqs ! j)) hs) = (if j \<in> set log then 1 else 0)"
proof -
  let ?rs = "committed reqs i n log"
  have ids: "map evt_EventId hs = map event_id ?rs"
    using assms(1) by (induction) (auto simp: event_id_def recorded_def)
  have c: "length (filter (\<lambda>h. evt_EventId h = x) hs) = count_list (map evt_EventId hs) x" for x
    by (induction hs) auto
  have d: "distinct (map event_id ?rs)"
    using assms(2-4) by (intro committed_ids_distinct) (simp_all add: distinct_requests_def)
  show ?thesis
  proof (cases "j \<in> set log")
    case True
    then have "reqs ! j \<in> set ?rs" using assms(6,7) by (auto simp: committed_def)
    then show ?thesis using True ids c distinct_count_list [OF d] by simp
  next
    case False
    have "event_id (reqs ! j) \<noteq> event_id r" if r: "r \<in> set ?rs" for r
    proof -
      obtain k where k: "k \<in> set log" "r = reqs ! k" "req_Config r = n" using r by (auto simp: committed_def)
      then have "k < length reqs" "k \<noteq> j" using assms(3) False by auto
      then show ?thesis using k assms(4,5,7) by (auto simp: distinct_requests_def distinct_conv_nth)
    qed
    then have "event_id (reqs ! j) \<notin> set (map event_id ?rs)" by auto
    then show ?thesis using False ids c by (simp add: count_list_0_iff)
  qed
qed

text \<open>What the history of the machine of a request says, at any moment.\<close>

lemma listeners_history:
  assumes "wire cs" and "(interleaved lossy (requests_kept reqs))\<^sup>*\<^sup>* (listeners_start cs timeout retries notifications reqs d) s"
    and "distinct_requests reqs" and "j < length reqs"
    and "lookup (fsm_codec cs) d (NewKeyForMachine (req_Id (reqs ! j)) (req_Config (reqs ! j))) = Some m0"
    and "lookup (cfg_codec cs) d (NewKeyForConfig (fsm_ConfigId m0)) = Some c"
  obtains m hs where "lookup (fsm_codec cs) (s_db s) (NewKeyForMachine (req_Id (reqs ! j)) (req_Config (reqs ! j))) = Some m"
    and "fsm_History m = fsm_History m0 @ hs" and "path (cfg_Transitions c) (fsm_State m0) hs (fsm_State m)"
    and "length (filter (\<lambda>h. evt_EventId h = event_id (reqs ! j)) hs) = (if j \<in> set (s_log s) then 1 else 0)"
    and "j \<in> set (s_log s) \<Longrightarrow> \<exists>e t. req_Event (reqs ! j) = Some e \<and> recorded e t \<in> set hs"
proof -
  let ?s0 = "listeners_start cs timeout retries notifications reqs d" and ?r = "reqs ! j"
  let ?rs = "committed reqs (req_Id ?r) (req_Config ?r) (s_log s)"
  have s0: "s_log ?s0 = []" "s_db ?s0 = d" by (simp_all add: listeners_start_def sessions_start_def)
  note start = listeners_inv_start [OF assms(3) wire.out_faithful [OF assms(1)]]
  have "\<forall>r \<in> set reqs. plain (req_Config r)" using assms(3) by (simp add: distinct_requests_def)
  from listeners.interleaved_history [OF assms(2) start s0(1) wire.fsm_faithful [OF assms(1)] this
      distinct_requests_plain [OF assms(3,4)], of "req_Id ?r" m0 c] assms(5,6) s0(2)
  obtain m where inv: "listeners_inv lossy cs reqs s"
    and m: "lookup (fsm_codec cs) (s_db s) (NewKeyForMachine (req_Id ?r) (req_Config ?r)) = Some m" "went_on c m0 ?rs m"
    by auto
  obtain hs where hs: "fsm_History m = fsm_History m0 @ hs" "path (cfg_Transitions c) (fsm_State m0) hs (fsm_State m)"
    and rs: "list_all2 (\<lambda>h r. \<exists>e t. req_Event r = Some e \<and> h = recorded e t) hs ?rs"
    using m(2) by (auto simp: went_on_def)
  show thesis
  proof (rule that [OF m(1) hs])
    show "length (filter (\<lambda>h. evt_EventId h = event_id ?r) hs) = (if j \<in> set (s_log s) then 1 else 0)"
      by (rule entries_of_event [OF rs]) (use inv assms(3,4) in \<open>simp_all add: servers_inv_def\<close>)
    show "\<exists>e t. req_Event ?r = Some e \<and> recorded e t \<in> set hs" if "j \<in> set (s_log s)"
    proof -
      have "?r \<in> set ?rs" using that by (auto simp: committed_def)
      with rs show ?thesis by (induction) auto
    qed
  qed
qed

section \<open>What the outcomes say\<close>

text \<open>
  C5. Any number of servers process requests with different event ids, in one database, in every interleaving of
  the commands that store the events, of the calls of \<^verbatim>\<open>TxProcessEvent\<close> and of the commands that store
  the outcomes, with each other and with writes that replace no configuration or machine and no outcome of theirs; commands
  may fail and replies be lost. When an outcome \<^verbatim>\<open>Ok\<close> is found for a request for a machine that was stored at the
  start, it is for that machine, the request's transaction has been executed, and the history of the
  machine, which goes on from what it was along the configuration, has exactly one new entry with the id of the event.
\<close>

theorem ok_outcomes_are_of_applied_events:
  assumes "wire cs" and "distinct_requests reqs" and "r \<in> set reqs"
    and "(interleaved True (requests_kept reqs))\<^sup>*\<^sup>* (listeners_start cs timeout retries notifications reqs d) s"
    and "\<forall>r \<in> set reqs. \<forall>out. lookup (out_codec cs) d (NewKeyForOutcome (event_id r) (req_Config r)) = Some out \<longrightarrow>
      out_Code out \<noteq> Ok"
    and "lookup (fsm_codec cs) d (NewKeyForMachine (req_Id r) (req_Config r)) = Some m0"
    and "lookup (cfg_codec cs) d (NewKeyForConfig (fsm_ConfigId m0)) = Some c"
    and "lookup (out_codec cs) (s_db s) (NewKeyForOutcome (event_id r) (req_Config r)) = Some out" and "out_Code out = Ok"
  shows "out_Id out = req_Id r \<and>
    (\<exists>m hs. lookup (fsm_codec cs) (s_db s) (NewKeyForMachine (req_Id r) (req_Config r)) = Some m \<and>
       fsm_History m = fsm_History m0 @ hs \<and> path (cfg_Transitions c) (fsm_State m0) hs (fsm_State m) \<and>
       length (filter (\<lambda>h. evt_EventId h = event_id r) hs) = 1 \<and>
       (\<exists>e t. req_Event r = Some e \<and> recorded e t \<in> set hs))"
proof -
  obtain j where j: "j < length reqs" "r = reqs ! j" using assms(3) by (auto simp: in_set_conv_nth)
  have "ok_logged cs reqs s"
    using listeners_ok_logged [OF assms(4) wire.out_faithful [OF assms(1)] assms(2,5)] by simp
  then have log: "j \<in> set (s_log s)" "out_Id out = req_Id r" using j assms(8,9) by (auto simp: ok_logged_def)
  from listeners_history [OF assms(1,4,2) j(1) assms(6,7) [unfolded j(2)]] show ?thesis
    using log unfolding j(2) by metis
qed

text \<open>
  C6. When no executed transaction goes unreported and no \<^verbatim>\<open>SET\<close> fails, the outcomes say exactly what happened, in every such
  interleaving: a request whose processing has ended has an outcome in the store, for its machine; it is \<^verbatim>\<open>Ok\<close> if the
  history of the machine has one new entry with the id of the event, and some other code if it has none.
\<close>

theorem outcomes_say_what_happened:
  assumes "wire cs" and "distinct_requests reqs" and "j < length reqs" and "recordable cs (reqs ! j)"
    and "(interleaved False (requests_kept reqs))\<^sup>*\<^sup>* (listeners_start cs timeout retries notifications reqs d) s"
    and "returned (s_sessions s ! j) = Some (Ret None)"
    and "lookup (fsm_codec cs) d (NewKeyForMachine (req_Id (reqs ! j)) (req_Config (reqs ! j))) = Some m0"
    and "lookup (cfg_codec cs) d (NewKeyForConfig (fsm_ConfigId m0)) = Some c"
  shows "\<exists>out m hs.
    lookup (out_codec cs) (s_db s) (NewKeyForOutcome (event_id (reqs ! j)) (req_Config (reqs ! j))) = Some out \<and>
    out_Id out = req_Id (reqs ! j) \<and> out_Config out = req_Config (reqs ! j) \<and>
    lookup (fsm_codec cs) (s_db s) (NewKeyForMachine (req_Id (reqs ! j)) (req_Config (reqs ! j))) = Some m \<and>
    fsm_History m = fsm_History m0 @ hs \<and> path (cfg_Transitions c) (fsm_State m0) hs (fsm_State m) \<and>
    length (filter (\<lambda>h. evt_EventId h = event_id (reqs ! j)) hs) = (if out_Code out = Ok then 1 else 0)"
proof -
  have "listeners_inv False cs reqs s"
    using listeners.interleaved_inv [OF assms(5) listeners_inv_start [OF assms(2) wire.out_faithful [OF assms(1)]]] .
  from listeners.returned_post [OF this assms(3,6)] assms(4)
  obtain code details where "lookup (out_codec cs) (s_db s) (outcome_key (reqs ! j)) = Some (any_outcome (reqs ! j) code details)"
    "code = Ok \<longleftrightarrow> j \<in> set (s_log s)"
    by (auto simp: listener_post_def has_outcome_def view_of_def)
  moreover from listeners_history [OF assms(1,5,2,3,7,8)] obtain m hs where
    "lookup (fsm_codec cs) (s_db s) (NewKeyForMachine (req_Id (reqs ! j)) (req_Config (reqs ! j))) = Some m"
    "fsm_History m = fsm_History m0 @ hs" "path (cfg_Transitions c) (fsm_State m0) hs (fsm_State m)"
    "length (filter (\<lambda>h. evt_EventId h = event_id (reqs ! j)) hs) = (if j \<in> set (s_log s) then 1 else 0)" by metis
  ultimately show ?thesis
    by (intro exI [of _ "any_outcome (reqs ! j) code details"] exI [of _ m] exI [of _ hs]) (simp add: any_outcome_def)
qed

text \<open>
  Three listeners with a request each for one machine: the third reads the machine, then the second launches it and
  records the outcome; the third fails, reads again and records that it was refused; then the first lands the machine.
\<close>

definition three_events :: "EventRequest list" where
  "three_events =
     map (\<lambda>(i, e). \<lparr>req_Event = Some ((event_named e)\<lparr>evt_EventId := i\<rparr>), req_Config = ''rover'', req_Id = ''m1''\<rparr>)
       [(''a'', ''land''), (''b'', ''launch''), (''c'', ''launch'')]"

definition three_listeners :: servers where
  "three_listeners = fold turn (replicate 4 2 @ replicate 11 1 @ replicate 11 2 @ replicate 11 0)
     (listeners_start plain_codecs 1 1 True three_events rover_db)"

lemma three_listeners_outcomes:
  "map (\<lambda>i. map_option out_Code (lookup (out_codec plain_codecs) (s_db three_listeners) (NewKeyForOutcome i ''rover'')))
     [''a'', ''b'', ''c''] = [Some Ok, Some Ok, Some InternalError] \<and>
   map returned (s_sessions three_listeners) = replicate 3 (Some (Ret None))"
  by code_simp

lemma three_events_distinct: "distinct_requests three_events"
  by (simp add: distinct_requests_def three_events_def event_id_def plain_def)

lemma three_listeners_run:
  "(interleaved lossy (requests_kept three_events))\<^sup>*\<^sup>* (listeners_start plain_codecs 1 1 True three_events rover_db)
     three_listeners"
  unfolding three_listeners_def
  by (rule turns_interleaved) (auto simp: listeners_start_def sessions_start_def three_events_def requests_kept_def)

lemma three_events_machine:
  "lookup (fsm_codec plain_codecs) rover_db (NewKeyForMachine ''m1'' ''rover'') = Some (csm_FSM (lander ''earth''))"
  "lookup (cfg_codec plain_codecs) rover_db (NewKeyForConfig (fsm_ConfigId (csm_FSM (lander ''earth'')))) = Some lander_cfg"
  by code_simp+

lemma three_events_simps:
  "event_id (three_events ! 1) = ''b''" "event_id (three_events ! 2) = ''c''"
  "req_Config (three_events ! 1) = ''rover''" "req_Id (three_events ! 1) = ''m1''"
  "req_Config (three_events ! 2) = ''rover''" "req_Id (three_events ! 2) = ''m1''"
  "length three_events = 3"
  by (simp_all add: three_events_def event_id_def)

theorem ok_outcomes_are_of_applied_events_witness:
  "\<exists>m e t. lookup (fsm_codec plain_codecs) (s_db three_listeners) (NewKeyForMachine ''m1'' ''rover'') = Some m \<and>
     length (filter (\<lambda>h. evt_EventId h = ''b'') (fsm_History m)) = 1 \<and>
     req_Event (three_events ! 1) = Some e \<and> recorded e t \<in> set (fsm_History m)"
proof -
  let ?r = "three_events ! 1"
  have r: "?r \<in> set three_events" by (simp add: three_events_def)
  have "\<forall>r \<in> set three_events. lookup (out_codec plain_codecs) rover_db (NewKeyForOutcome (event_id r) (req_Config r)) = None"
    by code_simp
  then have n: "\<forall>r \<in> set three_events. \<forall>out.
      lookup (out_codec plain_codecs) rover_db (NewKeyForOutcome (event_id r) (req_Config r)) = Some out \<longrightarrow> out_Code out \<noteq> Ok"
    by simp
  obtain out where "lookup (out_codec plain_codecs) (s_db three_listeners) (NewKeyForOutcome (event_id ?r) (req_Config ?r)) = Some out"
    "out_Code out = Ok" using three_listeners_outcomes three_events_simps by auto
  from ok_outcomes_are_of_applied_events [OF plain.wire_axioms three_events_distinct r three_listeners_run n _ _ this]
    three_events_machine show ?thesis unfolding three_events_simps by (fastforce simp: lander_def)
qed

text \<open>The request that was refused has left no trace in the history.\<close>

theorem outcomes_say_what_happened_witness:
  "\<exists>out m. lookup (out_codec plain_codecs) (s_db three_listeners) (NewKeyForOutcome ''c'' ''rover'') = Some out \<and>
     out_Code out = InternalError \<and>
     lookup (fsm_codec plain_codecs) (s_db three_listeners) (NewKeyForMachine ''m1'' ''rover'') = Some m \<and>
     filter (\<lambda>h. evt_EventId h = ''c'') (fsm_History m) = []"
proof -
  have "recordable plain_codecs (three_events ! 2)" by (simp add: recordable_def)
  moreover have "2 < length three_events" "returned (s_sessions three_listeners ! 2) = Some (Ret None)"
  proof -
    show "2 < length three_events" by (simp add: three_events_simps)
    have "map returned (s_sessions three_listeners) ! 2 = Some (Ret None)" using three_listeners_outcomes by simp
    moreover have "length (s_sessions three_listeners) = 3"
      using three_listeners_outcomes by (metis length_map length_replicate)
    ultimately show "returned (s_sessions three_listeners ! 2) = Some (Ret None)" by simp
  qed
  moreover note outcomes_say_what_happened [OF plain.wire_axioms three_events_distinct _ _ three_listeners_run, of 2]
  ultimately show ?thesis
    using three_events_machine three_listeners_outcomes by (fastforce simp: three_events_simps lander_def)
qed

section \<open>Every request is processed\<close>

text \<open>
  C19. In every infinite interleaving of the listeners with each other and with such writes, with whatever failures
  and contention, the processing of a request that does not have an event without a transition, if it is
  not held up for ever, comes to its end, and without a panic: the listener goes on to the next request.
\<close>

theorem every_request_is_processed:
  assumes "f 0 = listeners_start cs timeout retries notifications reqs d"
    and "\<And>k. interleaved True (requests_kept reqs) (f k) (f (Suc k))"
    and "wire cs" and "distinct_requests reqs" and "j < length reqs" and "harmless (reqs ! j)"
    and "\<And>k. returned (s_sessions (f k) ! j) \<noteq> None \<or> (\<exists>k' \<ge> k. at j (f (Suc k')) \<noteq> at j (f k'))"
  shows "\<exists>K. \<forall>k \<ge> K. returned (s_sessions (f k) ! j) = Some (Ret None)"
proof -
  have inv: "listeners_inv True cs reqs (f k)" for k
    using assms(1) listeners_inv_start [OF assms(4) wire.out_faithful [OF assms(3)]] listeners.interleaved_step [OF assms(2)]
    by (induction k) auto
  then have len: "j < length (s_sessions (f k))" for k using assms(5) by (simp add: servers_inv_def)
  obtain K r where r: "\<And>k. k \<ge> K \<Longrightarrow> returned (s_sessions (f k) ! j) = Some r"
    using sessions_return [OF assms(2) len assms(7)] by blast
  moreover have "r = Ret None"
    using listeners.returned_post [OF inv assms(5) r [OF order_refl]] assms(6) by (simp add: listener_post_def)
  ultimately show ?thesis by blast
qed

text \<open>One listener that takes all the turns.\<close>

definition solo_listener :: "nat \<Rightarrow> servers" where
  "solo_listener k = (turn 0 ^^ k) (listeners_start plain_codecs 1 1 True three_events rover_db)"

lemma solo_listener_simps:
  "solo_listener (Suc k) = turn 0 (solo_listener k)" "length (s_sessions (solo_listener k)) = 3"
proof -
  show "solo_listener (Suc k) = turn 0 (solo_listener k)" by (simp add: solo_listener_def)
  show "length (s_sessions (solo_listener k)) = 3"
    by (induction k) (simp_all add: solo_listener_def turn_length listeners_start_def sessions_start_def three_events_def)
qed

theorem every_request_is_processed_witness: "\<exists>K. \<forall>k \<ge> K. returned (s_sessions (solo_listener k) ! 0) = Some (Ret None)"
proof (rule every_request_is_processed)
  show "solo_listener 0 = listeners_start plain_codecs 1 1 True three_events rover_db" by (simp add: solo_listener_def)
  show "interleaved True (requests_kept three_events) (solo_listener k) (solo_listener (Suc k))" for k
    unfolding solo_listener_simps(1) by (rule turn_step) (simp_all add: solo_listener_simps requests_kept_def)
  show "wire plain_codecs" "distinct_requests three_events" by (rule plain.wire_axioms, rule three_events_distinct)
  show "0 < length three_events" "harmless (three_events ! 0)"
    by (simp_all add: three_events_def harmless_def event_named_def)
  show "returned (s_sessions (solo_listener k) ! 0) \<noteq> None \<or>
      (\<exists>k' \<ge> k. at 0 (solo_listener (Suc k')) \<noteq> at 0 (solo_listener k'))" for k
    using turn_moves [of 0 "solo_listener k"] solo_listener_simps by auto
qed

section \<open>The code as a sequence of commands\<close>


text \<open>
  The server executes the transaction and its reply is lost: the machine is launched, and the outcome says
  \<^verbatim>\<open>InternalError\<close>.
\<close>

definition planned_listener :: "planned_mem EventsListener" where
  "planned_listener =
     \<lparr>l_events = [], l_notifications = True, l_store = RedisStore_manager mem_runtime plain_codecs planned_store\<rparr>"


end
