(* ===== verification/Base64.thy ===== *)
theory Base64
  imports Wire
begin

text \<open>
  \<^verbatim>\<open>base64.StdEncoding\<close> of the Go library, and the text form of messages made with it
  (\<^verbatim>\<open>Base64ProtoMarshaler\<close>, \<^verbatim>\<open>pkg/pubsub/sqs_pub.go\<close>). The lemmas show that decoding undoes encoding.
\<close>

section \<open>The encoding\<close>

definition alphabet :: string where
  "alphabet = ''ABCDEFGHIJKLMNOPQRSTUVWXYZabcdefghijklmnopqrstuvwxyz0123456789+/''"

definition digit :: "nat \<Rightarrow> char" where
  "digit i = alphabet ! i"

fun position :: "char \<Rightarrow> string \<Rightarrow> nat option" where
  "position c [] = None"
| "position c (x # xs) = (if c = x then Some 0 else map_option Suc (position c xs))"

definition digit_value :: "char \<Rightarrow> nat option" where
  "digit_value c = position c alphabet"

abbreviation byte :: "char \<Rightarrow> nat" where
  "byte c \<equiv> of_char c"

fun EncodeToString :: "bytes \<Rightarrow> string" where
  "EncodeToString [] = []"
| "EncodeToString [a] =
     [digit (byte a div 4), digit (byte a mod 4 * 16), CHR ''='', CHR ''='']"
| "EncodeToString [a, b] =
     [digit (byte a div 4), digit (byte a mod 4 * 16 + byte b div 16), digit (byte b mod 16 * 4), CHR ''='']"
| "EncodeToString (a # b # c # rest) =
     digit (byte a div 4) # digit (byte a mod 4 * 16 + byte b div 16) #
     digit (byte b mod 16 * 4 + byte c div 64) # digit (byte c mod 64) # EncodeToString rest"

text \<open>
  Decoding drops line breaks, does not look at the unused low bits of the last digit, and wants
  the padding. \<open>None\<close> is \<^verbatim>\<open>CorruptInputError\<close>.
\<close>

fun decode_quads :: "string \<Rightarrow> bytes option" where
  "decode_quads [] = Some []"
| "decode_quads [a, b, c, d] =
     (case (digit_value a, digit_value b) of
        (Some x, Some y) \<Rightarrow>
          if c = CHR ''='' then
            (if d = CHR ''='' then Some [char_of (x * 4 + y div 16)] else None)
          else
            (case digit_value c of
               None \<Rightarrow> None
             | Some z \<Rightarrow>
                 if d = CHR ''='' then Some [char_of (x * 4 + y div 16), char_of (y mod 16 * 16 + z div 4)]
                 else
                   (case digit_value d of
                      None \<Rightarrow> None
                    | Some v \<Rightarrow> Some [char_of (x * 4 + y div 16), char_of (y mod 16 * 16 + z div 4),
                                      char_of (z mod 4 * 64 + v)]))
      | _ \<Rightarrow> None)"
| "decode_quads (a # b # c # d # e # rest) =
     (case (digit_value a, digit_value b, digit_value c, digit_value d, decode_quads (e # rest)) of
        (Some x, Some y, Some z, Some v, Some bs) \<Rightarrow>
          Some (char_of (x * 4 + y div 16) # char_of (y mod 16 * 16 + z div 4) # char_of (z mod 4 * 64 + v) # bs)
      | _ \<Rightarrow> None)"
| "decode_quads _ = None"

definition DecodeString :: "string \<Rightarrow> bytes option" where
  "DecodeString text = decode_quads (filter (\<lambda>c. c \<noteq> CHR 0x0A \<and> c \<noteq> CHR 0x0D) text)"

section \<open>Decoding undoes encoding\<close>

lemma position_nth:
  "distinct xs \<Longrightarrow> i < length xs \<Longrightarrow> position (xs ! i) xs = Some i"
proof (induction xs arbitrary: i)
  case (Cons x xs)
  then show ?case by (cases i) auto
qed simp

lemma alphabet_facts: "length alphabet = 64" "distinct alphabet" "CHR ''='' \<notin> set alphabet"
    "CHR 0x0A \<notin> set alphabet" "CHR 0x0D \<notin> set alphabet"
  by (simp_all add: alphabet_def)

lemma digit_value_digit [simp]: "i < 64 \<Longrightarrow> digit_value (digit i) = Some i"
  using alphabet_facts by (simp add: digit_value_def digit_def position_nth)

lemma digit_in: "i < 64 \<Longrightarrow> digit i \<in> set alphabet"
  using alphabet_facts by (simp add: digit_def)

lemma digit_plain [simp]:
  assumes "i < 64"
  shows "digit i \<noteq> CHR ''=''" "digit i \<noteq> CHR 0x0A" "digit i \<noteq> CHR 0x0D"
  using digit_in [OF assms] alphabet_facts by metis+

lemma byte_less [simp]: "byte c < 256"
  using range_nat_of_char by (metis atLeastLessThan_iff rangeI)

lemma byte_div: "byte a div 4 < 64" "byte b div 16 < 16" "byte c div 64 < 4"
  using byte_less by (simp_all add: less_mult_imp_div_less)

lemma digits_less [simp]:
  "byte a div 4 < 64" "byte a mod 4 * 16 < 64" "byte a mod 4 * 16 + byte b div 16 < 64"
  "byte b mod 16 * 4 < 64" "byte b mod 16 * 4 + byte c div 64 < 64" "byte c mod 64 < 64"
proof -
  have "byte a mod 4 \<le> 3" "byte b mod 16 \<le> 15" by simp_all
  then show "byte a mod 4 * 16 < 64" "byte a mod 4 * 16 + byte b div 16 < 64"
    "byte b mod 16 * 4 < 64" "byte b mod 16 * 4 + byte c div 64 < 64"
    using byte_div(2) [of b] byte_div(3) [of c] by linarith+
qed (simp_all add: byte_div)

lemma bytes_back [simp]:
  "byte b div 16 div 16 = 0" "byte b div 16 mod 16 = byte b div 16"
  "byte c div 64 div 4 = 0" "byte c div 64 mod 4 = byte c div 64"
  using byte_div(2) [of b] byte_div(3) [of c] by simp_all

lemma decode_quads_encode: "decode_quads (EncodeToString bs) = Some bs"
proof (induction bs rule: EncodeToString.induct)
  case (4 a b c rest)
  show ?case
  proof (cases "EncodeToString rest")
    case Nil
    then have "rest = []" by (cases rest rule: EncodeToString.cases) auto
    then show ?thesis by simp
  next
    case (Cons x xs)
    then show ?thesis using 4 by simp
  qed
qed simp_all

lemma encoded_one_line: "filter (\<lambda>c. c \<noteq> CHR 0x0A \<and> c \<noteq> CHR 0x0D) (EncodeToString bs) = EncodeToString bs"
  by (induction bs rule: EncodeToString.induct) simp_all

lemma DecodeString_EncodeToString [simp]: "DecodeString (EncodeToString bs) = Some bs"
  by (simp add: DecodeString_def encoded_one_line decode_quads_encode)

end
