(* ===== verification/Grpc_Server.thy ===== *)
theory Grpc_Server
  imports Listener
begin

text \<open>
  The gRPC service (\<^verbatim>\<open>pkg/grpc/grpc_server.go\<close>). A handler returns a response and an error, either of
  which may be nil, or panics. The store is the interface of \<open>Store_Manager\<close>; what the runtime
  decides (whether a receiver takes an event off the channel before a time-out, what a context
  reports, whether a message can be streamed) is an operation on the world.
\<close>

section \<open>Definitions\<close>

text \<open>
  Sending on the events channel with a time-out: a receiver took the request, the time passed, or
  the channel was closed. A nil channel never takes anything.
\<close>

datatype offer = Sent | Expired | ChannelClosed

type_synonym 'w events_channel = "EventRequest \<Rightarrow> duration \<Rightarrow> 'w \<Rightarrow> offer \<times> 'w"

record 'w Config =
  c_EventsChannel :: "'w events_channel option"
  c_Store :: "'w StoreManager option"
  c_Timeout :: duration
  c_ServerAddress :: string
  c_TlsEnabled :: bool
  c_TlsCerts :: string
  c_TlsMutual :: bool

definition Grpc_DefaultTimeout :: duration where "Grpc_DefaultTimeout = 200 * 1000000"

text \<open>A request's context: its deadline, if it has one, and what \<^verbatim>\<open>Err()\<close> returns.\<close>

record 'w grpc_context =
  ctx_Deadline :: "int option"
  ctx_Err :: "'w \<Rightarrow> go_error option"

type_synonym 'a reply = "('a option \<times> go_error option) go"

datatype HealthState = READY | NOT_READY

record HealthResponse =
  hr_State :: HealthState
  hr_Release :: string
  hr_TlsEnabled :: bool

datatype Entity = EntityConfig Configuration | EntityFsm FiniteStateMachine

record PutResponse =
  pr_Id :: string
  pr_Entity :: Entity

record PutFsmRequest =
  pf_Id :: string
  pf_Fsm :: "FiniteStateMachine option"

datatype fsm_query = NoQuery | QueryId string | QueryState string

record GetFsmRequest =
  gf_Config :: string
  gf_Query :: fsm_query

fun GetId :: "fsm_query \<Rightarrow> string" where
  "GetId (QueryId i) = i"
| "GetId _ = ''''"

fun GetState :: "fsm_query \<Rightarrow> string" where
  "GetState (QueryState s) = s"
| "GetState _ = ''''"

definition replies :: "'a \<Rightarrow> 'w \<Rightarrow> 'a reply \<times> 'w" where
  "replies x w = (Ret (Some x, None), w)"

definition fails :: "go_error \<Rightarrow> 'w \<Rightarrow> 'a reply \<times> 'w" where
  "fails e w = (Ret (None, Some e), w)"

text \<open>A call of a method of \<^verbatim>\<open>s.Store\<close>, which may be nil.\<close>

definition with_store :: "'w Config \<Rightarrow> ('w StoreManager \<Rightarrow> 'w \<Rightarrow> 'a go \<times> 'w) \<Rightarrow> 'w \<Rightarrow> 'a go \<times> 'w" where
  "with_store s f w = (case c_Store s of None \<Rightarrow> (Panic, w) | Some store \<Rightarrow> f store w)"

definition Health :: "string \<Rightarrow> 'w Config \<Rightarrow> 'w \<Rightarrow> HealthResponse reply \<times> 'w" where
  "Health release s w =
     (let response = \<lparr>hr_State = READY, hr_Release = release, hr_TlsEnabled = c_TlsEnabled s\<rparr> in
      case c_Store s of
        None \<Rightarrow> fails (StatusError Internal ''data store not configured'') w
      | Some store \<Rightarrow>
          if c_EventsChannel s = None then replies (response\<lparr>hr_State := NOT_READY\<rparr>) w
          else
            (case sm_Health store w of
               (Some err, w1) \<Rightarrow> replies (response\<lparr>hr_State := NOT_READY\<rparr>) w1
             | (None, w1) \<Rightarrow> replies response w1))"

text \<open>The event is completed in place; the request that is offered carries the completed event.\<close>

definition Grpc_SendEvent ::
    "'w go_runtime \<Rightarrow> 'w Config \<Rightarrow> 'w grpc_context \<Rightarrow> EventRequest \<Rightarrow> 'w \<Rightarrow> EventResponse reply \<times> 'w" where
  "Grpc_SendEvent rt s ctx request w =
     (if req_Id request = '''' then
        fails (StatusError FailedPrecondition (Error_text MissingDestinationError)) w
      else if (case Option.bind (req_Event request) evt_Transition of
                 None \<Rightarrow> True | Some tr \<Rightarrow> t_Event tr = '''') then
        fails (StatusError FailedPrecondition (Error_text MissingEventNameError)) w
      else
        (case UpdateEvent rt (req_Event request) w of
           (Panic, w1) \<Rightarrow> (Panic, w1)
         | (Ret event, w1) \<Rightarrow>
             (let request' = request\<lparr>req_Event := Some event\<rparr>;
                  (timeout, w2) =
                    (case ctx_Deadline ctx of
                       None \<Rightarrow> (c_Timeout s, w1)
                     | Some deadline \<Rightarrow> (case time_Now rt w1 of (now, w2) \<Rightarrow> (deadline - now, w2)))
              in case (case c_EventsChannel s of None \<Rightarrow> (Expired, w2) | Some ch \<Rightarrow> ch request' timeout w2) of
                   (Sent, w3) \<Rightarrow> replies \<lparr>resp_EventId = evt_EventId event, resp_Outcome = None\<rparr> w3
                 | (Expired, w3) \<Rightarrow> fails (StatusError DeadlineExceeded ''cannot post event'') w3
                 | (ChannelClosed, w3) \<Rightarrow> (Panic, w3))))"

text \<open>Has the deadline of the context passed?\<close>

definition deadline_passed :: "'w go_runtime \<Rightarrow> 'w grpc_context \<Rightarrow> 'w \<Rightarrow> bool \<times> 'w" where
  "deadline_passed rt ctx w =
     (case ctx_Deadline ctx of
        None \<Rightarrow> (False, w)
      | Some deadline \<Rightarrow> (case time_Now rt w of (now, w1) \<Rightarrow> (deadline < now, w1)))"

definition PutConfiguration ::
    "'w go_runtime \<Rightarrow> 'w Config \<Rightarrow> 'w grpc_context \<Rightarrow> Configuration \<Rightarrow> 'w \<Rightarrow> PutResponse reply \<times> 'w" where
  "PutConfiguration rt s ctx cfg w =
     (case CheckValid cfg of
        Some err \<Rightarrow> fails (StatusError InvalidArgument (''invalid configuration: '' @ Error_text err)) w
      | None \<Rightarrow>
          (case deadline_passed rt ctx w of
             (True, w1) \<Rightarrow> (Ret (None, ctx_Err ctx w1), w1)
           | (False, w1) \<Rightarrow>
               with_store s (\<lambda>store w1.
                 (case sm_PutConfig store (Some cfg) w1 of
                    (Some err, w2) \<Rightarrow>
                      if Contains (Error_text err) ''already exists''
                      then fails (StatusError AlreadyExists
                             (''cannot store configuration: '' @ Error_text err)) w2
                      else fails (StatusError Internal (Error_text err)) w2
                  | (None, w2) \<Rightarrow>
                      (case deadline_passed rt ctx w2 of
                         (True, w3) \<Rightarrow> (Ret (None, ctx_Err ctx w3), w3)
                       | (False, w3) \<Rightarrow>
                           replies \<lparr>pr_Id = GetVersionId cfg, pr_Entity = EntityConfig cfg\<rparr> w3))) w1))"

definition GetAllConfigurations :: "'w Config \<Rightarrow> string \<Rightarrow> 'w \<Rightarrow> string list reply \<times> 'w" where
  "GetAllConfigurations s cfgName w =
     with_store s (\<lambda>store w.
       if cfgName = '''' then (case sm_GetAllConfigs store w of (ids, w1) \<Rightarrow> replies ids w1)
       else (case sm_GetAllVersions store cfgName w of (ids, w1) \<Rightarrow> replies ids w1)) w"

definition GetConfiguration :: "'w Config \<Rightarrow> string \<Rightarrow> 'w \<Rightarrow> Configuration reply \<times> 'w" where
  "GetConfiguration s cfgId w =
     with_store s (\<lambda>store w.
       case sm_GetConfig store cfgId w of
         (Inl err, w1) \<Rightarrow> fails (StatusError NotFound (''configuration '' @ cfgId @ '' not found'')) w1
       | (Inr cfg, w1) \<Rightarrow> replies cfg w1) w"

definition PutFiniteStateMachine ::
    "'w go_runtime \<Rightarrow> 'w Config \<Rightarrow> 'w grpc_context \<Rightarrow> PutFsmRequest \<Rightarrow> 'w \<Rightarrow> PutResponse reply \<times> 'w" where
  "PutFiniteStateMachine rt s ctx request w =
     (case pf_Fsm request of
        None \<Rightarrow> (Panic, w)
      | Some fsm \<Rightarrow>
          with_store s (\<lambda>store w.
            (case sm_GetConfig store (fsm_ConfigId fsm) w of
               (Inl err, w1) \<Rightarrow>
                 fails (StatusError FailedPrecondition (Error_text (NotFoundError (fsm_ConfigId fsm)))) w1
             | (Inr cfg, w1) \<Rightarrow>
                 (case deadline_passed rt ctx w1 of
                    (True, w2) \<Rightarrow> (Ret (None, ctx_Err ctx w2), w2)
                  | (False, w2) \<Rightarrow>
                      (let (ident, w3) =
                             (if pf_Id request = '''' then uuid_NewString rt w2 else (pf_Id request, w2));
                           fsm' = (if fsm_State fsm = '''' then fsm\<lparr>fsm_State := cfg_StartingState cfg\<rparr> else fsm)
                       in case sm_PutStateMachine store ident (Some fsm') w3 of
                            (Some err, w4) \<Rightarrow> fails (StatusError Internal (Error_text err)) w4
                          | (None, w4) \<Rightarrow>
                              (case sm_UpdateState store (cfg_Name cfg) ident '''' (fsm_State fsm') w4 of
                                 (Some err, w5) \<Rightarrow> fails (StatusError Internal (Error_text err)) w5
                               | (None, w5) \<Rightarrow>
                                   replies \<lparr>pr_Id = ident, pr_Entity = EntityFsm fsm'\<rparr> w5))))) w)"

definition GetFiniteStateMachine :: "'w Config \<Rightarrow> GetFsmRequest \<Rightarrow> 'w \<Rightarrow> FiniteStateMachine reply \<times> 'w" where
  "GetFiniteStateMachine s req w =
     (let cfg = gf_Config req; fsmId = GetId (gf_Query req) in
      if cfg = '''' then
        fails (StatusError InvalidArgument
          ''configuration name must always be provided when looking up statemachine'') w
      else if fsmId = '''' then
        fails (StatusError InvalidArgument ''ID must always be provided when looking up statemachine'') w
      else
        with_store s (\<lambda>store w.
          case sm_GetStateMachine store fsmId cfg w of
            (Inl err, w1) \<Rightarrow> fails (StatusError NotFound (Error_text (NotFoundError fsmId))) w1
          | (Inr fsm, w1) \<Rightarrow> replies fsm w1) w)"

definition Grpc_GetAllInState :: "'w Config \<Rightarrow> GetFsmRequest \<Rightarrow> 'w \<Rightarrow> string list reply \<times> 'w" where
  "Grpc_GetAllInState s req w =
     (let cfg = gf_Config req; state = GetState (gf_Query req) in
      if cfg = '''' then
        fails (StatusError InvalidArgument ''configuration must always be specified'') w
      else if state = '''' then
        fails (StatusError Unimplemented ''missing state, table scan not implemented'') w
      else
        with_store s (\<lambda>store w. case sm_GetAllInState store cfg state w of (ids, w1) \<Rightarrow> replies ids w1) w)"

definition GetEventOutcome :: "'w Config \<Rightarrow> EventRequest \<Rightarrow> 'w \<Rightarrow> EventResponse reply \<times> 'w" where
  "GetEventOutcome s req w =
     (let evtId = req_Id req; cfg = req_Config req in
      with_store s (\<lambda>store w.
        case sm_GetOutcomeForEvent store evtId cfg w of
          (Inl err, w1) \<Rightarrow>
            fails (StatusError NotFound
              (''cannot get outcome for event '' @ evtId @ '': '' @ Error_text err)) w1
        | (Inr outcome, w1) \<Rightarrow> replies \<lparr>resp_EventId = evtId, resp_Outcome = Some outcome\<rparr> w1) w)"

text \<open>
  The streams: \<open>send\<close> is \<^verbatim>\<open>stream.SendMsg\<close>. The result is the messages that were sent, in order,
  and the error returned.
\<close>

type_synonym ('m, 'w) stream_send = "'m \<Rightarrow> 'w \<Rightarrow> go_error option \<times> 'w"

type_synonym ('m, 'w) streamed = "'m list \<times> go_error option go \<times> 'w"

fun StreamAllInstate_loop ::
    "'w StoreManager \<Rightarrow> string \<Rightarrow> (PutResponse, 'w) stream_send \<Rightarrow> string list \<Rightarrow> 'w
       \<Rightarrow> (PutResponse, 'w) streamed" where
  "StreamAllInstate_loop store cfgName send [] w = ([], Ret None, w)"
| "StreamAllInstate_loop store cfgName send (ident # ids) w =
     (case sm_GetStateMachine store ident cfgName w of
        (Inl err, w1) \<Rightarrow> ([], Ret (Some err), w1)
      | (Inr fsm, w1) \<Rightarrow>
          (let msg = \<lparr>pr_Id = ident, pr_Entity = EntityFsm fsm\<rparr> in
           case send msg w1 of
             (Some err, w2) \<Rightarrow> ([], Ret (Some err), w2)
           | (None, w2) \<Rightarrow>
               (case StreamAllInstate_loop store cfgName send ids w2 of (msgs, r, w3) \<Rightarrow> (msg # msgs, r, w3))))"

definition StreamAllInstate ::
    "'w Config \<Rightarrow> GetFsmRequest \<Rightarrow> (PutResponse, 'w) stream_send \<Rightarrow> 'w \<Rightarrow> (PutResponse, 'w) streamed" where
  "StreamAllInstate s req send w =
     (case Grpc_GetAllInState s req w of
        (Panic, w1) \<Rightarrow> ([], Panic, w1)
      | (Ret (response, Some err), w1) \<Rightarrow> ([], Ret (Some err), w1)
      | (Ret (response, None), w1) \<Rightarrow>
          (case c_Store s of
             None \<Rightarrow> ([], Panic, w1)
           | Some store \<Rightarrow>
               StreamAllInstate_loop store (gf_Config req) send
                 (case response of None \<Rightarrow> [] | Some ids \<Rightarrow> ids) w1))"

fun StreamAllConfigurations_loop ::
    "'w StoreManager \<Rightarrow> (Configuration, 'w) stream_send \<Rightarrow> string list \<Rightarrow> 'w \<Rightarrow> (Configuration, 'w) streamed" where
  "StreamAllConfigurations_loop store send [] w = ([], Ret None, w)"
| "StreamAllConfigurations_loop store send (cfgId # ids) w =
     (case sm_GetConfig store cfgId w of
        (Inl err, w1) \<Rightarrow> ([], Ret (Some err), w1)
      | (Inr cfg, w1) \<Rightarrow>
          (case send cfg w1 of
             (Some err, w2) \<Rightarrow> ([], Ret (Some err), w2)
           | (None, w2) \<Rightarrow>
               (case StreamAllConfigurations_loop store send ids w2 of (msgs, r, w3) \<Rightarrow> (cfg # msgs, r, w3))))"

definition StreamAllConfigurations ::
    "'w Config \<Rightarrow> string \<Rightarrow> (Configuration, 'w) stream_send \<Rightarrow> 'w \<Rightarrow> (Configuration, 'w) streamed" where
  "StreamAllConfigurations s cfgName send w =
     (if cfgName = '''' then
        ([], Ret (Some (StatusError InvalidArgument ''must specify the Configuration name'')), w)
      else
        (case GetAllConfigurations s cfgName w of
           (Panic, w1) \<Rightarrow> ([], Panic, w1)
         | (Ret (response, Some err), w1) \<Rightarrow> ([], Ret None, w1)
         | (Ret (response, None), w1) \<Rightarrow>
             (case c_Store s of
                None \<Rightarrow> ([], Panic, w1)
              | Some store \<Rightarrow>
                  StreamAllConfigurations_loop store send
                    (case response of None \<Rightarrow> [] | Some ids \<Rightarrow> ids) w1)))"

section \<open>Events that are accepted\<close>

lemma UpdateEvent_Ret:
  obtains w1 where "UpdateEvent rt (Some e) w =
     (Ret (e\<lparr>evt_EventId := updated_id rt e w, evt_Timestamp := Some (updated_time rt e w)\<rparr>), w1)"
  using UpdateEvent_Some [of rt e w] by (metis prod.collapse)

text \<open>The event as it is put on the channel: the id and the time are filled in when missing.\<close>

definition completed :: "Event \<Rightarrow> Event \<Rightarrow> bool" where
  "completed e e' \<longleftrightarrow>
     e' = e\<lparr>evt_EventId := evt_EventId e', evt_Timestamp := evt_Timestamp e'\<rparr> \<and>
     evt_EventId e' \<noteq> '''' \<and> evt_Timestamp e' \<noteq> None \<and>
     (evt_EventId e \<noteq> '''' \<longrightarrow> evt_EventId e' = evt_EventId e) \<and>
     (evt_Timestamp e \<noteq> None \<longrightarrow> evt_Timestamp e' = evt_Timestamp e)"

lemma completed_transition:
  assumes "completed e e'"
  shows "evt_Transition e' = evt_Transition e"
proof -
  have "e' = e\<lparr>evt_EventId := evt_EventId e', evt_Timestamp := evt_Timestamp e'\<rparr>"
    using assms unfolding completed_def by (rule conjunct1)
  from arg_cong [OF this, of evt_Transition] show ?thesis by simp
qed

lemma UpdateEvent_completed:
  assumes "runtime rt"
  obtains e' w1 where "UpdateEvent rt (Some e) w = (Ret e', w1)" and "completed e e'"
proof -
  let ?e = "e\<lparr>evt_EventId := updated_id rt e w, evt_Timestamp := Some (updated_time rt e w)\<rparr>"
  obtain w1 where "UpdateEvent rt (Some e) w = (Ret ?e, w1)" by (rule UpdateEvent_Ret)
  moreover have "completed e ?e"
    using runtime.updated_id_nonempty [OF assms, of e w]
    by (auto simp: completed_def updated_id_def updated_time_def)
  ultimately show thesis by (rule that)
qed

text \<open>A request as it is put on the channel: like the one received, with an id and a time.\<close>

definition ready :: "EventRequest \<Rightarrow> EventRequest \<Rightarrow> bool" where
  "ready request request' \<longleftrightarrow>
     req_Id request' = req_Id request \<and> req_Config request' = req_Config request \<and>
     (case (req_Event request, req_Event request') of
        (Some e, Some e') \<Rightarrow>
          e' = e\<lparr>evt_EventId := evt_EventId e', evt_Timestamp := evt_Timestamp e'\<rparr> \<and>
          evt_EventId e' \<noteq> '''' \<and> evt_Timestamp e' \<noteq> None \<and> evt_Transition e' \<noteq> None \<and>
          (evt_EventId e \<noteq> '''' \<longrightarrow> evt_EventId e' = evt_EventId e) \<and>
          (evt_Timestamp e \<noteq> None \<longrightarrow> evt_Timestamp e' = evt_Timestamp e)
      | _ \<Rightarrow> False)"

definition no_event_name :: "EventRequest \<Rightarrow> bool" where
  "no_event_name request \<longleftrightarrow>
     (case Option.bind (req_Event request) evt_Transition of None \<Rightarrow> True | Some tr \<Rightarrow> t_Event tr = '''')"

text \<open>
  C28. \<^verbatim>\<open>SendEvent\<close> of the service. A request without an id, or whose event does not name a
  transition, is refused with \<^verbatim>\<open>FailedPrecondition\<close> and never put on the channel. Any other request is
  offered to the channel once, with the id and the time of its event filled in when missing and
  nothing else changed, for the time-out of the server when the context has no deadline; the reply
  is the id of that event when a receiver takes it, \<^verbatim>\<open>DeadlineExceeded\<close> when none does in time or there
  is no channel, and a panic when the channel is closed. What is put on the channel never makes
  the listener panic.
\<close>

theorem SendEvent_offers_complete_events:
  assumes "runtime rt"
  shows "if req_Id request = '''' \<or> no_event_name request
         then \<exists>text. Grpc_SendEvent rt s ctx request w = fails (StatusError FailedPrecondition text) w
         else \<exists>request' e' timeout w2 a w3.
                ready request request' \<and> harmless request' \<and> req_Event request' = Some e' \<and>
                (ctx_Deadline ctx = None \<longrightarrow> timeout = c_Timeout s) \<and>
                (a, w3) = (case c_EventsChannel s of None \<Rightarrow> (Expired, w2) | Some ch \<Rightarrow> ch request' timeout w2) \<and>
                Grpc_SendEvent rt s ctx request w =
                  (case a of
                     Sent \<Rightarrow> replies \<lparr>resp_EventId = evt_EventId e', resp_Outcome = None\<rparr> w3
                   | Expired \<Rightarrow> fails (StatusError DeadlineExceeded ''cannot post event'') w3
                   | ChannelClosed \<Rightarrow> (Panic, w3))"
proof (cases "req_Id request = '''' \<or> no_event_name request")
  case True
  then show ?thesis by (auto simp: Grpc_SendEvent_def no_event_name_def)
next
  case False
  then obtain e tr where e: "req_Event request = Some e" "evt_Transition e = Some tr"
    by (cases "req_Event request") (auto simp: no_event_name_def split: option.splits)
  let ?e = "e\<lparr>evt_EventId := updated_id rt e w, evt_Timestamp := Some (updated_time rt e w)\<rparr>"
  let ?r = "request\<lparr>req_Event := Some ?e\<rparr>"
  obtain w1 where u: "UpdateEvent rt (Some e) w = (Ret ?e, w1)" by (rule UpdateEvent_Ret)
  obtain timeout w2 where t: "(case ctx_Deadline ctx of None \<Rightarrow> (c_Timeout s, w1)
      | Some deadline \<Rightarrow> (case time_Now rt w1 of (now, w2) \<Rightarrow> (deadline - now, w2))) = (timeout, w2)"
    by fastforce
  obtain a w3 where a: "(case c_EventsChannel s of None \<Rightarrow> (Expired, w2) | Some ch \<Rightarrow> ch ?r timeout w2) = (a, w3)"
    by fastforce
  have "Grpc_SendEvent rt s ctx request w =
      (case a of
         Sent \<Rightarrow> replies \<lparr>resp_EventId = evt_EventId ?e, resp_Outcome = None\<rparr> w3
       | Expired \<Rightarrow> fails (StatusError DeadlineExceeded ''cannot post event'') w3
       | ChannelClosed \<Rightarrow> (Panic, w3))"
    using False e u t a by (simp add: Grpc_SendEvent_def no_event_name_def Let_def)
  moreover have "ready request ?r"
    using e runtime.updated_id_nonempty [OF assms, of e w]
    by (auto simp: ready_def updated_id_def updated_time_def)
  moreover have "harmless ?r" using e by (simp add: harmless_def)
  moreover have "ctx_Deadline ctx = None \<longrightarrow> timeout = c_Timeout s" using t by auto
  ultimately show ?thesis
    using False a
    by (simp only: if_False) (intro exI [of _ ?r] exI [of _ ?e] exI [of _ timeout] exI [of _ w2] exI [of _ a] exI [of _ w3], simp)
qed

definition open_server :: "mem Config" where
  "open_server =
     \<lparr>c_EventsChannel = Some (\<lambda>request t w. (Sent, w)),
      c_Store = Some (RedisStore_manager mem_runtime plain_codecs mem_store),
      c_Timeout = Grpc_DefaultTimeout, c_ServerAddress = '''', c_TlsEnabled = False,
      c_TlsCerts = '''', c_TlsMutual = False\<rparr>"

definition no_deadline :: "'w grpc_context" where
  "no_deadline = \<lparr>ctx_Deadline = None, ctx_Err = (\<lambda>w. None)\<rparr>"

interpretation mem_runtime: runtime "mem_runtime :: mem go_runtime"
  by unfold_locales (simp add: mem_runtime_def)

theorem SendEvent_offers_complete_events_witness:
  "(\<exists>w3. Grpc_SendEvent mem_runtime open_server no_deadline launch_request (mem_world Map.empty) =
     replies \<lparr>resp_EventId = ''e1'', resp_Outcome = None\<rparr> w3) \<and>
   (\<exists>text. Grpc_SendEvent mem_runtime open_server no_deadline (launch_request\<lparr>req_Id := ''''\<rparr>) (mem_world Map.empty) =
     fails (StatusError FailedPrecondition text) (mem_world Map.empty))"
proof
  show "\<exists>w3. Grpc_SendEvent mem_runtime open_server no_deadline launch_request (mem_world Map.empty) =
     replies \<lparr>resp_EventId = ''e1'', resp_Outcome = None\<rparr> w3"
    using SendEvent_offers_complete_events [OF mem_runtime.runtime_axioms, of launch_request open_server
        no_deadline "mem_world Map.empty"]
    by (auto simp: launch_request_def no_event_name_def event_named_def open_server_def ready_def)
  show "\<exists>text. Grpc_SendEvent mem_runtime open_server no_deadline (launch_request\<lparr>req_Id := ''''\<rparr>) (mem_world Map.empty) =
     fails (StatusError FailedPrecondition text) (mem_world Map.empty)"
    using SendEvent_offers_complete_events [OF mem_runtime.runtime_axioms,
        of "launch_request\<lparr>req_Id := ''''\<rparr>" open_server no_deadline "mem_world Map.empty"]
    by simp
qed

section \<open>Configurations and machines, with a store that keeps its contract\<close>

lemma already_exists_text: "Contains (Error_text (AlreadyExistsError k)) ''already exists''"
proof -
  have "Error_text (AlreadyExistsError k) = (''key '' @ k @ '' '') @ ''already exists'' @ ''''" by simp
  then show ?thesis unfolding Contains_iff by blast
qed

text \<open>A machine as it is stored: in the starting state when it has none.\<close>

definition defaulted :: "Configuration \<Rightarrow> FiniteStateMachine \<Rightarrow> FiniteStateMachine" where
  "defaulted c m = (if fsm_State m = '''' then m\<lparr>fsm_State := cfg_StartingState c\<rparr> else m)"

lemma defaulted_ConfigId [simp]: "fsm_ConfigId (defaulted c m) = fsm_ConfigId m"
  by (simp add: defaulted_def)

context store_manager
begin

lemma deadline_same:
  assumes "deadline_passed rt ctx w = (b, w')" and "sound w"
  shows "sound w' \<and> st w' = st w"
  using assms now_same [OF assms(2)]
  by (auto simp: deadline_passed_def split: option.splits prod.splits)

lemma PutConfiguration_cases:
  assumes "PutConfiguration rt s ctx c w = (r, w')" and "c_Store s = Some sm" and "sound w"
    and "plain (cfg_Name c)"
  obtains (invalid) e where "CheckValid c = Some e" "w' = w"
      "r = Ret (None, Some (StatusError InvalidArgument (''invalid configuration: '' @ Error_text e)))"
  | (late) "CheckValid c = None" "ctx_Deadline ctx \<noteq> None" "sound w'" "st w' = st w" "\<exists>e. r = Ret (None, e)"
  | (late_stored) "CheckValid c = None" "ctx_Deadline ctx \<noteq> None" "s_configs (st w) (GetVersionId c) = None"
      "sound w'" "st w' = add_config c (st w)" "\<exists>e. r = Ret (None, e)"
  | (exists) "CheckValid c = None" "s_configs (st w) (GetVersionId c) \<noteq> None" "sound w'" "st w' = st w"
      "r = Ret (None, Some (StatusError AlreadyExists (''cannot store configuration: '' @
             Error_text (AlreadyExistsError (NewKeyForConfig (GetVersionId c))))))"
  | (unreadable) ns vs where "CheckValid c = None" "\<not> can_cfg c" "sound w'"
      "st w' = (st w)\<lparr>s_names := ns, s_versions := vs\<rparr>" "\<exists>e. r = Ret (None, Some e)"
  | (stored) "CheckValid c = None" "can_cfg c" "s_configs (st w) (GetVersionId c) = None" "sound w'"
      "st w' = add_config c (st w)" "r = Ret (Some \<lparr>pr_Id = GetVersionId c, pr_Entity = EntityConfig c\<rparr>, None)"
proof (cases "CheckValid c")
  case (Some e)
  then show thesis using assms(1) by (intro invalid) (auto simp: PutConfiguration_def fails_def)
next
  case None
  note valid = None
  obtain b w1 where d1: "deadline_passed rt ctx w = (b, w1)" by fastforce
  have w1: "sound w1" "st w1 = st w" using deadline_same [OF d1 assms(3)] by auto
  have dl: "ctx_Deadline ctx \<noteq> None" if "deadline_passed rt ctx v = (True, v')" for v v'
    using that by (auto simp: deadline_passed_def split: option.splits)
  show thesis
  proof (cases b)
    case True
    then show thesis using assms(1) valid d1 dl w1 by (intro late) (auto simp: PutConfiguration_def)
  next
    case False
    obtain e w2 where p: "sm_PutConfig sm (Some c) w1 = (e, w2)" by fastforce
    note law = PutConfig_law [OF p w1(1) assms(4), unfolded w1(2)]
    show thesis
    proof (cases e)
      case (Some err)
      then have r: "w' = w2" "r = Ret (None, Some (if Contains (Error_text err) ''already exists''
          then StatusError AlreadyExists (''cannot store configuration: '' @ Error_text err)
          else StatusError Internal (Error_text err)))"
        using assms(1,2) valid d1 False p
        by (auto simp: PutConfiguration_def with_store_def fails_def split: if_splits)
      show thesis
      proof (cases "s_configs (st w) (GetVersionId c) = None")
        case True
        then show thesis using law r Some that(5) [OF valid] by (auto split: if_splits)
      next
        case False
        then show thesis using law r Some valid already_exists_text by (intro exists) auto
      qed
    next
      case None
      then have new: "s_configs (st w) (GetVersionId c) = None" "can_cfg c" "sound w2" "st w2 = add_config c (st w)"
        using law by (auto split: if_splits)
      obtain b2 w3 where d2: "deadline_passed rt ctx w2 = (b2, w3)" by fastforce
      have w3: "sound w3" "st w3 = st w2" using deadline_same [OF d2 new(3)] by auto
      have "w' = w3 \<and> r = (if b2 then Ret (None, ctx_Err ctx w3)
          else Ret (Some \<lparr>pr_Id = GetVersionId c, pr_Entity = EntityConfig c\<rparr>, None))"
        using assms(1,2) valid d1 False p None d2
        by (cases b2) (auto simp: PutConfiguration_def with_store_def replies_def)
      then show thesis using late_stored stored valid new w3 dl d2 by (cases b2) auto
    qed
  qed
qed

lemma PutConfiguration_sound:
  assumes "PutConfiguration rt s ctx c w = (r, w')" and "c_Store s = Some sm" and "sound w"
    and "plain (cfg_Name c)"
  shows "sound w'"
  using assms by (cases rule: PutConfiguration_cases) (use assms(3) in auto)

end

text \<open>
  C29. \<^verbatim>\<open>PutConfiguration\<close> with no deadline, for a configuration with a plain name that can be
  serialised, over a store that keeps its contract: an invalid configuration is refused with
  \<^verbatim>\<open>InvalidArgument\<close> and nothing happens; one whose id is taken is refused with \<^verbatim>\<open>AlreadyExists\<close>
  and nothing stored changes; any other is answered with its id and itself, and \<^verbatim>\<open>GetConfiguration\<close>
  of that id then returns it.
\<close>

theorem PutConfiguration_then_Get:
  assumes "store_manager sm rt st sound can_cfg can_fsm can_evt can_out" and "c_Store s = Some sm"
    and "sound w" and "ctx_Deadline ctx = None" and "plain (cfg_Name c)" and "can_cfg c"
    and "PutConfiguration rt s ctx c w = (r, w')"
  shows "sound w' \<and>
    (case CheckValid c of
       Some e \<Rightarrow> w' = w \<and>
         r = Ret (None, Some (StatusError InvalidArgument (''invalid configuration: '' @ Error_text e)))
     | None \<Rightarrow>
         if s_configs (st w) (GetVersionId c) \<noteq> None
         then st w' = st w \<and> (\<exists>text. r = Ret (None, Some (StatusError AlreadyExists text)))
         else r = Ret (Some \<lparr>pr_Id = GetVersionId c, pr_Entity = EntityConfig c\<rparr>, None) \<and>
              fst (GetConfiguration s (GetVersionId c) w') = Ret (Some c, None))"
  using assms(7,2,3,5)
proof (cases rule: store_manager.PutConfiguration_cases [OF assms(1),
      case_names invalid late late_stored exists unreadable stored, consumes 4])
  case stored
  have "fst (sm_GetConfig sm (GetVersionId c) w') = Inr c"
    using store_manager.GetConfig_fst [OF assms(1) stored(4) version_id_GetVersionId [OF assms(5)]] stored(5)
    by simp
  then have "fst (GetConfiguration s (GetVersionId c) w') = Ret (Some c, None)"
    using assms(2) by (auto simp: GetConfiguration_def with_store_def replies_def split: prod.splits)
  with stored show ?thesis by simp
qed (use assms in auto)

theorem PutConfiguration_then_Get_witness:
  "let (r, w) = PutConfiguration mem_runtime open_server no_deadline lander_cfg (mem_world Map.empty) in
   r = Ret (Some \<lparr>pr_Id = ''rover:v2'', pr_Entity = EntityConfig lander_cfg\<rparr>, None) \<and>
   fst (GetConfiguration open_server ''rover:v2'' w) = Ret (Some lander_cfg, None)"
proof -
  obtain r w where c: "PutConfiguration mem_runtime open_server no_deadline lander_cfg (mem_world Map.empty) = (r, w)"
    by fastforce
  have "c_Store open_server = Some (RedisStore_manager mem_runtime plain_codecs mem_store)"
    "ctx_Deadline (no_deadline :: mem grpc_context) = None"
    by (simp_all add: open_server_def no_deadline_def)
  from PutConfiguration_then_Get [OF mem_store.refines this(1) sound_mem_world this(2) lander_plain(1)
      plain_can_marshal(1) c] c lander_cfg_valid(1)
  show ?thesis by (auto simp: mem_world_def start_view_def abs_db_def split: if_splits)
qed

subsection \<open>Machines\<close>

context store_manager
begin

lemma PutFiniteStateMachine_cases:
  assumes "PutFiniteStateMachine rt s ctx request w = (r, w')" and "c_Store s = Some sm" and "sound w"
    and "pf_Fsm request = Some m" and "version_id (fsm_ConfigId m)"
  obtains (no_config) "s_configs (st w) (fsm_ConfigId m) = None" "sound w'" "st w' = st w"
      "r = Ret (None, Some (StatusError FailedPrecondition (Error_text (NotFoundError (fsm_ConfigId m)))))"
  | (late) "ctx_Deadline ctx \<noteq> None" "sound w'" "st w' = st w" "\<exists>e. r = Ret (None, e)"
  | (unreadable) c where "s_configs (st w) (fsm_ConfigId m) = Some c" "\<not> can_fsm (defaulted c m)"
      "sound w'" "st w' = st w" "\<exists>e. r = Ret (None, Some e)"
  | (stored) c i where "s_configs (st w) (fsm_ConfigId m) = Some c" "can_fsm (defaulted c m)"
      "pf_Id request \<noteq> '''' \<Longrightarrow> i = pf_Id request" "pf_Id request = '''' \<Longrightarrow> \<exists>v. i = fst (uuid_NewString rt v)"
      "sound w'" "st w' = relist (cfg_Name c) i '''' (fsm_State (defaulted c m)) (put_machine i (defaulted c m) (st w))"
      "r = Ret (Some \<lparr>pr_Id = i, pr_Entity = EntityFsm (defaulted c m)\<rparr>, None)"
proof -
  obtain g w1 where g: "sm_GetConfig sm (fsm_ConfigId m) w = (g, w1)" by fastforce
  note gc = GetConfig_law [OF g assms(3,5)]
  show thesis
  proof (cases "s_configs (st w) (fsm_ConfigId m)")
    case None
    then show thesis
      using assms(1,2,4) g gc by (intro no_config) (auto simp: PutFiniteStateMachine_def with_store_def fails_def)
  next
    case (Some c)
    note c = this
    obtain b w2 where d: "deadline_passed rt ctx w1 = (b, w2)" by fastforce
    have w2: "sound w2" "st w2 = st w" using deadline_same [OF d] gc by auto
    show thesis
    proof (cases b)
      case True
      then have "ctx_Deadline ctx \<noteq> None" using d by (auto simp: deadline_passed_def split: option.splits)
      then show thesis
        using True assms(1,2,4) g gc c d w2
        by (intro late) (auto simp: PutFiniteStateMachine_def with_store_def)
    next
      case False
      obtain i w3 where i: "(if pf_Id request = '''' then uuid_NewString rt w2 else (pf_Id request, w2)) = (i, w3)"
        by fastforce
      have w3: "sound w3" "st w3 = st w"
        using i uuid_same [OF w2(1)] w2 by (auto split: if_splits)
      obtain e w4 where p: "sm_PutStateMachine sm i (Some (defaulted c m)) w3 = (e, w4)" by fastforce
      have v: "version_id (fsm_ConfigId (defaulted c m))" using assms(5) by simp
      note pm = PutStateMachine_law [OF p w3(1) v, unfolded w3(2)]
      have run: "(r, w') = (case sm_PutStateMachine sm i (Some (defaulted c m)) w3 of
           (Some err, w4) \<Rightarrow> fails (StatusError Internal (Error_text err)) w4
         | (None, w4) \<Rightarrow>
             (case sm_UpdateState sm (cfg_Name c) i '''' (fsm_State (defaulted c m)) w4 of
                (Some err, w5) \<Rightarrow> fails (StatusError Internal (Error_text err)) w5
              | (None, w5) \<Rightarrow> replies \<lparr>pr_Id = i, pr_Entity = EntityFsm (defaulted c m)\<rparr> w5))"
        using assms(1,2,4) g gc c d False i
        by (simp add: PutFiniteStateMachine_def with_store_def defaulted_def [symmetric] Let_def)
      show thesis
      proof (cases "can_fsm (defaulted c m)")
        case False
        then show thesis
          using run p pm c by (intro unreadable [of c]) (auto simp: fails_def)
      next
        case True
        obtain e2 w5 where u: "sm_UpdateState sm (cfg_Name c) i '''' (fsm_State (defaulted c m)) w4 = (e2, w5)"
          by fastforce
        have "plain (cfg_Name c)" using config_key [OF assms(3) c] by simp
        with UpdateState_law [OF u] pm True
        have w5: "sound w5" "e2 = None" "st w5 = relist (cfg_Name c) i '''' (fsm_State (defaulted c m)) (put_machine i (defaulted c m) (st w))"
          by auto
        show thesis
        proof (rule stored [OF c True])
          show "i = pf_Id request" if "pf_Id request \<noteq> ''''" using i that by simp
          show "\<exists>v. i = fst (uuid_NewString rt v)" if "pf_Id request = ''''"
            using i that by (metis fst_conv)
        qed (use run p pm True u w5 in \<open>auto simp: replies_def\<close>)
      qed
    qed
  qed
qed

end

text \<open>
  C30. \<^verbatim>\<open>PutFiniteStateMachine\<close> with no deadline, for a machine that can be serialised and whose
  configuration id is a name and a version, over a store that keeps its contract: without the
  configuration it is refused with \<^verbatim>\<open>FailedPrecondition\<close> and nothing stored changes. Otherwise the
  reply has the id of the request, or a generated one, and the machine, in the starting state of the
  configuration if it had no state; \<^verbatim>\<open>GetFiniteStateMachine\<close> then returns that machine, and
  \<^verbatim>\<open>GetAllInState\<close> of its state lists it.
\<close>

theorem PutFiniteStateMachine_then_Get:
  assumes "store_manager sm rt st sound can_cfg can_fsm can_evt can_out" and "runtime rt"
    and "c_Store s = Some sm" and "sound w" and "ctx_Deadline ctx = None"
    and "pf_Fsm request = Some m" and "version_id (fsm_ConfigId m)" and "\<And>c. can_fsm (defaulted c m)"
    and "PutFiniteStateMachine rt s ctx request w = (r, w')"
  shows "sound w' \<and>
    (case s_configs (st w) (fsm_ConfigId m) of
       None \<Rightarrow> st w' = st w \<and> (\<exists>text. r = Ret (None, Some (StatusError FailedPrecondition text)))
     | Some c \<Rightarrow>
         \<exists>i m'. m' = defaulted c m \<and> i \<noteq> '''' \<and> (pf_Id request \<noteq> '''' \<longrightarrow> i = pf_Id request) \<and>
           r = Ret (Some \<lparr>pr_Id = i, pr_Entity = EntityFsm m'\<rparr>, None) \<and>
           (cfg_Name c \<noteq> '''' \<longrightarrow>
              fst (GetFiniteStateMachine s \<lparr>gf_Config = cfg_Name c, gf_Query = QueryId i\<rparr> w') =
                Ret (Some m', None) \<and>
              (fsm_State m' \<noteq> '''' \<longrightarrow>
                 (\<exists>ids. fst (Grpc_GetAllInState s \<lparr>gf_Config = cfg_Name c, gf_Query = QueryState (fsm_State m')\<rparr> w') =
                    Ret (Some ids, None) \<and> i \<in> set ids))))"
  using assms(9,3,4,6,7)
proof (cases rule: store_manager.PutFiniteStateMachine_cases [OF assms(1),
      case_names no_config late unreadable stored, consumes 5])
  case (stored c i)
  let ?m = "defaulted c m"
  have c: "GetVersionId c = fsm_ConfigId m" "plain (cfg_Name c)"
    using store_manager.config_key [OF assms(1,4) stored(1)] by auto
  then have n: "hd (Split (fsm_ConfigId m) CHR '':'') = cfg_Name c"
    using hd_Split_GetVersionId [OF c(2)] by simp
  have i: "i \<noteq> ''''"
    using stored(3,4) runtime.uuid_nonempty [OF assms(2)] by (cases "pf_Id request = ''''") auto
  have "fst (sm_GetStateMachine sm i (cfg_Name c) w') = Inr ?m"
    using store_manager.GetStateMachine_fst [OF assms(1) stored(5) c(2)] stored(6) n by simp
  then have g: "fst (GetFiniteStateMachine s \<lparr>gf_Config = cfg_Name c, gf_Query = QueryId i\<rparr> w') = Ret (Some ?m, None)"
    if "cfg_Name c \<noteq> ''''"
    using that i assms(3)
    by (auto simp: GetFiniteStateMachine_def with_store_def replies_def split: prod.splits)
  have "set (fst (sm_GetAllInState sm (cfg_Name c) (fsm_State ?m) w')) = fset (s_listing (st w') (cfg_Name c, fsm_State ?m))"
    by (rule store_manager.GetAllInState_fst [OF assms(1) stored(5) c(2)])
  then have l: "\<exists>ids. fst (Grpc_GetAllInState s \<lparr>gf_Config = cfg_Name c, gf_Query = QueryState (fsm_State ?m)\<rparr> w') =
      Ret (Some ids, None) \<and> i \<in> set ids" if "cfg_Name c \<noteq> ''''" "fsm_State ?m \<noteq> ''''"
    using that assms(3) stored(6)
    by (auto simp: Grpc_GetAllInState_def with_store_def replies_def s_listing_relist split: prod.splits)
  show ?thesis using stored(1,3,5,7) i g l by auto
qed (use assms(5,8) in auto)

definition launch_pad :: mem where
  "launch_pad = snd (PutConfiguration mem_runtime open_server no_deadline lander_cfg (mem_world Map.empty))"

definition new_lander :: PutFsmRequest where
  "new_lander = \<lparr>pf_Id = ''m7'', pf_Fsm = Some \<lparr>fsm_ConfigId = ''rover:v2'', fsm_State = '''', fsm_History = []\<rparr>\<rparr>"

lemma open_server_simps [simp]:
  "c_Store open_server = Some (RedisStore_manager mem_runtime plain_codecs mem_store)"
  "ctx_Deadline no_deadline = None"
  by (simp_all add: open_server_def no_deadline_def)

lemma sound_launch_pad [simp]: "sound_db plain_codecs (v_db (mem_view launch_pad))"
  unfolding launch_pad_def
  by (rule mem_store.manager.PutConfiguration_sound [OF prod.collapse [symmetric]
        open_server_simps(1) sound_mem_world lander_plain(1)])

theorem PutFiniteStateMachine_then_Get_witness:
  "fst (GetFiniteStateMachine open_server \<lparr>gf_Config = ''rover'', gf_Query = QueryId ''m7''\<rparr>
          (snd (PutFiniteStateMachine mem_runtime open_server no_deadline new_lander launch_pad))) =
   Ret (Some \<lparr>fsm_ConfigId = ''rover:v2'', fsm_State = ''earth'', fsm_History = []\<rparr>, None)"
proof -
  let ?m = "\<lparr>fsm_ConfigId = ''rover:v2'', fsm_State = '''', fsm_History = []\<rparr>"
  have m: "pf_Fsm new_lander = Some ?m" "version_id (fsm_ConfigId ?m)"
    by (simp_all add: new_lander_def version_id_def plain_def)
  have "s_configs (abs_db plain_codecs (v_db (mem_view launch_pad))) ''rover:v2'' = Some lander_cfg"
    by code_simp
  with PutFiniteStateMachine_then_Get [OF mem_store.refines mem_runtime.runtime_axioms open_server_simps(1)
      sound_launch_pad open_server_simps(2) m plain_can_marshal(2) prod.collapse [symmetric]]
  show ?thesis by (auto simp: new_lander_def lander_cfg_def defaulted_def)
qed

section \<open>Outcomes\<close>

context store_manager
begin

lemma UpdateEvent_same:
  assumes "UpdateEvent rt (Some e) w = (Ret e', w')" and "sound w"
  shows "sound w' \<and> st w' = st w"
  using assms uuid_same [OF assms(2)] now_same [OF assms(2)]
    now_same [of "snd (uuid_NewString rt w)"] uuid_same [of w]
  by (auto simp: UpdateEvent_def Let_def split: if_splits prod.splits)

lemma outcome_read_back:
  assumes "c_Store s = Some sm" and "l_store l = sm"
    and "complete request" and "req_Event request = Some e"
    and "sound w" and "plain (req_Config request)"
    and "can_evt e" and "\<And>r. can_out (outcome_for request r)"
    and "process_request l request w = (p, w')"
  obtains r where "\<exists>posted. p = Ret posted" "sound w'"
    "outcome_code r = expected_code can_fsm (st w) (req_Id request) (req_Config request) e"
    "s_outcomes (st w') (evt_EventId e, req_Config request) = Some (outcome_for request r)"
    "\<forall>v. sound v \<and> s_outcomes (st v) (evt_EventId e, req_Config request) = Some (outcome_for request r) \<longrightarrow>
       fst (GetEventOutcome s \<lparr>req_Event = None, req_Config = req_Config request, req_Id = evt_EventId e\<rparr> v) =
       Ret (Some \<lparr>resp_EventId = evt_EventId e, resp_Outcome = Some (outcome_for request r)\<rparr>, None)"
proof -
  let ?n = "req_Config request"
  obtain r s2 where r: "process can_fsm (req_Id request) ?n (Some e)
       ((st w)\<lparr>s_events := (s_events (st w))((evt_EventId e, ?n) \<mapsto> e)\<rparr>) (Ret r, s2)"
    and w': "sound w'"
      "st w' = s2\<lparr>s_outcomes := (s_outcomes s2)((evt_EventId e, ?n) \<mapsto> outcome_for request r)\<rparr>"
    and p: "\<exists>posted. p = Ret posted"
    using process_request_law [OF assms(3,4,2,5-9)] by metis
  have "evt_Transition e \<noteq> None" using assms(3,4) by (simp add: complete_def)
  then have code: "outcome_code r = expected_code can_fsm (st w) (req_Id request) ?n e"
    using process_code [OF r] by simp
  show thesis
  proof (rule that [OF p w'(1) code])
    show "s_outcomes (st w') (evt_EventId e, ?n) = Some (outcome_for request r)" using w'(2) by simp
    show "\<forall>v. sound v \<and> s_outcomes (st v) (evt_EventId e, ?n) = Some (outcome_for request r) \<longrightarrow>
        fst (GetEventOutcome s \<lparr>req_Event = None, req_Config = ?n, req_Id = evt_EventId e\<rparr> v) =
        Ret (Some \<lparr>resp_EventId = evt_EventId e, resp_Outcome = Some (outcome_for request r)\<rparr>, None)"
    proof (intro allI impI)
      fix v
      assume "sound v \<and> s_outcomes (st v) (evt_EventId e, ?n) = Some (outcome_for request r)"
      then show "fst (GetEventOutcome s \<lparr>req_Event = None, req_Config = ?n, req_Id = evt_EventId e\<rparr> v) =
          Ret (Some \<lparr>resp_EventId = evt_EventId e, resp_Outcome = Some (outcome_for request r)\<rparr>, None)"
        using GetOutcomeForEvent_law [OF prod.collapse [symmetric], of v ?n "evt_EventId e"] assms(1,6)
        by (auto simp: GetEventOutcome_def with_store_def replies_def Let_def split: prod.splits)
    qed
  qed
qed

end

end
