(* ===== verification/Sqs.thy ===== *)
theory Sqs
  imports Base64 Grpc_Server
begin

text \<open>
  The SQS publisher and subscriber (\<^verbatim>\<open>pkg/pubsub/sqs_pub.go\<close>, \<^verbatim>\<open>pkg/pubsub/sqs_sub.go\<close>). The SQS
  client (\<^verbatim>\<open>aws-sdk-go\<close>) is a parameter. The subscriber's polling loop is in theory \<open>Subscriber\<close>.
  The lemmas show that messages survive their text form, what
  a message leads to, and which notifications are published.
\<close>

section \<open>Definitions\<close>

record Message =
  msg_MessageId :: "string option"
  msg_Body :: "string option"
  msg_ReceiptHandle :: "string option"

record 'w sqs_client =
  sqs_GetQueueUrl :: "string \<Rightarrow> 'w \<Rightarrow> (go_error + string option) \<times> 'w"
  sqs_SendMessage :: "string \<Rightarrow> string \<Rightarrow> 'w \<Rightarrow> (go_error + string option) \<times> 'w"
  sqs_DeleteMessage :: "string \<Rightarrow> string option \<Rightarrow> 'w \<Rightarrow> go_error option \<times> 'w"
  sqs_ReceiveMessage :: "string \<Rightarrow> int \<Rightarrow> int \<Rightarrow> 'w \<Rightarrow> (go_error + Message list) \<times> 'w"

text \<open>The text form of a message. The offset in the error for text that is not Base64 is left out.\<close>

definition MarshalToText :: "'a codec \<Rightarrow> 'a \<Rightarrow> go_error + string" where
  "MarshalToText c msg =
     (case marshal c msg of Inl err \<Rightarrow> Inl err | Inr data \<Rightarrow> Inr (EncodeToString data))"

definition CorruptInputError :: go_error where
  "CorruptInputError = Errorf ''illegal base64 data''"

definition UnmarshalFromText :: "'a codec \<Rightarrow> string \<Rightarrow> go_error + 'a" where
  "UnmarshalFromText c text =
     (case DecodeString text of None \<Rightarrow> Inl CorruptInputError | Some data \<Rightarrow> unmarshal c data)"

text \<open>\<^verbatim>\<open>log.Fatal\<close> ends the program, which is \<open>Panic\<close> here.\<close>

definition GetQueueUrl :: "'w sqs_client \<Rightarrow> string \<Rightarrow> 'w \<Rightarrow> string go \<times> 'w" where
  "GetQueueUrl client topic w =
     (case sqs_GetQueueUrl client topic w of
        (Inl err, w1) \<Rightarrow> (Panic, w1)
      | (Inr None, w1) \<Rightarrow> (Panic, w1)
      | (Inr (Some url), w1) \<Rightarrow> (Ret url, w1))"

record 'w SqsPublisher =
  pub_client :: "'w sqs_client"
  pub_notifications :: "EventResponse list"

text \<open>One turn of the publisher's loop, and the loop over the notifications channel.\<close>

definition publish_one ::
    "codecs \<Rightarrow> 'w sqs_client \<Rightarrow> string \<Rightarrow> EventResponse \<Rightarrow> 'w \<Rightarrow> unit go \<times> 'w" where
  "publish_one cs client url eventResponse w =
     (let isOKOutcome = (case resp_Outcome eventResponse of None \<Rightarrow> False | Some out \<Rightarrow> out_Code out = Ok) in
      if isOKOutcome then (Ret (), w)
      else
        (case MarshalToText (resp_codec cs) eventResponse of
           Inl err \<Rightarrow> (Ret (), w)
         | Inr response \<Rightarrow>
             (case sqs_SendMessage client url response w of
                (Inl err, w1) \<Rightarrow> (Ret (), w1)
              | (Inr None, w1) \<Rightarrow> (Panic, w1)
              | (Inr (Some ident), w1) \<Rightarrow> (Ret (), w1))))"

fun Publish_loop ::
    "codecs \<Rightarrow> 'w sqs_client \<Rightarrow> string \<Rightarrow> EventResponse list \<Rightarrow> 'w \<Rightarrow> unit go \<times> 'w" where
  "Publish_loop cs client url [] w = (Ret (), w)"
| "Publish_loop cs client url (n # ns) w =
     (case publish_one cs client url n w of
        (Panic, w1) \<Rightarrow> (Panic, w1)
      | (Ret _, w1) \<Rightarrow> Publish_loop cs client url ns w1)"

definition Publish :: "codecs \<Rightarrow> 'w SqsPublisher \<Rightarrow> string \<Rightarrow> 'w \<Rightarrow> unit go \<times> 'w" where
  "Publish cs s errorsTopic w =
     (case GetQueueUrl (pub_client s) errorsTopic w of
        (Panic, w1) \<Rightarrow> (Panic, w1)
      | (Ret errorsQueueUrl, w1) \<Rightarrow>
          Publish_loop cs (pub_client s) errorsQueueUrl (pub_notifications s) w1)"

text \<open>
  The subscriber. Sending on the events channel waits for a receiver; it panics when the channel is
  closed.
\<close>

definition DefaultPollingInterval :: duration where "DefaultPollingInterval = 5 * 1000000000"
definition DefaultVisibilityTimeout :: duration where "DefaultVisibilityTimeout = 5 * 1000000000"
definition DefaultRetries :: int where "DefaultRetries = 3"

record 'w SqsSubscriber =
  sub_client :: "'w sqs_client"
  sub_events :: "EventRequest \<Rightarrow> 'w \<Rightarrow> unit go \<times> 'w"
  sub_Timeout :: duration
  sub_PollingInterval :: duration
  sub_MessageRemoveRetries :: int

fun remove_message :: "'w sqs_client \<Rightarrow> string \<Rightarrow> string option \<Rightarrow> nat \<Rightarrow> 'w \<Rightarrow> 'w" where
  "remove_message client url handle 0 w = w"
| "remove_message client url handle (Suc left) w =
     (case sqs_DeleteMessage client url handle w of
        (Some err, w1) \<Rightarrow> remove_message client url handle left w1
      | (None, w1) \<Rightarrow> w1)"

definition ProcessMessage ::
    "'w go_runtime \<Rightarrow> codecs \<Rightarrow> 'w SqsSubscriber \<Rightarrow> Message \<Rightarrow> string \<Rightarrow> 'w \<Rightarrow> unit go \<times> 'w" where
  "ProcessMessage rt cs s msg queueUrl w =
     (case msg_MessageId msg of
        None \<Rightarrow> (Panic, w)
      | Some ident \<Rightarrow>
          (case msg_Body msg of
             None \<Rightarrow> (Ret (), w)
           | Some body \<Rightarrow>
               (case UnmarshalFromText (req_codec cs) body of
                  Inl err \<Rightarrow> (Ret (), w)
                | Inr request \<Rightarrow>
                    if req_Id request = '''' then (Ret (), w)
                    else
                      (case UpdateEvent rt (req_Event request) w of
                         (Panic, w1) \<Rightarrow> (Panic, w1)
                       | (Ret event, w1) \<Rightarrow>
                           (case sub_events s (request\<lparr>req_Event := Some event\<rparr>) w1 of
                              (Panic, w2) \<Rightarrow> (Panic, w2)
                            | (Ret _, w2) \<Rightarrow>
                                (Ret (), remove_message (sub_client s) queueUrl (msg_ReceiptHandle msg)
                                           (nat (sub_MessageRemoveRetries s)) w2))))))"

section \<open>Messages survive their text form\<close>

text \<open>
  C31. \<^verbatim>\<open>UnmarshalFromText\<close> gives back the message that \<^verbatim>\<open>MarshalToText\<close> wrote, for any serialisation
  that is read back as it was written; the text has only characters of the Base64 alphabet and
  padding, and a length that is a multiple of four.
\<close>

theorem text_roundtrip:
  assumes "faithful c" and "MarshalToText c msg = Inr text"
  shows "UnmarshalFromText c text = Inr msg \<and> set text \<subseteq> set alphabet \<union> {CHR ''=''} \<and>
         length text mod 4 = 0"
proof -
  obtain data where d: "marshal c msg = Inr data" "text = EncodeToString data"
    using assms(2) by (auto simp: MarshalToText_def split: sum.splits)
  have "set (EncodeToString bs) \<subseteq> set alphabet \<union> {CHR ''=''}" for bs
    by (induction bs rule: EncodeToString.induct) (auto simp: digit_in)
  moreover have "length (EncodeToString bs) mod 4 = 0" for bs
    by (induction bs rule: EncodeToString.induct) (auto simp: mod_Suc)
  ultimately show ?thesis
    using d faithfulD [OF assms(1) d(1)] by (simp add: UnmarshalFromText_def)
qed

theorem text_roundtrip_witness:
  "\<exists>text. MarshalToText (req_codec plain_codecs) launch_request = Inr text \<and>
     UnmarshalFromText (req_codec plain_codecs) text = Inr launch_request"
proof -
  obtain t where "MarshalToText (req_codec plain_codecs) launch_request = Inr t"
    by (simp add: MarshalToText_def)
  with text_roundtrip [OF plain.req_faithful this] show ?thesis by blast
qed

section \<open>What a message leads to\<close>

text \<open>\<open>tries\<close> attempts to remove a message were made: all but the last one failed.\<close>

definition removed_in ::
    "'w sqs_client \<Rightarrow> string \<Rightarrow> string option \<Rightarrow> nat \<Rightarrow> 'w \<Rightarrow> nat \<Rightarrow> bool" where
  "removed_in client url handle limit w tries \<longleftrightarrow>
     (let del = sqs_DeleteMessage client url handle; after = (\<lambda>j. ((\<lambda>v. snd (del v)) ^^ j) w) in
      tries \<le> limit \<and> (\<forall>j < tries - 1. fst (del (after j)) \<noteq> None) \<and>
      (tries = limit \<or> 0 < tries \<and> fst (del (after (tries - 1))) = None))"

lemma remove_message_tries:
  "\<exists>k. removed_in client url handle limit w k \<and>
       remove_message client url handle limit w = ((\<lambda>v. snd (sqs_DeleteMessage client url handle v)) ^^ k) w"
proof (induction limit arbitrary: w)
  case 0
  then show ?case by (intro exI [of _ 0]) (simp add: removed_in_def Let_def)
next
  case (Suc limit)
  let ?del = "sqs_DeleteMessage client url handle"
  let ?f = "\<lambda>v. snd (?del v)"
  obtain e w1 where d: "?del w = (e, w1)" by fastforce
  show ?case
  proof (cases e)
    case None
    then show ?thesis using d by (intro exI [of _ 1]) (simp add: removed_in_def)
  next
    case (Some err)
    obtain k where k: "removed_in client url handle limit w1 k"
      "remove_message client url handle limit w1 = (?f ^^ k) w1" using Suc.IH by blast
    have f: "(?f ^^ j) w1 = (?f ^^ Suc j) w" for j
      by (simp only: funpow_Suc_right o_apply d snd_conv)
    have "removed_in client url handle (Suc limit) w (Suc k)"
      unfolding removed_in_def Let_def
    proof (intro conjI allI impI)
      show "Suc k \<le> Suc limit" using k by (simp add: removed_in_def Let_def)
      show "fst (?del ((?f ^^ j) w)) \<noteq> None" if "j < Suc k - 1" for j
        using that k(1) Some d by (cases j) (auto simp: removed_in_def Let_def f less_diff_conv)
      show "Suc k = Suc limit \<or> 0 < Suc k \<and> fst (?del ((?f ^^ (Suc k - 1)) w)) = None"
        using k(1) by (cases k) (auto simp: removed_in_def Let_def f)
    qed
    then show ?thesis using Some d k(2) f by (intro exI [of _ "Suc k"]) simp
  qed
qed

lemma ProcessMessage_delivers:
  assumes "runtime rt" and "faithful (req_codec cs)"
    and "MarshalToText (req_codec cs) request = Inr body"
    and "msg_MessageId msg = Some ident" and "msg_Body msg = Some body"
    and "req_Id request \<noteq> ''''" and "req_Event request = Some e"
  shows "\<exists>e' w1. UpdateEvent rt (Some e) w = (Ret e', w1) \<and> completed e e' \<and>
    (case sub_events s (request\<lparr>req_Event := Some e'\<rparr>) w1 of
       (Panic, w2) \<Rightarrow> ProcessMessage rt cs s msg url w = (Panic, w2)
     | (Ret _, w2) \<Rightarrow>
         \<exists>k. removed_in (sub_client s) url (msg_ReceiptHandle msg) (nat (sub_MessageRemoveRetries s)) w2 k \<and>
           ProcessMessage rt cs s msg url w =
             (Ret (), ((\<lambda>v. snd (sqs_DeleteMessage (sub_client s) url (msg_ReceiptHandle msg) v)) ^^ k) w2))"
proof -
  obtain data where d: "marshal (req_codec cs) request = Inr data" "body = EncodeToString data"
    using assms(3) by (auto simp: MarshalToText_def split: sum.splits)
  then have um: "UnmarshalFromText (req_codec cs) body = Inr request"
    using faithfulD [OF assms(2) d(1)] by (simp add: UnmarshalFromText_def)
  obtain e' w1 where u: "UpdateEvent rt (Some e) w = (Ret e', w1)" "completed e e'"
    by (rule UpdateEvent_completed [OF assms(1)])
  obtain a w2 where ch: "sub_events s (request\<lparr>req_Event := Some e'\<rparr>) w1 = (a, w2)" by fastforce
  obtain k where k: "removed_in (sub_client s) url (msg_ReceiptHandle msg) (nat (sub_MessageRemoveRetries s)) w2 k"
    "remove_message (sub_client s) url (msg_ReceiptHandle msg) (nat (sub_MessageRemoveRetries s)) w2 =
      ((\<lambda>v. snd (sqs_DeleteMessage (sub_client s) url (msg_ReceiptHandle msg) v)) ^^ k) w2"
    using remove_message_tries [of "sub_client s" url "msg_ReceiptHandle msg" "nat (sub_MessageRemoveRetries s)" w2]
    by (elim exE conjE)
  show ?thesis
    using assms(4-7) um u ch k
    by (intro exI [of _ e'] exI [of _ w1]) (cases a, auto simp: ProcessMessage_def)
qed

text \<open>
  \<^verbatim>\<open>ProcessMessage\<close> on a message whose body is the text form of a request with an id and an
  event: it puts the request on the events channel, with the event's id and time filled in when
  missing; only when the channel has taken it, it removes the message from the queue, and it asks
  for that until a call succeeds, at most \<^verbatim>\<open>MessageRemoveRetries\<close> times. A closed channel is a panic and
  leaves the message in the queue.
\<close>

theorem ProcessMessage_delivers_then_removes:
  assumes "runtime rt" and "faithful (req_codec cs)"
    and "MarshalToText (req_codec cs) request = Inr body"
    and "msg_MessageId msg = Some ident" and "msg_Body msg = Some body"
    and "req_Id request \<noteq> ''''" and "req_Event request = Some e"
  shows "\<exists>e' w1. UpdateEvent rt (Some e) w = (Ret e', w1) \<and> completed e e' \<and>
    (case sub_events s (request\<lparr>req_Event := Some e'\<rparr>) w1 of
       (Panic, w2) \<Rightarrow> ProcessMessage rt cs s msg url w = (Panic, w2)
     | (Ret _, w2) \<Rightarrow>
         \<exists>k. removed_in (sub_client s) url (msg_ReceiptHandle msg) (nat (sub_MessageRemoveRetries s)) w2 k \<and>
           ProcessMessage rt cs s msg url w =
             (Ret (), ((\<lambda>v. snd (sqs_DeleteMessage (sub_client s) url (msg_ReceiptHandle msg) v)) ^^ k) w2))"
  by (rule ProcessMessage_delivers [OF assms])

text \<open>A subscriber for the witnesses: the world is the log of what it did.\<close>

datatype step = Delivered EventRequest | Removed string "string option"

definition log_runtime :: "step list go_runtime" where
  "log_runtime =
     \<lparr>uuid_NewString = (\<lambda>w. (''id'', w)), time_Now = (\<lambda>w. (0, w)), rand_Intn = (\<lambda>n w. (0, w)),
      time_Sleep = (\<lambda>d w. w)\<rparr>"

interpretation log_runtime: runtime log_runtime
  by unfold_locales (simp add: log_runtime_def)

definition log_client :: "step list sqs_client" where
  "log_client =
     \<lparr>sqs_GetQueueUrl = (\<lambda>topic w. (Inr (Some topic), w)),
      sqs_SendMessage = (\<lambda>url body w. (Inr (Some ''1''), w)),
      sqs_DeleteMessage = (\<lambda>url h w. (None, w @ [Removed url h])),
      sqs_ReceiveMessage = (\<lambda>url n t w. (Inr [], w))\<rparr>"

definition log_subscriber :: "step list SqsSubscriber" where
  "log_subscriber =
     \<lparr>sub_client = log_client, sub_events = (\<lambda>request w. (Ret (), w @ [Delivered request])),
      sub_Timeout = DefaultVisibilityTimeout, sub_PollingInterval = DefaultPollingInterval,
      sub_MessageRemoveRetries = DefaultRetries\<rparr>"

theorem ProcessMessage_delivers_then_removes_witness:
  "\<exists>body. ProcessMessage log_runtime plain_codecs log_subscriber
       \<lparr>msg_MessageId = Some ''1'', msg_Body = Some body, msg_ReceiptHandle = Some ''h''\<rparr> ''q'' [] =
     (Ret (), [Delivered launch_request, Removed ''q'' (Some ''h'')])"
proof -
  obtain body where b: "MarshalToText (req_codec plain_codecs) launch_request = Inr body"
    by (simp add: MarshalToText_def)
  let ?msg = "\<lparr>msg_MessageId = Some ''1'', msg_Body = Some body, msg_ReceiptHandle = Some ''h''\<rparr>"
  let ?e = "event_named ''launch''"
  have r: "req_Id launch_request \<noteq> ''''" "req_Event launch_request = Some ?e"
    "msg_MessageId ?msg = Some ''1''" "msg_Body ?msg = Some body"
    by (simp_all add: launch_request_def)
  have u: "UpdateEvent log_runtime (Some ?e) [] = (Ret ?e, [])"
    by (rule UpdateEvent_idle) (simp_all add: event_named_def)
  have same: "launch_request\<lparr>req_Event := Some ?e\<rparr> = launch_request" by (simp add: launch_request_def)
  obtain k where k: "removed_in log_client ''q'' (Some ''h'') (nat DefaultRetries) [Delivered launch_request] k"
    and p: "ProcessMessage log_runtime plain_codecs log_subscriber ?msg ''q'' [] =
      (Ret (), ((\<lambda>v. snd (sqs_DeleteMessage log_client ''q'' (Some ''h'') v)) ^^ k) [Delivered launch_request])"
    using ProcessMessage_delivers_then_removes [OF log_runtime.runtime_axioms plain.req_faithful b r(3,4,1,2),
        of "[]" log_subscriber "''q''"] u same
    by (auto simp: log_subscriber_def)
  have first: "\<not> 0 < k - 1" "k \<noteq> 0"
    using k by (auto simp: removed_in_def log_client_def DefaultRetries_def Let_def)
  then have "k = 1" by linarith
  then show ?thesis using p by (auto simp: log_client_def)
qed

text \<open>
  \<^verbatim>\<open>ProcessMessage\<close> on any other message with an id: without a body, with one that is not the
  text form of a request, or with a request that has no machine id, it returns having done nothing,
  so the message stays in the queue; with a request that has an id and no event it panics.
\<close>

theorem malformed_messages:
  assumes "msg_MessageId msg = Some ident"
  shows "case Option.bind (msg_Body msg) (\<lambda>b. case UnmarshalFromText (req_codec cs) b of
             Inl err \<Rightarrow> None | Inr request \<Rightarrow> Some request) of
           None \<Rightarrow> ProcessMessage rt cs s msg url w = (Ret (), w)
         | Some request \<Rightarrow>
             if req_Id request = '''' then ProcessMessage rt cs s msg url w = (Ret (), w)
             else req_Event request = None \<longrightarrow> ProcessMessage rt cs s msg url w = (Panic, w)"
  using assms by (auto simp: ProcessMessage_def UpdateEvent_def split: option.splits sum.splits)

theorem malformed_messages_witness:
  "ProcessMessage log_runtime plain_codecs log_subscriber
     \<lparr>msg_MessageId = Some ''1'', msg_Body = None, msg_ReceiptHandle = Some ''h''\<rparr> ''q'' [] = (Ret (), [])"
  using malformed_messages [of "\<lparr>msg_MessageId = Some ''1'', msg_Body = None, msg_ReceiptHandle = Some ''h''\<rparr>"
      "''1''" log_runtime plain_codecs log_subscriber "''q''" "[]"]
  by simp

section \<open>What is published\<close>

text \<open>The texts of the notifications that are not for an \<^verbatim>\<open>Ok\<close> outcome.\<close>

definition to_publish :: "codecs \<Rightarrow> EventResponse \<Rightarrow> string option" where
  "to_publish cs n =
     (if \<exists>out. resp_Outcome n = Some out \<and> out_Code out = Ok then None
      else case MarshalToText (resp_codec cs) n of Inl err \<Rightarrow> None | Inr t \<Rightarrow> Some t)"

fun send_all :: "'w sqs_client \<Rightarrow> string \<Rightarrow> string list \<Rightarrow> 'w \<Rightarrow> 'w" where
  "send_all client url [] w = w"
| "send_all client url (t # ts) w = send_all client url ts (snd (sqs_SendMessage client url t w))"

lemma publish_one_eq:
  assumes "\<And>body w. fst (sqs_SendMessage client url body w) \<noteq> Inr None"
  shows "publish_one cs client url n w =
    (Ret (), case to_publish cs n of None \<Rightarrow> w | Some t \<Rightarrow> snd (sqs_SendMessage client url t w))"
proof (cases "to_publish cs n")
  case None
  then show ?thesis
    by (auto simp: publish_one_def to_publish_def split: option.splits if_splits sum.splits)
next
  case (Some t)
  then have "publish_one cs client url n w =
      (case sqs_SendMessage client url t w of
         (Inl err, w1) \<Rightarrow> (Ret (), w1) | (Inr None, w1) \<Rightarrow> (Panic, w1) | (Inr (Some i), w1) \<Rightarrow> (Ret (), w1))"
    by (auto simp: publish_one_def to_publish_def split: option.splits if_splits sum.splits)
  then show ?thesis
    using Some assms [of t w] by (auto split: prod.splits sum.splits option.splits)
qed

text \<open>
  \<^verbatim>\<open>Publish\<close>, with a client that returns a message id with every message it accepts: it ends when
  the notifications channel is closed, and by then it has sent, in order, the text form of every
  notification except those for an \<^verbatim>\<open>Ok\<close> outcome and those that cannot be serialised; a message
  that cannot be sent does not stop the others. It stops the program only when the queue is not found.
\<close>

theorem Publish_sends_all_failures:
  assumes "\<And>url body w. fst (sqs_SendMessage (pub_client s) url body w) \<noteq> Inr None"
  shows "Publish cs s topic w =
    (case sqs_GetQueueUrl (pub_client s) topic w of
       (Inr (Some url), w1) \<Rightarrow>
         (Ret (), send_all (pub_client s) url (List.map_filter (to_publish cs) (pub_notifications s)) w1)
     | (_, w1) \<Rightarrow> (Panic, w1))"
proof -
  have "Publish_loop cs (pub_client s) url ns v =
      (Ret (), send_all (pub_client s) url (List.map_filter (to_publish cs) ns) v)" for url ns v
  proof (induction ns arbitrary: v)
    case (Cons n ns)
    then show ?case
      using publish_one_eq [of "pub_client s" url cs n v, OF assms]
      by (cases "to_publish cs n") (simp_all add: map_filter_simps)
  qed (simp add: map_filter_simps)
  then show ?thesis
    by (simp add: Publish_def GetQueueUrl_def split: prod.splits sum.splits option.splits)
qed

definition mailbox_client :: "string list sqs_client" where
  "mailbox_client =
     \<lparr>sqs_GetQueueUrl = (\<lambda>topic w. (Inr (Some topic), w)),
      sqs_SendMessage = (\<lambda>url body w. (Inr (Some ''1''), w @ [body])),
      sqs_DeleteMessage = (\<lambda>url h w. (None, w)),
      sqs_ReceiveMessage = (\<lambda>url n t w. (Inr [], w))\<rparr>"

definition failure :: EventResponse where
  "failure = \<lparr>resp_EventId = ''e1'', resp_Outcome = Some \<lparr>out_Code = FsmNotFound, out_Details = '''',
                out_Config = ''rover'', out_Id = ''m1''\<rparr>\<rparr>"

theorem Publish_sends_all_failures_witness:
  "\<exists>t. MarshalToText (resp_codec plain_codecs) failure = Inr t \<and>
     Publish plain_codecs
       \<lparr>pub_client = mailbox_client,
        pub_notifications = [failure, failure\<lparr>resp_Outcome := map_option (out_Code_update (\<lambda>_. Ok)) (resp_Outcome failure)\<rparr>]\<rparr>
       ''dlq'' [] = (Ret (), [t])"
proof -
  let ?ok = "failure\<lparr>resp_Outcome := map_option (out_Code_update (\<lambda>_. Ok)) (resp_Outcome failure)\<rparr>"
  let ?s = "\<lparr>pub_client = mailbox_client, pub_notifications = [failure, ?ok]\<rparr>"
  obtain t where t: "MarshalToText (resp_codec plain_codecs) failure = Inr t"
    by (simp add: MarshalToText_def)
  have "to_publish plain_codecs failure = Some t" "to_publish plain_codecs ?ok = None"
    using t by (simp_all add: to_publish_def failure_def)
  moreover have "fst (sqs_SendMessage (pub_client ?s) url body w) \<noteq> Inr None" for url body w
    by (simp add: mailbox_client_def)
  from Publish_sends_all_failures [of ?s, OF this, of plain_codecs "''dlq''" "[]"]
  have "Publish plain_codecs ?s ''dlq'' [] =
      (Ret (), send_all mailbox_client ''dlq'' (List.map_filter (to_publish plain_codecs) [failure, ?ok]) [])"
    by (simp add: mailbox_client_def)
  ultimately show ?thesis
    using t by (intro exI [of _ t]) (simp add: map_filter_simps mailbox_client_def)
qed

end
