(* ===== verification/Subscriber.thy ===== *)
theory Subscriber
  imports Sqs
begin

text \<open>
  The constructors of the SQS publisher and subscriber and the subscriber's polling loop
  (\<^verbatim>\<open>pkg/pubsub/sqs_sub.go\<close>, \<^verbatim>\<open>NewSqsPublisher\<close> of \<^verbatim>\<open>pkg/pubsub/sqs_pub.go\<close>). The loop runs until the
  \<^verbatim>\<open>done\<close> channel is closed, so it is a partial function; the lemmas say when it returns and what it has done by then.
\<close>

section \<open>Definitions\<close>

text \<open>
  What the constructors use of the environment and of \<^verbatim>\<open>aws-sdk-go\<close>: a session with an endpoint and a
  region, or with neither.
\<close>

record 'w aws =
  os_LookupEnv :: "string \<Rightarrow> 'w \<Rightarrow> string option"
  NewSessionWithOptions :: "(string \<times> string) option \<Rightarrow> 'w \<Rightarrow> (go_error + 'w sqs_client) \<times> 'w"

text \<open>\<^verbatim>\<open>session.Must\<close> panics when there is no session.\<close>

definition Must :: "(go_error + 'a) \<times> 'w \<Rightarrow> 'a go \<times> 'w" where
  "Must r = (case r of (Inl err, w) \<Rightarrow> (Panic, w) | (Inr x, w) \<Rightarrow> (Ret x, w))"

definition getSqsClient :: "'w aws \<Rightarrow> string option \<Rightarrow> 'w \<Rightarrow> 'w sqs_client option go \<times> 'w" where
  "getSqsClient aws awsEndpointUrl w =
     (case awsEndpointUrl of
        None \<Rightarrow>
          (case Must (NewSessionWithOptions aws None w) of
             (Panic, w1) \<Rightarrow> (Panic, w1)
           | (Ret client, w1) \<Rightarrow> (Ret (Some client), w1))
      | Some url \<Rightarrow>
          (case os_LookupEnv aws ''AWS_REGION'' w of
             None \<Rightarrow> (Ret None, w)
           | Some region \<Rightarrow>
               (case Must (NewSessionWithOptions aws (Some (url, region)) w) of
                  (Panic, w1) \<Rightarrow> (Panic, w1)
                | (Ret client, w1) \<Rightarrow> (Ret (Some client), w1))))"

definition NewSqsSubscriber ::
    "'w aws \<Rightarrow> (EventRequest \<Rightarrow> 'w \<Rightarrow> unit go \<times> 'w) \<Rightarrow> string option \<Rightarrow> 'w \<Rightarrow> 'w SqsSubscriber option go \<times> 'w" where
  "NewSqsSubscriber aws eventsChannel sqsUrl w =
     (case getSqsClient aws sqsUrl w of
        (Panic, w1) \<Rightarrow> (Panic, w1)
      | (Ret None, w1) \<Rightarrow> (Ret None, w1)
      | (Ret (Some client), w1) \<Rightarrow>
          (Ret (Some \<lparr>sub_client = client, sub_events = eventsChannel,
                      sub_Timeout = DefaultVisibilityTimeout, sub_PollingInterval = DefaultPollingInterval,
                      sub_MessageRemoveRetries = DefaultRetries\<rparr>), w1))"

definition NewSqsPublisher ::
    "'w aws \<Rightarrow> EventResponse list \<Rightarrow> string option \<Rightarrow> 'w \<Rightarrow> 'w SqsPublisher option go \<times> 'w" where
  "NewSqsPublisher aws channel awsUrl w =
     (case getSqsClient aws awsUrl w of
        (Panic, w1) \<Rightarrow> (Panic, w1)
      | (Ret None, w1) \<Rightarrow> (Ret None, w1)
      | (Ret (Some client), w1) \<Rightarrow> (Ret (Some \<lparr>pub_client = client, pub_notifications = channel\<rparr>), w1))"

text \<open>
  Seconds of a duration, without the fraction (exact: \<^verbatim>\<open>Seconds()\<close> is a \<^verbatim>\<open>float64\<close>, which holds every
  duration of less than ninety days with its fraction).
\<close>

definition whole_seconds :: "duration \<Rightarrow> int" where
  "whole_seconds d = (if d < 0 then - (- d div 1000000000) else d div 1000000000)"

text \<open>
  One turn of the loop. \<open>go_stmt\<close> is the \<^verbatim>\<open>go\<close> statement: it hands a call to the scheduler. The
  messages are started in the order received.
\<close>

type_synonym 'w go_statement = "('w \<Rightarrow> unit go \<times> 'w) \<Rightarrow> 'w \<Rightarrow> 'w"

definition poll ::
    "'w go_runtime \<Rightarrow> 'w go_statement \<Rightarrow> codecs \<Rightarrow> 'w SqsSubscriber \<Rightarrow> string \<Rightarrow> 'w \<Rightarrow> 'w" where
  "poll rt go_stmt cs s queueUrl w =
     (let (start, w1) = time_Now rt w;
          (msgResult, w2) =
            sqs_ReceiveMessage (sub_client s) queueUrl 10 (whole_seconds (sub_Timeout s)) w1;
          w3 = (case msgResult of
                  Inr messages \<Rightarrow> fold (\<lambda>msg. go_stmt (ProcessMessage rt cs s msg queueUrl)) messages w2
                | Inl err \<Rightarrow> w2);
          (now, w4) = time_Now rt w3;
          timeLeft = sub_PollingInterval s - (now - start)
      in if timeLeft > 0 then time_Sleep rt timeLeft w4 else w4)"

text \<open>\<open>closed\<close> is the \<^verbatim>\<open>select\<close> on the \<^verbatim>\<open>done\<close> channel.\<close>

partial_function (option) Subscribe_loop ::
    "('w \<Rightarrow> bool) \<Rightarrow> ('w \<Rightarrow> 'w) \<Rightarrow> 'w \<Rightarrow> 'w option" where
  [code]: "Subscribe_loop closed turn w = (if closed w then Some w else Subscribe_loop closed turn (turn w))"

definition Subscribe ::
    "'w go_runtime \<Rightarrow> 'w go_statement \<Rightarrow> codecs \<Rightarrow> 'w SqsSubscriber \<Rightarrow> string \<Rightarrow> ('w \<Rightarrow> bool) \<Rightarrow> 'w
       \<Rightarrow> (unit go \<times> 'w) option" where
  "Subscribe rt go_stmt cs s topic closed w =
     (case GetQueueUrl (sub_client s) topic w of
        (Panic, w1) \<Rightarrow> Some (Panic, w1)
      | (Ret queueUrl, w1) \<Rightarrow>
          map_option (Pair (Ret ())) (Subscribe_loop closed (poll rt go_stmt cs s queueUrl) w1))"

section \<open>When the subscriber returns\<close>

text \<open>The loop, at the first turn at which the channel is closed.\<close>

lemma Subscribe_loop_Some:
  assumes "\<And>j. j < k \<Longrightarrow> \<not> closed ((turn ^^ j) w)" and "closed ((turn ^^ k) w)"
  shows "Subscribe_loop closed turn w = Some ((turn ^^ k) w)"
  using assms
proof (induction k arbitrary: w)
  case 0
  then show ?case by (subst Subscribe_loop.simps) simp
next
  case (Suc k)
  have "\<not> closed w" using Suc.prems(1) [of 0] by simp
  moreover have "\<not> closed ((turn ^^ j) (turn w))" if "j < k" for j
    using Suc.prems(1) [of "Suc j"] that by (simp add: funpow_swap1)
  then have "Subscribe_loop closed turn (turn w) = Some ((turn ^^ k) (turn w))"
    using Suc.prems(2) by (intro Suc.IH) (simp_all add: funpow_swap1)
  ultimately show ?case by (subst Subscribe_loop.simps) (simp add: funpow_swap1)
qed

lemma Subscribe_loop_stops:
  assumes "Subscribe_loop closed turn w = Some w'"
  shows "\<exists>k. closed ((turn ^^ k) w)"
proof (rule Subscribe_loop.raw_induct [where P = "\<lambda>closed turn w w'. \<exists>k. closed ((turn ^^ k) w)", OF _ assms])
  fix f :: "('a \<Rightarrow> bool) \<Rightarrow> ('a \<Rightarrow> 'a) \<Rightarrow> 'a \<Rightarrow> 'a option" and closed turn w w'
  assume IH: "\<And>closed turn w w'. f closed turn w = Some w' \<Longrightarrow> \<exists>k. closed ((turn ^^ k) w)"
    and step: "(if closed w then Some w else f closed turn (turn w)) = Some w'"
  show "\<exists>k. closed ((turn ^^ k) w)"
  proof (cases "closed w")
    case True
    then show ?thesis by (intro exI [of _ 0]) simp
  next
    case False
    then obtain k where "closed ((turn ^^ k) (turn w))" using IH step by fastforce
    then show ?thesis by (intro exI [of _ "Suc k"]) (simp add: funpow_swap1)
  qed
qed

text \<open>
  C22. \<^verbatim>\<open>Subscribe\<close> returns exactly when the \<^verbatim>\<open>done\<close> channel is closed at the start of some turn of its
  loop, and then it has polled the queue once for every turn before the first such one; while
  the channel stays open it does not return. If the queue has no URL, it ends the program.
\<close>

theorem Subscribe_returns_iff_done:
  "case sqs_GetQueueUrl (sub_client s) topic w of
     (Inr (Some url), w1) \<Rightarrow>
       (let after = (\<lambda>k. (poll rt go_stmt cs s url ^^ k) w1) in
        if \<exists>k. closed (after k)
        then Subscribe rt go_stmt cs s topic closed w = Some (Ret (), after (LEAST k. closed (after k)))
        else Subscribe rt go_stmt cs s topic closed w = None)
   | (_, w1) \<Rightarrow> Subscribe rt go_stmt cs s topic closed w = Some (Panic, w1)"
proof -
  have "Subscribe_loop closed turn w1 =
      (if \<exists>k. closed ((turn ^^ k) w1) then Some ((turn ^^ (LEAST k. closed ((turn ^^ k) w1))) w1) else None)"
    for turn w1
  proof (cases "\<exists>k. closed ((turn ^^ k) w1)")
    case True
    then have "closed ((turn ^^ (LEAST k. closed ((turn ^^ k) w1))) w1)" by (rule LeastI_ex)
    then have "Subscribe_loop closed turn w1 = Some ((turn ^^ (LEAST k. closed ((turn ^^ k) w1))) w1)"
      by (intro Subscribe_loop_Some) (auto dest: not_less_Least)
    then show ?thesis using True by simp
  next
    case False
    then show ?thesis using Subscribe_loop_stops [of closed turn w1] by (cases "Subscribe_loop closed turn w1") auto
  qed
  then show ?thesis
    by (auto simp: Subscribe_def GetQueueUrl_def Let_def split: prod.splits sum.splits option.splits)
qed

end
