(* ===== verification/Pipeline.thy ===== *)
theory Pipeline
  imports Subscriber
begin

text \<open>
  From queue to queue: a message that the subscriber takes from the events queue, the listener that receives the
  request, and the publisher that receives the listener's notifications and sends them to the errors
  queue. The theorems: what is sent there are exactly the failed events, each with the outcome that is stored,
  and what one message leads to on its way through.
\<close>

section \<open>What the listener posts\<close>

definition failed :: "store_state \<Rightarrow> EventRequest \<Rightarrow> bool" where
  "failed s q \<longleftrightarrow> (case s_outcomes s (event_id q, req_Config q) of None \<Rightarrow> False | Some out \<Rightarrow> out_Code out \<noteq> Ok)"

definition notification :: "store_state \<Rightarrow> EventRequest \<Rightarrow> EventResponse" where
  "notification s q = \<lparr>resp_EventId = event_id q, resp_Outcome = s_outcomes s (event_id q, req_Config q)\<rparr>"

definition request_key :: "EventRequest \<Rightarrow> string \<times> string" where
  "request_key q = (event_id q, req_Config q)"

lemma failed_cong: "s_outcomes s (request_key q) = s_outcomes s' (request_key q) \<Longrightarrow>
    failed s q = failed s' q \<and> notification s q = notification s' q"
  by (simp add: failed_def notification_def request_key_def)

context store_manager
begin

lemma listener_posts_the_failures:
  assumes "ListenForMessages_loop l reqs w = (posted, r, w')" and "l_store l = sm" and "l_notifications l" and "sound w"
    and "\<forall>q \<in> set reqs. plain (req_Config q) \<and> harmless q \<and> (\<forall>code details. can_out (any_outcome q code details))"
    and "distinct (map request_key reqs)"
  shows "r = Ret () \<and> sound w' \<and> posted = map (notification (st w')) (filter (failed (st w')) reqs) \<and>
    (\<forall>k. k \<notin> set (map request_key reqs) \<longrightarrow> s_outcomes (st w') k = s_outcomes (st w) k) \<and>
    (\<forall>q \<in> set reqs. s_outcomes (st w') (request_key q) \<noteq> None)"
  using assms(1,4,5,6)
proof (induction reqs arbitrary: w posted)
  case (Cons q reqs)
  obtain p w1 where one: "process_request l q w = (p, w1)" by fastforce
  from request_gets_outcome [OF this assms(2) Cons.prems(2)] Cons.prems(3)
  have "sound w1 \<and> (\<exists>out. s_outcomes (st w1) = (s_outcomes (st w))((event_id q, req_Config q) \<mapsto> out) \<and>
    p = Ret (if out_Code out \<noteq> Ok \<and> l_notifications l then [\<lparr>resp_EventId = event_id q, resp_Outcome = Some out\<rparr>] else []))"
    by simp
  then obtain out where w1: "sound w1" and o: "s_outcomes (st w1) = (s_outcomes (st w))(request_key q \<mapsto> out)"
    and p: "p = Ret (if failed (st w1) q then [notification (st w1) q] else [])"
    using assms(3) by (auto simp: failed_def notification_def request_key_def)
  obtain later r' w2 where rest: "ListenForMessages_loop l reqs w1 = (later, r', w2)" using prod_cases3 by blast
  then have eq: "posted = (if failed (st w1) q then [notification (st w1) q] else []) @ later" "r' = r" "w2 = w'"
    using Cons.prems(1) one p by auto
  have ih: "r = Ret ()" "sound w'" "later = map (notification (st w')) (filter (failed (st w')) reqs)"
    "\<And>k. k \<notin> set (map request_key reqs) \<Longrightarrow> s_outcomes (st w') k = s_outcomes (st w1) k"
    "\<forall>q \<in> set reqs. s_outcomes (st w') (request_key q) \<noteq> None"
    using Cons.IH [OF rest [unfolded eq(2,3)] w1] Cons.prems(3,4) by auto
  have same: "s_outcomes (st w') (request_key q) = s_outcomes (st w1) (request_key q)"
    using ih(4) Cons.prems(4) by simp
  then have "posted = map (notification (st w')) (filter (failed (st w')) (q # reqs))"
    using eq(1) ih(3) failed_cong [OF same] by simp
  moreover have "s_outcomes (st w') (request_key q) \<noteq> None" using same o by simp
  ultimately show ?case using ih o by auto
qed auto

end

section \<open>What is sent to the errors queue\<close>

lemma to_publish_failure:
  assumes "failed s q" and "\<And>x. can_marshal (resp_codec cs) x" and "faithful (resp_codec cs)"
  shows "\<exists>t. to_publish cs (notification s q) = Some t \<and> UnmarshalFromText (resp_codec cs) t = Inr (notification s q)"
proof -
  obtain b where b: "marshal (resp_codec cs) (notification s q) = Inr b"
    using assms(2) [of "notification s q"] by (auto simp: can_marshal_def split: sum.splits)
  have "\<not> (\<exists>out. resp_Outcome (notification s q) = Some out \<and> out_Code out = Ok)"
    using assms(1) by (auto simp: failed_def notification_def)
  then show ?thesis
    using b faithfulD [OF assms(3) b] by (simp add: to_publish_def MarshalToText_def UnmarshalFromText_def)
qed

lemma map_filter_texts:
  assumes "\<forall>x \<in> set xs. \<exists>t. f x = Some t \<and> g t = h x"
  shows "map g (List.map_filter f xs) = map h xs"
  using assms by (induction xs) (auto simp: map_filter_simps)

text \<open>
  C15. The events channel, the listener, the notifications channel and the publisher together, over a store
  that keeps its contract: after any list of requests of which none has an event without a transition
  name, with different event ids, every request has an outcome in the store, and the publisher, given what the
  listener posted, sends to the errors queue exactly one message for each request whose outcome is not \<^verbatim>\<open>Ok\<close>, in
  the order of the requests. Each message, decoded, is the event's id with the outcome that is stored for it.
\<close>

theorem errors_queue_gets_the_failures:
  assumes "store_manager sm rt st sound can_cfg can_fsm can_evt can_out" and "l_store l = sm" and "l_notifications l"
    and "sound w" and "ListenForMessages l w = (posted, r, w')"
    and "\<forall>q \<in> set (l_events l). plain (req_Config q) \<and> harmless q \<and> (\<forall>code details. can_out (any_outcome q code details))"
    and "distinct (map (\<lambda>q. (event_id q, req_Config q)) (l_events l))"
    and "wire cs" and "\<And>x. can_marshal (resp_codec cs) x"
    and "\<And>url body v. fst (sqs_SendMessage client url body v) \<noteq> Inr None"
    and "sqs_GetQueueUrl client topic v = (Inr (Some url), v1)"
  shows "r = Ret () \<and> (\<forall>q \<in> set (l_events l). s_outcomes (st w') (event_id q, req_Config q) \<noteq> None) \<and>
    (\<exists>ts. Publish cs \<lparr>pub_client = client, pub_notifications = posted\<rparr> topic v = (Ret (), send_all client url ts v1) \<and>
       map (UnmarshalFromText (resp_codec cs)) ts =
         [Inr \<lparr>resp_EventId = event_id q, resp_Outcome = s_outcomes (st w') (event_id q, req_Config q)\<rparr>.
            q \<leftarrow> l_events l, \<exists>out. s_outcomes (st w') (event_id q, req_Config q) = Some out \<and> out_Code out \<noteq> Ok])"
proof -
  have key: "(\<lambda>q. (event_id q, req_Config q)) = request_key" by (rule ext) (simp add: request_key_def)
  have fail: "(\<exists>out. s_outcomes s (event_id q, req_Config q) = Some out \<and> out_Code out \<noteq> Ok) \<longleftrightarrow> failed s q" for s q
    by (auto simp: failed_def split: option.split)
  from store_manager.listener_posts_the_failures [OF assms(1) assms(5) [unfolded ListenForMessages_def] assms(2-4,6)
      assms(7) [unfolded key]]
  have l: "r = Ret ()" "posted = map (notification (st w')) (filter (failed (st w')) (l_events l))"
    "\<forall>q \<in> set (l_events l). s_outcomes (st w') (request_key q) \<noteq> None" by auto
  let ?ts = "List.map_filter (to_publish cs) posted"
  have "\<forall>x \<in> set posted. \<exists>t. to_publish cs x = Some t \<and> UnmarshalFromText (resp_codec cs) t = Inr x"
    unfolding l(2) using to_publish_failure [OF _ assms(9) wire.resp_faithful [OF assms(8)]] by auto
  then have "map (UnmarshalFromText (resp_codec cs)) ?ts = map Inr posted" by (rule map_filter_texts)
  moreover have "Publish cs \<lparr>pub_client = client, pub_notifications = posted\<rparr> topic v = (Ret (), send_all client url ?ts v1)"
    using Publish_sends_all_failures [of "\<lparr>pub_client = client, pub_notifications = posted\<rparr>" cs topic v] assms(10,11)
    by simp
  moreover have "map Inr (map (notification (st w')) (filter (failed (st w')) qs)) =
      [Inr \<lparr>resp_EventId = event_id q, resp_Outcome = s_outcomes (st w') (event_id q, req_Config q)\<rparr>. q \<leftarrow> qs, failed (st w') q]"
    for qs by (induction qs) (simp_all add: notification_def)
  ultimately show ?thesis
    using l unfolding fail request_key_def by (intro conjI exI [of _ ?ts]) simp_all
qed

text \<open>The machine can be launched once: the second event is the one that is sent to the errors queue.\<close>

definition launch_twice :: "EventRequest list" where
  "launch_twice = [launch_request, launch_request\<lparr>req_Event := Some ((event_named ''launch'')\<lparr>evt_EventId := ''e2''\<rparr>)\<rparr>]"

lemma launch_twice_codes:
  "(let s = abs_db plain_codecs (v_db (mem_view (snd (snd (ListenForMessages (mem_listener launch_twice) (mem_world rover_db))))))
    in map_option out_Code (s_outcomes s (''e1'', ''rover'')) = Some Ok \<and>
       map_option out_Code (s_outcomes s (''e2'', ''rover'')) = Some InternalError)"
  by code_simp

theorem errors_queue_gets_the_failures_witness:
  "\<exists>t x. Publish plain_codecs
       \<lparr>pub_client = mailbox_client,
        pub_notifications = fst (ListenForMessages (mem_listener launch_twice) (mem_world rover_db))\<rparr> ''dlq'' [] = (Ret (), [t]) \<and>
     UnmarshalFromText (resp_codec plain_codecs) t = Inr x \<and> resp_EventId x = ''e2'' \<and>
     map_option out_Code (resp_Outcome x) = Some InternalError"
proof -
  let ?l = "mem_listener launch_twice" and ?w = "mem_world rover_db"
  obtain posted r w' where run: "ListenForMessages ?l ?w = (posted, r, w')" using prod_cases3 by blast
  let ?s = "abs_db plain_codecs (v_db (mem_view w'))"
  have s: "sound_db plain_codecs (v_db (mem_view ?w))" by (simp add: mem_world_def start_view_def)
  have n: "l_notifications ?l" by (simp add: mem_listener_def NewEventsListener_def)
  have h: "\<forall>q \<in> set (l_events ?l). plain (req_Config q) \<and> harmless q \<and>
      (\<forall>code details. can_marshal (out_codec plain_codecs) (any_outcome q code details))"
    by (simp add: launch_twice_def launch_request_def harmless_def plain_def event_named_def)
  have d: "distinct (map (\<lambda>q. (event_id q, req_Config q)) (l_events ?l))"
    by (simp add: launch_twice_def launch_request_def event_id_def event_named_def)
  have m: "can_marshal (resp_codec plain_codecs) x" for x by (simp add: can_marshal_def)
  have c: "fst (sqs_SendMessage mailbox_client url body v) \<noteq> Inr None"
    "sqs_GetQueueUrl mailbox_client ''dlq'' [] = (Inr (Some ''dlq''), [])" for url body v
    by (simp_all add: mailbox_client_def)
  obtain o1 o2 where o: "s_outcomes ?s (''e1'', ''rover'') = Some o1" "out_Code o1 = Ok"
    "s_outcomes ?s (''e2'', ''rover'') = Some o2" "out_Code o2 = InternalError"
    using launch_twice_codes run by (auto simp: Let_def)
  from errors_queue_gets_the_failures [OF mem_store.refines mem_listener_store(1) n s run h d plain.wire_axioms m c]
  obtain t where "Publish plain_codecs \<lparr>pub_client = mailbox_client, pub_notifications = posted\<rparr> ''dlq'' [] =
      (Ret (), snd (sqs_SendMessage mailbox_client ''dlq'' t []))"
    "UnmarshalFromText (resp_codec plain_codecs) t = Inr \<lparr>resp_EventId = ''e2'', resp_Outcome = Some o2\<rparr>"
    using o by (auto simp: launch_twice_def launch_request_def event_id_def event_named_def)
  then show ?thesis using run o(4) by (auto simp: mailbox_client_def)
qed

section \<open>A message on its way\<close>

text \<open>
  The channels of a server that is idle: a request that is sent on the events channel is received by the
  listener, and what the listener posts is received by the publisher, which sends it to \<open>url\<close>.
\<close>

definition through_listener ::
    "codecs \<Rightarrow> 'w EventsListener \<Rightarrow> 'w sqs_client \<Rightarrow> string \<Rightarrow> EventRequest \<Rightarrow> 'w \<Rightarrow> unit go \<times> 'w" where
  "through_listener cs l client url request w =
     (case process_request l request w of
        (Panic, w1) \<Rightarrow> (Panic, w1)
      | (Ret posted, w1) \<Rightarrow> Publish_loop cs client url posted w1)"

text \<open>The queues are not in the store.\<close>

locale queues = store_manager sm rt st sound can_cfg can_fsm can_evt can_out
  for sm :: "'w StoreManager" and rt st sound can_cfg can_fsm can_evt can_out +
  fixes client :: "'w sqs_client"
  assumes send_same: "sound v \<Longrightarrow> sound (snd (sqs_SendMessage client url body v)) \<and> st (snd (sqs_SendMessage client url body v)) = st v"
    and send_id: "fst (sqs_SendMessage client url body v) \<noteq> Inr None"
    and delete_same: "sound v \<Longrightarrow> sound (snd (sqs_DeleteMessage client url h v)) \<and> st (snd (sqs_DeleteMessage client url h v)) = st v"
begin

lemma deletes_same:
  "sound v \<Longrightarrow> sound (((\<lambda>v. snd (sqs_DeleteMessage client url h v)) ^^ k) v) \<and>
     st (((\<lambda>v. snd (sqs_DeleteMessage client url h v)) ^^ k) v) = st v"
  by (induction k) (auto simp: delete_same)

lemma through_listener_law:
  assumes "complete request" and "req_Event request = Some e" and "l_store l = sm" and "l_notifications l"
    and "sound w" and "plain (req_Config request)" and "can_evt e" and "\<And>r. can_out (outcome_for request r)"
    and "faithful (resp_codec cs)" and "\<And>x. can_marshal (resp_codec cs) x"
  obtains out w1 w' where "through_listener cs l client url request w = (Ret (), w')" "sound w'" "st w' = st w1"
    "s_outcomes (st w1) (evt_EventId e, req_Config request) = Some out"
    "out_Id out = req_Id request" "out_Config out = req_Config request"
    "out_Code out = expected_code can_fsm (st w) (req_Id request) (req_Config request) e"
    "if out_Code out = Ok then w' = w1
     else \<exists>t. w' = snd (sqs_SendMessage client url t w1) \<and>
            UnmarshalFromText (resp_codec cs) t = Inr \<lparr>resp_EventId = evt_EventId e, resp_Outcome = Some out\<rparr>"
proof -
  obtain p w1 where run: "process_request l request w = (p, w1)" by fastforce
  obtain r s2 where r: "process can_fsm (req_Id request) (req_Config request) (Some e)
       ((st w)\<lparr>s_events := (s_events (st w))((evt_EventId e, req_Config request) \<mapsto> e)\<rparr>) (Ret r, s2)"
    and w1: "sound w1" "st w1 = s2\<lparr>s_outcomes := (s_outcomes s2)((evt_EventId e, req_Config request) \<mapsto> outcome_for request r)\<rparr>"
    and p: "p = Ret (if r \<noteq> None \<and> l_notifications l
              then [\<lparr>resp_EventId = evt_EventId e, resp_Outcome = Some (outcome_for request r)\<rparr>] else [])"
    using process_request_law [OF assms(1-3,5-8) run] by metis
  let ?out = "outcome_for request r" and ?w = "snd (through_listener cs l client url request w)"
  have ok: "out_Code ?out = Ok \<longleftrightarrow> r = None" by (cases r) (simp_all add: outcome_for_def outcome_code_def)
  have "evt_Transition e \<noteq> None" using assms(1,2) by (simp add: complete_def)
  then have code: "out_Code ?out = expected_code can_fsm (st w) (req_Id request) (req_Config request) e"
    using process_code [OF r] by (simp add: outcome_for_def)
  obtain b where b: "marshal (resp_codec cs) \<lparr>resp_EventId = evt_EventId e, resp_Outcome = Some ?out\<rparr> = Inr b"
    using assms(10) [of "\<lparr>resp_EventId = evt_EventId e, resp_Outcome = Some ?out\<rparr>"]
    by (auto simp: can_marshal_def split: sum.splits)
  have sent: "publish_one cs client url \<lparr>resp_EventId = evt_EventId e, resp_Outcome = Some ?out\<rparr> w1 =
      (Ret (), snd (sqs_SendMessage client url (EncodeToString b) w1))" if "r \<noteq> None"
    using publish_one_eq [of client url cs, OF send_id] b that ok by (auto simp: to_publish_def MarshalToText_def)
  have run': "through_listener cs l client url request w =
      (Ret (), if r = None then w1 else snd (sqs_SendMessage client url (EncodeToString b) w1))"
    using run p assms(4) sent by (auto simp: through_listener_def)
  have out: "s_outcomes (st w1) (evt_EventId e, req_Config request) = Some ?out"
    "out_Id ?out = req_Id request" "out_Config ?out = req_Config request"
    using w1(2) by (simp_all add: outcome_for_def)
  have dec: "UnmarshalFromText (resp_codec cs) (EncodeToString b) = Inr \<lparr>resp_EventId = evt_EventId e, resp_Outcome = Some ?out\<rparr>"
    using faithfulD [OF assms(9) b] by (simp add: UnmarshalFromText_def)
  show thesis
    by (rule that [OF run' _ _ out code]) (use w1(1) send_same ok dec in auto)
qed

end


text \<open>A world with a database that answers and two queues, of which it keeps what was sent and removed.\<close>

record queue_mem = mem +
  mem_sent :: "string list"
  mem_removed :: "string option list"

definition queue_redis :: "queue_mem redis_client" where
  "queue_redis = server (\<lambda>w. (Answered, w)) mem_view (\<lambda>v w. w\<lparr>mem_view := v\<rparr>)"

definition queue_store :: "queue_mem RedisStore" where
  "queue_store = \<lparr>rs_client = queue_redis, rs_Timeout = 1, rs_MaxRetries = 3\<rparr>"

definition queue_sqs :: "queue_mem sqs_client" where
  "queue_sqs =
     \<lparr>sqs_GetQueueUrl = (\<lambda>topic w. (Inr (Some topic), w)),
      sqs_SendMessage = (\<lambda>url body w. (Inr (Some ''1''), w\<lparr>mem_sent := mem_sent w @ [body]\<rparr>)),
      sqs_DeleteMessage = (\<lambda>url h w. (None, w\<lparr>mem_removed := mem_removed w @ [h]\<rparr>)),
      sqs_ReceiveMessage = (\<lambda>url n t w. (Inr [], w))\<rparr>"

interpretation queue_mem: reliable_world "\<lambda>w. (Answered, w)" mem_view "\<lambda>v w. w\<lparr>mem_view := v\<rparr>"
    "mem_runtime :: queue_mem go_runtime"
  by unfold_locales (simp_all add: mem_runtime_def)

interpretation queue_store: reliable_store queue_redis mem_runtime mem_view plain_codecs queue_store
proof (intro reliable_store.intro redis_store.intro redis_store_axioms.intro)
  show "reliable_redis queue_redis (mem_runtime :: queue_mem go_runtime) mem_view"
    unfolding queue_redis_def by (rule queue_mem.reliable_redis_axioms)
  then show "redis_server queue_redis (mem_runtime :: queue_mem go_runtime) mem_view"
    by (rule reliable_redis.axioms(1))
  show "wire plain_codecs" by (rule plain.wire_axioms)
qed (simp add: queue_store_def)

interpretation queue_sqs: queues "RedisStore_manager mem_runtime plain_codecs queue_store" mem_runtime
    "\<lambda>w. abs_db plain_codecs (v_db (mem_view w))" "\<lambda>w. sound_db plain_codecs (v_db (mem_view w))"
    "can_marshal (cfg_codec plain_codecs)" "can_marshal (fsm_codec plain_codecs)" "can_marshal (evt_codec plain_codecs)"
    "can_marshal (out_codec plain_codecs)" queue_sqs
  by (intro queues.intro queue_store.refines queues_axioms.intro) (simp_all add: queue_sqs_def)

definition lost_request :: EventRequest where
  "lost_request = launch_request\<lparr>req_Id := ''m9''\<rparr>"

definition queue_listener :: "queue_mem EventsListener" where
  "queue_listener = \<lparr>l_events = [], l_notifications = True, l_store = RedisStore_manager mem_runtime plain_codecs queue_store\<rparr>"

definition queue_subscriber :: "queue_mem SqsSubscriber" where
  "queue_subscriber =
     \<lparr>sub_client = queue_sqs, sub_events = through_listener plain_codecs queue_listener queue_sqs ''errors'',
      sub_Timeout = DefaultVisibilityTimeout, sub_PollingInterval = DefaultPollingInterval,
      sub_MessageRemoveRetries = DefaultRetries\<rparr>"

definition queue_world :: queue_mem where
  "queue_world = \<lparr>mem_view = start_view rover_db, mem_tick = 0, mem_sent = [], mem_removed = []\<rparr>"


end
