(* ===== verification/System.thy ===== *)
theory System
  imports Grpc_Server
begin

text \<open>
  The running server: the gRPC handlers and the events listener on one store. \<open>system_run\<close> is any
  interleaving of whole calls. The lemmas carry two invariants through it: a machine is listed
  under its state and nowhere else, and its history is a path of its stored configuration.
\<close>

section \<open>Runs\<close>

text \<open>
  \<open>fresh\<close> restricts the machines that clients store: \<open>fresh m\<close> for the machine of a request, and its
  id is not one of a machine that is stored already.
\<close>

inductive system_run ::
    "(FiniteStateMachine \<Rightarrow> bool) \<Rightarrow> 'w go_runtime \<Rightarrow> 'w Config \<Rightarrow> 'w EventsListener \<Rightarrow> ('w \<Rightarrow> store_state)
       \<Rightarrow> 'w \<Rightarrow> 'w \<Rightarrow> bool"
  for fresh :: "FiniteStateMachine \<Rightarrow> bool" and rt :: "'w go_runtime" and s :: "'w Config"
    and l :: "'w EventsListener" and st :: "'w \<Rightarrow> store_state" and w0 :: 'w where
  start: "system_run fresh rt s l st w0 w0"
| put_configuration: "system_run fresh rt s l st w0 w \<Longrightarrow> plain (cfg_Name c) \<Longrightarrow>
    PutConfiguration rt s ctx c w = (r, w') \<Longrightarrow> system_run fresh rt s l st w0 w'"
| put_machine: "system_run fresh rt s l st w0 w \<Longrightarrow>
    pf_Fsm request = Some m \<Longrightarrow> version_id (fsm_ConfigId m) \<Longrightarrow> fresh m \<Longrightarrow>
    PutFiniteStateMachine rt s ctx request w = (r, w') \<Longrightarrow>
    (\<And>x. r = Ret (Some x, None) \<Longrightarrow>
       s_machines (st w) (pr_Id x, hd (Split (fsm_ConfigId m) CHR '':'')) = None) \<Longrightarrow>
    system_run fresh rt s l st w0 w'"
| event: "system_run fresh rt s l st w0 w \<Longrightarrow> plain (req_Config request) \<Longrightarrow>
    process_request l request w = (p, w') \<Longrightarrow> system_run fresh rt s l st w0 w'"

section \<open>What the steps change\<close>

text \<open>The store without its events and outcomes.\<close>

definition core :: "store_state \<Rightarrow> store_state" where
  "core s = s\<lparr>s_events := \<lambda>_. None, s_outcomes := \<lambda>_. None\<rparr>"

lemma core_simps [simp]:
  "s_machines (core s) = s_machines s" "s_listing (core s) = s_listing s" "s_configs (core s) = s_configs s"
  "s_versions (core s) = s_versions s"
  "core (s\<lparr>s_events := f\<rparr>) = core s" "core (s\<lparr>s_outcomes := g\<rparr>) = core s"
  by (simp_all add: core_def)

lemma core_eqD:
  assumes "core s = core s'"
  shows "s_machines s = s_machines s'" "s_listing s = s_listing s'" "s_configs s = s_configs s'"
    "s_versions s = s_versions s'"
  using arg_cong [OF assms, of s_machines] arg_cong [OF assms, of s_listing]
    arg_cong [OF assms, of s_configs] arg_cong [OF assms, of s_versions] by simp_all

context store_manager
begin

lemma report_core:
  assumes "l_store l = sm" and "sound w" and "plain (req_Config request)"
    and "reportOutcome l (makeResponse request code details) w = w'"
  shows "sound w' \<and> core (st w') = core (st w)"
proof -
  obtain e v where c: "sm_AddEventOutcome sm (event_id request) (req_Config request)
      (Some (any_outcome request code details)) NeverExpire w = (e, v)" by fastforce
  then have "w' = v"
    using assms(1,4) by (simp add: reportOutcome_def makeResponse_def event_id_def any_outcome_def)
  with AddEventOutcome_law [OF c assms(2,3)] show ?thesis by (auto split: if_splits)
qed

lemma post_core:
  assumes "PostNotificationAndReportOutcome l (makeResponse request code details) w = (p, w')"
    and "l_store l = sm" and "sound w" and "plain (req_Config request)"
  shows "sound w' \<and> core (st w') = core (st w)"
  using report_core [OF assms(2-4)] assms(1)
  by (auto simp: PostNotificationAndReportOutcome_def makeResponse_def)

text \<open>A request changes more than events and outcomes only by processing its event.\<close>

lemma request_core:
  assumes "process_request l request w = (p, w')" and "l_store l = sm" and "sound w"
    and "plain (req_Config request)"
  shows "sound w' \<and> (core (st w') = core (st w) \<or>
    (\<exists>s1 r s2. core s1 = core (st w) \<and> core (st w') = core s2 \<and>
       process can_fsm (req_Id request) (req_Config request) (req_Event request) s1 (r, s2)))"
proof -
  have put: "sound w1 \<and> core (st w1) = core (st w)"
    if "sm_PutEvent sm (req_Event request) (req_Config request) NeverExpire w = (e, w1)" for e w1
    using that assms(3)
    by (cases "req_Event request") (auto simp: PutEvent_nil split: if_splits dest!: PutEvent_law [OF _ assms(3,4)])
  from assms(1) show ?thesis
  proof (cases rule: process_request_cases)
    case (missing details)
    from post_core [OF this assms(2-4)] show ?thesis by simp
  next
    case (unstored err w1 details)
    from post_core [OF unstored(2) assms(2) _ assms(4)] put unstored(1) assms(2) show ?thesis by simp
  next
    case no_transition
    then show ?thesis using put assms(2) by simp
  next
    case (processed w1 r w2)
    note w1 = put [OF processed(2) [unfolded assms(2)]]
    note tx = TxProcessEvent_law [OF processed(3) [unfolded assms(2)] conjunct1 [OF w1] assms(4)]
    have "sound w' \<and> core (st w') = core (st w2)"
      using processed(4) tx report_core [OF assms(2) _ assms(4)] post_core [OF _ assms(2) _ assms(4)] by fastforce
    then show ?thesis using w1 tx by blast
  qed
qed
end

section \<open>Machines and their listing\<close>

text \<open>Under every state exactly the machines that are in it are listed.\<close>

definition well_listed :: "store_state \<Rightarrow> bool" where
  "well_listed s \<longleftrightarrow>
     (\<forall>i n x. x \<noteq> '''' \<longrightarrow>
        (i |\<in>| s_listing s (n, x) \<longleftrightarrow> (\<exists>m. s_machines s (i, n) = Some m \<and> fsm_State m = x)))"

lemma well_listedD:
  "well_listed s \<Longrightarrow> x \<noteq> '''' \<Longrightarrow>
     i |\<in>| s_listing s (n, x) \<longleftrightarrow> (\<exists>m. s_machines s (i, n) = Some m \<and> fsm_State m = x)"
  by (simp add: well_listed_def)

lemma well_listed_core: "core s = core s' \<Longrightarrow> well_listed s \<longleftrightarrow> well_listed s'"
  using core_eqD [of s s'] by (simp add: well_listed_def)

lemma well_listed_move:
  assumes "well_listed s" and "s_machines s (i, n) = Some m"
  shows "well_listed (relist n i (fsm_State m) (fsm_State m') (s\<lparr>s_machines := (s_machines s)((i, n) \<mapsto> m')\<rparr>))"
  using assms by (auto simp: well_listed_def s_listing_relist)

lemma well_listed_new:
  assumes "well_listed s" and "s_machines s (i, n) = None" and "hd (Split (fsm_ConfigId m) CHR '':'') = n"
  shows "well_listed (relist n i '''' (fsm_State m) (put_machine i m s))"
  using assms by (auto simp: well_listed_def s_listing_relist)

lemma well_listed_process:
  assumes "process ok i n evt s (r, s')" and "well_listed s"
  shows "well_listed s'"
  using assms
  by (auto simp: process_def well_listed_move split: option.splits go.splits prod.splits if_splits)

section \<open>Machines and their configuration\<close>

text \<open>The history of every machine is a path of its configuration, which is stored.\<close>

definition well_formed_histories :: "store_state \<Rightarrow> bool" where
  "well_formed_histories s \<longleftrightarrow>
     (\<forall>i n m. s_machines s (i, n) = Some m \<longrightarrow>
        (\<exists>c. s_configs s (fsm_ConfigId m) = Some c \<and>
           path (cfg_Transitions c) (cfg_StartingState c) (fsm_History m) (fsm_State m)))"

lemma well_formed_historiesD:
  assumes "well_formed_histories s" and "s_machines s (i, n) = Some m" and "s_configs s (fsm_ConfigId m) = Some c"
  shows "path (cfg_Transitions c) (cfg_StartingState c) (fsm_History m) (fsm_State m)"
  using assms by (fastforce simp: well_formed_histories_def)

lemma histories_core: "core s = core s' \<Longrightarrow> well_formed_histories s \<longleftrightarrow> well_formed_histories s'"
  using core_eqD [of s s'] by (simp add: well_formed_histories_def)

lemma histories_process:
  assumes "process ok i n evt s (r, s')" and "well_formed_histories s"
  shows "well_formed_histories s'"
proof (cases "s' = s")
  case False
  then obtain m c x where m: "s_machines s (i, n) = Some m" "s_configs s (fsm_ConfigId m) = Some c"
    and x: "SendEvent \<lparr>csm_Config = c, csm_FSM = m\<rparr> evt = Ret (None, x)"
    and s': "s' = relist n i (fsm_State m) (fsm_State (csm_FSM x)) (s\<lparr>s_machines := (s_machines s)((i, n) \<mapsto> csm_FSM x)\<rparr>)"
    using assms(1) by (auto simp: process_def split: option.splits go.splits prod.splits if_splits)
  from x obtain e t and tr :: Transition where
    t: "enabled c (fsm_State m) (t_Event tr) = Some t" "csm_FSM x = advance m e t"
    by (cases rule: SendEvent_cases) auto
  have "path (cfg_Transitions c) (cfg_StartingState c) (fsm_History m) (fsm_State m)"
    using well_formed_historiesD [OF assms(2) m] .
  then have "path (cfg_Transitions c) (cfg_StartingState c) (fsm_History (csm_FSM x)) (fsm_State (csm_FSM x))"
    using enabledD [OF t(1)] t(2) by (simp add: path_snoc)
  then show ?thesis
    using assms(2) m s' SendEvent_config_id [OF x] by (auto simp: well_formed_histories_def)
qed (use assms in simp)

lemma histories_add_config:
  "well_formed_histories s \<Longrightarrow> s_configs s (GetVersionId c) = None \<Longrightarrow> well_formed_histories (add_config c s)"
  unfolding well_formed_histories_def by fastforce

lemma histories_new:
  assumes "well_formed_histories s" and "s_configs s (fsm_ConfigId m) = Some c"
    and "fsm_State m = ''''" and "fsm_History m = []"
  shows "well_formed_histories (relist n i '''' st' (put_machine i (defaulted c m) s))"
  using assms by (auto simp: well_formed_histories_def defaulted_def)

section \<open>Invariants of the server\<close>

context store_manager
begin

lemma run_sound:
  assumes "system_run fresh rt s l st w0 w" and "c_Store s = Some sm" and "l_store l = sm" and "sound w0"
  shows "sound w"
  using assms(1)
proof induction
  case (put_machine w request m ctx r w')
  from put_machine.hyps(5) assms(2) put_machine.IH put_machine.hyps(2,3) show ?case
    by (cases rule: PutFiniteStateMachine_cases) auto
qed (use assms PutConfiguration_sound request_core in blast)+

lemma run_well_listed:
  assumes "system_run fresh rt s l st w0 w" and "c_Store s = Some sm" and "l_store l = sm" and "sound w0"
    and "well_listed (st w0)"
  shows "well_listed (st w)"
  using assms(1)
proof induction
  case (put_configuration w c ctx r w')
  have "sound w" using run_sound [OF put_configuration.hyps(1) assms(2-4)] .
  from put_configuration.hyps(3) assms(2) this put_configuration.hyps(2) show ?case
    by (cases rule: PutConfiguration_cases)
       (use put_configuration.IH in \<open>auto simp: well_listed_def\<close>)
next
  case (put_machine w request m ctx r w')
  have "sound w" using run_sound [OF put_machine.hyps(1) assms(2-4)] .
  from put_machine.hyps(5) assms(2) this put_machine.hyps(2,3) show ?case
  proof (cases rule: PutFiniteStateMachine_cases)
    case (stored c i)
    have "hd (Split (fsm_ConfigId m) CHR '':'') = cfg_Name c"
      using config_key [OF \<open>sound w\<close> stored(1)] hd_Split_GetVersionId [of c] by simp
    then show ?thesis
      using stored(6,7) put_machine.hyps(6) put_machine.IH by (auto intro!: well_listed_new)
  qed (use put_machine.IH in auto)
next
  case (event w request p w')
  have "sound w" using run_sound [OF event.hyps(1) assms(2-4)] .
  from request_core [OF event.hyps(3) assms(3) this event.hyps(2)] show ?case
    using event.IH well_listed_core well_listed_process by blast
qed (use assms(5) in simp)

lemma run_histories:
  assumes "system_run fresh rt s l st w0 w" and "c_Store s = Some sm" and "l_store l = sm" and "sound w0"
    and "well_formed_histories (st w0)"
    and "\<And>m. fresh m \<Longrightarrow> fsm_State m = '''' \<and> fsm_History m = []"
  shows "well_formed_histories (st w)"
  using assms(1)
proof induction
  case (put_configuration w c ctx r w')
  have "sound w" using run_sound [OF put_configuration.hyps(1) assms(2-4)] .
  from put_configuration.hyps(3) assms(2) this put_configuration.hyps(2) show ?case
  proof (cases rule: PutConfiguration_cases)
    case (unreadable ns vs)
    then show ?thesis using put_configuration.IH by (simp add: well_formed_histories_def)
  qed (use put_configuration.IH in \<open>simp_all add: histories_add_config\<close>)
next
  case (put_machine w request m ctx r w')
  have "sound w" using run_sound [OF put_machine.hyps(1) assms(2-4)] .
  from put_machine.hyps(5) assms(2) this put_machine.hyps(2,3) show ?case
    by (cases rule: PutFiniteStateMachine_cases)
       (use put_machine.IH assms(6) [OF put_machine.hyps(4)] in \<open>auto intro: histories_new\<close>)
next
  case (event w request p w')
  have "sound w" using run_sound [OF event.hyps(1) assms(2-4)] .
  from request_core [OF event.hyps(3) assms(3) this event.hyps(2)] show ?case
    using event.IH histories_core histories_process by blast
qed (use assms(5) in simp)

end

section \<open>An example\<close>

text \<open>A run: a configuration and a machine are stored, and the machine is launched.\<close>

definition landed :: mem where
  "landed = snd (PutFiniteStateMachine mem_runtime open_server no_deadline new_lander launch_pad)"

definition launched :: mem where
  "launched = snd (process_request (mem_listener []) (launch_request\<lparr>req_Id := ''m7''\<rparr>) landed)"

abbreviation mem_st :: "mem \<Rightarrow> store_state" where
  "mem_st w \<equiv> abs_db plain_codecs (v_db (mem_view w))"

definition untouched :: "FiniteStateMachine \<Rightarrow> bool" where
  "untouched m \<longleftrightarrow> fsm_State m = '''' \<and> fsm_History m = []"

lemma launched_run:
  "system_run untouched mem_runtime open_server (mem_listener []) mem_st (mem_world Map.empty) launched"
proof -
  let ?run = "system_run untouched mem_runtime open_server (mem_listener []) mem_st (mem_world Map.empty)"
  let ?m = "\<lparr>fsm_ConfigId = ''rover:v2'', fsm_State = '''', fsm_History = []\<rparr>"
  have "?run launch_pad"
    unfolding launch_pad_def
    by (rule system_run.put_configuration [OF system_run.start lander_plain(1) prod.collapse [symmetric]])
  moreover have "pf_Fsm new_lander = Some ?m" "version_id (fsm_ConfigId ?m)" "untouched ?m"
    by (simp_all add: new_lander_def version_id_def plain_def untouched_def)
  moreover have "fst (PutFiniteStateMachine mem_runtime open_server no_deadline new_lander launch_pad) =
      Ret (Some \<lparr>pr_Id = ''m7'', pr_Entity = EntityFsm (?m\<lparr>fsm_State := ''earth''\<rparr>)\<rparr>, None)"
    by code_simp
  moreover have "s_machines (mem_st launch_pad) (''m7'', ''rover'') = None" by code_simp
  ultimately have "?run landed"
    unfolding landed_def
    by (intro system_run.put_machine [OF _ _ _ _ prod.collapse [symmetric]]) auto
  moreover have "plain (req_Config (launch_request\<lparr>req_Id := ''m7''\<rparr>))"
    by (simp add: launch_request_def plain_def)
  ultimately show ?thesis
    unfolding launched_def by (rule system_run.event [OF _ _ prod.collapse [symmetric]])
qed

lemma empty_store:
  "well_listed (mem_st (mem_world Map.empty))" "well_formed_histories (mem_st (mem_world Map.empty))"
  by (simp_all add: well_listed_def well_formed_histories_def mem_world_def start_view_def abs_db_def)

end
