(* ===== verification/Streams.thy ===== *)
theory Streams
  imports System
begin

text \<open>
  The streaming calls of the gRPC service (\<^verbatim>\<open>StreamAllInstate\<close> and \<^verbatim>\<open>StreamAllConfigurations\<close> of
  \<^verbatim>\<open>pkg/grpc/grpc_server.go\<close>), on the running server: what they stream is what the store holds.
\<close>

section \<open>The versions of a configuration\<close>

text \<open>Under every name exactly the stored configurations of that name are listed.\<close>

definition versions_listed :: "store_state \<Rightarrow> bool" where
  "versions_listed s \<longleftrightarrow>
     (\<forall>n v. v |\<in>| s_versions s n \<longleftrightarrow> (\<exists>c. s_configs s v = Some c \<and> cfg_Name c = n))"

lemma versions_listedD:
  "versions_listed s \<Longrightarrow> v |\<in>| s_versions s n \<longleftrightarrow> (\<exists>c. s_configs s v = Some c \<and> cfg_Name c = n)"
  by (simp add: versions_listed_def)

lemma versions_listed_same:
  "s_versions s = s_versions s' \<Longrightarrow> s_configs s = s_configs s' \<Longrightarrow> versions_listed s \<longleftrightarrow> versions_listed s'"
  by (simp add: versions_listed_def)

lemma versions_listed_add:
  assumes "versions_listed s" and "s_configs s (GetVersionId c) = None"
  shows "versions_listed (add_config c s)"
proof -
  have "v |\<in>| s_versions (add_config c s) n \<longleftrightarrow> (\<exists>c'. s_configs (add_config c s) v = Some c' \<and> cfg_Name c' = n)" for n v
    using versions_listedD [OF assms(1)] assms(2) by (auto simp: add_config_def)
  then show ?thesis by (simp add: versions_listed_def)
qed

lemma process_versions:
  "process ok i n evt s (r, s') \<Longrightarrow> s_versions s' = s_versions s \<and> s_configs s' = s_configs s"
  by (auto simp: process_def split: option.splits go.splits prod.splits if_splits)

lemma versions_put_machine [simp]: "s_versions (put_machine i m s) = s_versions s"
  by (simp add: put_machine_def)

text \<open>A client that takes every message of the stream; taking it does not change what the store holds.\<close>

definition takes_all :: "('w \<Rightarrow> bool) \<Rightarrow> ('w \<Rightarrow> store_state) \<Rightarrow> ('m, 'w) stream_send \<Rightarrow> bool" where
  "takes_all sound st send \<longleftrightarrow>
     (\<forall>m w. sound w \<longrightarrow> fst (send m w) = None \<and> sound (snd (send m w)) \<and> st (snd (send m w)) = st w)"

lemma takes_allD:
  assumes "takes_all sound st send" and "send m w = (e, w')" and "sound w"
  shows "e = None" "sound w'" "st w' = st w"
  using assms unfolding takes_all_def by (metis fst_conv snd_conv)+

context store_manager
begin

lemma run_versions_listed:
  assumes "system_run fresh rt s l st w0 w" and "c_Store s = Some sm" and "l_store l = sm" and "sound w0"
    and "versions_listed (st w0)" and "\<And>c. can_cfg c"
  shows "versions_listed (st w)"
  using assms(1)
proof induction
  case (put_configuration w c ctx r w')
  have "sound w" using run_sound [OF put_configuration.hyps(1) assms(2-4)] .
  from put_configuration.hyps(3) assms(2) this put_configuration.hyps(2) show ?case
    by (cases rule: PutConfiguration_cases)
       (use put_configuration.IH assms(6) in \<open>simp_all add: versions_listed_add\<close>)
next
  case (put_machine w request m ctx r w')
  have "sound w" using run_sound [OF put_machine.hyps(1) assms(2-4)] .
  from put_machine.hyps(5) assms(2) this put_machine.hyps(2,3) show ?case
    by (cases rule: PutFiniteStateMachine_cases)
       (use put_machine.IH in \<open>auto simp: versions_listed_def\<close>)
next
  case (event w request p w')
  have "sound w" using run_sound [OF event.hyps(1) assms(2-4)] .
  from request_core [OF event.hyps(3) assms(3) this event.hyps(2)]
  have "s_versions (st w') = s_versions (st w) \<and> s_configs (st w') = s_configs (st w)"
    by (metis core_eqD(3,4) process_versions)
  then show ?case using event.IH versions_listed_same by blast
qed (use assms(5) in simp)

section \<open>What a loop streams\<close>

lemma StreamAllInstate_loop_all:
  assumes "takes_all sound st send" and "plain n" and "sound w"
    and "\<And>i. i \<in> set ids \<Longrightarrow> s_machines (st w) (i, n) \<noteq> None"
  shows "\<exists>w'. StreamAllInstate_loop sm n send ids w =
    (map (\<lambda>i. \<lparr>pr_Id = i, pr_Entity = EntityFsm (the (s_machines (st w) (i, n)))\<rparr>) ids, Ret None, w')"
  using assms(3,4)
proof (induction ids arbitrary: w)
  case (Cons i ids)
  obtain g w1 where g: "sm_GetStateMachine sm i n w = (g, w1)" by fastforce
  from Cons.prems(2) [of i] obtain m where m: "s_machines (st w) (i, n) = Some m" by auto
  have w1: "sound w1" "st w1 = st w" "g = Inr m"
    using GetStateMachine_law [OF g Cons.prems(1) assms(2)] m by auto
  obtain e w2 where e: "send \<lparr>pr_Id = i, pr_Entity = EntityFsm m\<rparr> w1 = (e, w2)" by fastforce
  with takes_allD [OF assms(1) e] w1 have w2: "e = None" "sound w2" "st w2 = st w" by simp_all
  from Cons.IH [OF w2(2)] Cons.prems(2) w2(3) obtain w' where
    "StreamAllInstate_loop sm n send ids w2 =
      (map (\<lambda>i. \<lparr>pr_Id = i, pr_Entity = EntityFsm (the (s_machines (st w) (i, n)))\<rparr>) ids, Ret None, w')"
    by auto
  then show ?case using g w1 e w2 m by (simp add: Let_def)
qed simp

lemma StreamAllConfigurations_loop_all:
  assumes "takes_all sound st send" and "sound w"
    and "\<And>v. v \<in> set ids \<Longrightarrow> s_configs (st w) v \<noteq> None"
  shows "\<exists>w'. StreamAllConfigurations_loop sm send ids w = (map (\<lambda>v. the (s_configs (st w) v)) ids, Ret None, w')"
  using assms(2,3)
proof (induction ids arbitrary: w)
  case (Cons v ids)
  obtain g w1 where g: "sm_GetConfig sm v w = (g, w1)" by fastforce
  from Cons.prems(2) [of v] obtain c where c: "s_configs (st w) v = Some c" by auto
  then have "version_id v" using config_key [OF Cons.prems(1) c] version_id_GetVersionId by metis
  then have w1: "sound w1" "st w1 = st w" "g = Inr c"
    using GetConfig_law [OF g Cons.prems(1)] c by auto
  obtain e w2 where e: "send c w1 = (e, w2)" by fastforce
  with takes_allD [OF assms(1) e] w1 have w2: "e = None" "sound w2" "st w2 = st w" by simp_all
  from Cons.IH [OF w2(2)] Cons.prems(2) w2(3) obtain w' where
    "StreamAllConfigurations_loop sm send ids w2 = (map (\<lambda>v. the (s_configs (st w) v)) ids, Ret None, w')"
    by auto
  then show ?case using g w1 e w2 c by simp
qed simp

end

section \<open>What is streamed\<close>

text \<open>
  C23. On the running server (any interleaving of its writing operations, as for \<^verbatim>\<open>GetAllInState\<close>), with
  a client that takes every message: \<^verbatim>\<open>StreamAllInstate\<close> streams, without an error, the machines whose
  ids \<^verbatim>\<open>GetAllInState\<close> returns for the same request, in that order, each with its id: exactly the
  machines of that configuration name that are stored with that state, each once.
\<close>

theorem StreamAllInstate_streams_the_listed_machines:
  assumes "store_manager sm rt st sound can_cfg can_fsm can_evt can_out"
    and "c_Store s = Some sm" and "l_store l = sm"
    and "system_run fresh rt s l st w0 w" and "sound w0" and "well_listed (st w0)"
    and "takes_all sound st send" and "plain n" and "n \<noteq> ''''" and "x \<noteq> ''''"
  shows "\<exists>ids w'. fst (Grpc_GetAllInState s \<lparr>gf_Config = n, gf_Query = QueryState x\<rparr> w) = Ret (Some ids, None) \<and>
    StreamAllInstate s \<lparr>gf_Config = n, gf_Query = QueryState x\<rparr> send w =
      (map (\<lambda>i. \<lparr>pr_Id = i, pr_Entity = EntityFsm (the (s_machines (st w) (i, n)))\<rparr>) ids, Ret None, w') \<and>
    distinct ids \<and> set ids = {i. \<exists>m. s_machines (st w) (i, n) = Some m \<and> fsm_State m = x}"
proof -
  let ?req = "\<lparr>gf_Config = n, gf_Query = QueryState x\<rparr>"
  have sw: "sound w" and wl: "well_listed (st w)"
    using store_manager.run_sound [OF assms(1,4,2,3,5)] store_manager.run_well_listed [OF assms(1,4,2,3,5,6)] .
  obtain ids w1 where g: "sm_GetAllInState sm n x w = (ids, w1)" by fastforce
  have w1: "sound w1" "st w1 = st w" "distinct ids" "fset_of_list ids = s_listing (st w) (n, x)"
    using store_manager.GetAllInState_law [OF assms(1) g sw assms(8)] by auto
  have ids: "i \<in> set ids \<longleftrightarrow> (\<exists>m. s_machines (st w) (i, n) = Some m \<and> fsm_State m = x)" for i
    using w1(4) well_listedD [OF wl assms(10), of i n] fset_of_list_elem [of i ids] by simp
  have r: "Grpc_GetAllInState s ?req w = (Ret (Some ids, None), w1)"
    using g assms(2,9,10) by (simp add: Grpc_GetAllInState_def with_store_def replies_def)
  from store_manager.StreamAllInstate_loop_all [OF assms(1,7,8) w1(1), of ids] w1(2) ids obtain w' where
    "StreamAllInstate_loop sm n send ids w1 =
      (map (\<lambda>i. \<lparr>pr_Id = i, pr_Entity = EntityFsm (the (s_machines (st w) (i, n)))\<rparr>) ids, Ret None, w')"
    by auto
  then have "StreamAllInstate s ?req send w =
      (map (\<lambda>i. \<lparr>pr_Id = i, pr_Entity = EntityFsm (the (s_machines (st w) (i, n)))\<rparr>) ids, Ret None, w')"
    using r assms(2) by (simp add: StreamAllInstate_def)
  then show ?thesis using r w1(3) ids by (intro exI [of _ ids] exI [of _ w']) auto
qed

theorem StreamAllInstate_streams_the_listed_machines_witness:
  "\<exists>msgs w'. StreamAllInstate open_server \<lparr>gf_Config = ''rover'', gf_Query = QueryState ''orbit''\<rparr>
       (\<lambda>m w. (None, w)) launched = (msgs, Ret None, w') \<and> ''m7'' \<in> set (map pr_Id msgs)"
proof -
  have pl: "plain ''rover''" "''rover'' \<noteq> ''''" "''orbit'' \<noteq> ''''" by (simp_all add: plain_def)
  have "map_option fsm_State (s_machines (mem_st launched) (''m7'', ''rover'')) = Some ''orbit''"
    by code_simp
  then have m: "''m7'' \<in> {i. \<exists>m. s_machines (mem_st launched) (i, ''rover'') = Some m \<and> fsm_State m = ''orbit''}"
    by auto
  have t: "takes_all (\<lambda>w. sound_db plain_codecs (v_db (mem_view w))) mem_st (\<lambda>(m :: PutResponse) w. (None, w))"
    by (simp add: takes_all_def)
  obtain ids w' where r: "StreamAllInstate open_server \<lparr>gf_Config = ''rover'', gf_Query = QueryState ''orbit''\<rparr>
      (\<lambda>m w. (None, w)) launched =
      (map (\<lambda>i. \<lparr>pr_Id = i, pr_Entity = EntityFsm (the (s_machines (mem_st launched) (i, ''rover'')))\<rparr>) ids, Ret None, w')"
    and ids: "set ids = {i. \<exists>m. s_machines (mem_st launched) (i, ''rover'') = Some m \<and> fsm_State m = ''orbit''}"
    using StreamAllInstate_streams_the_listed_machines [OF mem_store.refines open_server_simps(1)
        mem_listener_store(1) launched_run sound_mem_world empty_store(1) t pl] that
    by (elim exE conjE)
  have "''m7'' \<in> set ids" using m unfolding ids .
  then show ?thesis unfolding r by (intro exI conjI) (rule refl, simp add: image_iff)
qed

text \<open>
  C24. On the running server, if every configuration can be serialised, and with a client that takes
  every message: \<^verbatim>\<open>StreamAllConfigurations\<close> of a name streams, without an error, exactly the stored
  configurations of that name, each once.
\<close>

theorem StreamAllConfigurations_streams_all_versions:
  assumes "store_manager sm rt st sound can_cfg can_fsm can_evt can_out"
    and "c_Store s = Some sm" and "l_store l = sm"
    and "system_run fresh rt s l st w0 w" and "sound w0" and "versions_listed (st w0)"
    and "\<And>c. can_cfg c" and "takes_all sound st send" and "plain n" and "n \<noteq> ''''"
  shows "\<exists>cfgs w'. StreamAllConfigurations s n send w = (cfgs, Ret None, w') \<and> distinct cfgs \<and>
    set cfgs = {c. s_configs (st w) (GetVersionId c) = Some c \<and> cfg_Name c = n}"
proof -
  have sw: "sound w" and vl: "versions_listed (st w)"
    using store_manager.run_sound [OF assms(1,4,2,3,5)] store_manager.run_versions_listed [OF assms(1,4,2,3,5,6,7)] .
  obtain ids w1 where g: "sm_GetAllVersions sm n w = (ids, w1)" by fastforce
  have w1: "sound w1" "st w1 = st w" "distinct ids" "fset_of_list ids = s_versions (st w) n"
    using store_manager.GetAllVersions_law [OF assms(1) g sw assms(9)] by auto
  have ids: "v \<in> set ids \<longleftrightarrow> (\<exists>c. s_configs (st w) v = Some c \<and> cfg_Name c = n)" for v
    using w1(4) versions_listedD [OF vl, of v n] fset_of_list_elem [of v ids] by simp
  have key: "GetVersionId c = v" if "s_configs (st w) v = Some c" for c v
    using store_manager.config_key [OF assms(1) sw that] by simp
  let ?cfgs = "map (\<lambda>v. the (s_configs (st w) v)) ids"
  from store_manager.StreamAllConfigurations_loop_all [OF assms(1,8) w1(1), of ids] w1(2) ids obtain w' where
    "StreamAllConfigurations_loop sm send ids w1 = (?cfgs, Ret None, w')" by auto
  then have "StreamAllConfigurations s n send w = (?cfgs, Ret None, w')"
    using g assms(2,10) by (simp add: StreamAllConfigurations_def GetAllConfigurations_def with_store_def replies_def)
  moreover have "inj_on (\<lambda>v. the (s_configs (st w) v)) (set ids)"
    by (rule inj_on_inverseI [of _ GetVersionId]) (use ids key in fastforce)
  then have "distinct ?cfgs" using w1(3) by (simp add: distinct_map)
  moreover have "set ?cfgs = {c. s_configs (st w) (GetVersionId c) = Some c \<and> cfg_Name c = n}"
  proof (rule set_eqI)
    fix c
    have "c \<in> set ?cfgs \<longleftrightarrow> (\<exists>v. s_configs (st w) v = Some c \<and> cfg_Name c = n)"
    proof
      assume "c \<in> set ?cfgs"
      then obtain v where "v \<in> set ids" "c = the (s_configs (st w) v)" by auto
      then show "\<exists>v. s_configs (st w) v = Some c \<and> cfg_Name c = n" using ids [of v] by auto
    next
      assume "\<exists>v. s_configs (st w) v = Some c \<and> cfg_Name c = n"
      then obtain v where "v \<in> set ids" "s_configs (st w) v = Some c" using ids by auto
      then show "c \<in> set ?cfgs" by (auto intro!: image_eqI [of _ _ v])
    qed
    then show "c \<in> set ?cfgs \<longleftrightarrow> c \<in> {c. s_configs (st w) (GetVersionId c) = Some c \<and> cfg_Name c = n}"
      using key by (simp only: mem_Collect_eq) metis
  qed
  ultimately show ?thesis by blast
qed

theorem StreamAllConfigurations_streams_all_versions_witness:
  "\<exists>cfgs w'. StreamAllConfigurations open_server ''rover'' (\<lambda>m w. (None, w)) launched = (cfgs, Ret None, w') \<and>
     lander_cfg \<in> set cfgs"
proof -
  have pl: "plain ''rover''" "''rover'' \<noteq> ''''" "''orbit'' \<noteq> ''''" by (simp_all add: plain_def)
  have c: "s_configs (mem_st launched) (GetVersionId lander_cfg) = Some lander_cfg \<and> cfg_Name lander_cfg = ''rover''"
    by code_simp
  have t: "takes_all (\<lambda>w. sound_db plain_codecs (v_db (mem_view w))) mem_st (\<lambda>(m :: Configuration) w. (None, w))"
    by (simp add: takes_all_def)
  have v: "versions_listed (mem_st (mem_world Map.empty))"
    by (simp add: versions_listed_def mem_world_def start_view_def abs_db_def)
  obtain cfgs w' where r: "StreamAllConfigurations open_server ''rover'' (\<lambda>m w. (None, w)) launched = (cfgs, Ret None, w')"
    and s: "set cfgs = {c. s_configs (mem_st launched) (GetVersionId c) = Some c \<and> cfg_Name c = ''rover''}"
    using StreamAllConfigurations_streams_all_versions [OF mem_store.refines open_server_simps(1)
        mem_listener_store(1) launched_run sound_mem_world v plain_can_marshal(1) t pl(1,2)] that
    by (elim exE conjE)
  have "lander_cfg \<in> set cfgs" using c unfolding s by simp
  then show ?thesis unfolding r by blast
qed

end
