(* ===== verification/Tls.thy ===== *)
theory Tls
  imports Grpc_Server
begin

text \<open>
  Creating the gRPC server (\<^verbatim>\<open>NewGrpcServer\<close>, \<^verbatim>\<open>SetupTLSConfig\<close> and \<^verbatim>\<open>ParseCAFile\<close> of
  \<^verbatim>\<open>pkg/grpc/grpc_server.go\<close>, the file names of \<^verbatim>\<open>pkg/internal/config/tls.go\<close>). Environment
  variables and files are operations on the world; reading certificates and keys (\<^verbatim>\<open>crypto/x509\<close>)
  is a parameter. The lemmas say which credentials a server gets and when there is no server.
\<close>

section \<open>Definitions\<close>

definition TlsConfigDirEnv :: string where "TlsConfigDirEnv = ''TLS_CONFIG_DIR''"
definition DefaultConfigDir :: string where "DefaultConfigDir = ''/etc/statemachine/certs''"
definition CAFile :: string where "CAFile = ''ca.pem''"
definition ServerCertFile :: string where "ServerCertFile = ''server.pem''"
definition ServerKeyFile :: string where "ServerKeyFile = ''server-key.pem''"

subsection \<open>Paths\<close>

text \<open>
  \<^verbatim>\<open>filepath.Clean\<close> and \<^verbatim>\<open>filepath.Join\<close> (the same as \<^verbatim>\<open>path.Join\<close> on Unix): the elements that are not
  empty are joined by slashes, and the result is cleaned: empty and dot elements are dropped and
  a dot-dot removes the element before it. The elements kept so far are in reverse.
\<close>

fun clean_parts :: "bool \<Rightarrow> string list \<Rightarrow> string list \<Rightarrow> string list" where
  "clean_parts rooted kept [] = rev kept"
| "clean_parts rooted kept (p # ps) =
     (if p = '''' \<or> p = ''.'' then clean_parts rooted kept ps
      else if p = ''..'' then
        (case kept of
           [] \<Rightarrow> clean_parts rooted (if rooted then [] else [''..'']) ps
         | k # ks \<Rightarrow> if k = ''..'' then clean_parts rooted (''..'' # kept) ps else clean_parts rooted ks ps)
      else clean_parts rooted (p # kept) ps)"

definition Clean :: "string \<Rightarrow> string" where
  "Clean p =
     (let rooted = (p \<noteq> '''' \<and> hd p = CHR ''/'');
          out = Join (clean_parts rooted [] (Split p (CHR ''/''))) ''/''
      in if rooted then CHR ''/'' # out else if out = '''' then ''.'' else out)"

definition path_Join :: "string list \<Rightarrow> string" where
  "path_Join elems =
     (let parts = filter (\<lambda>e. e \<noteq> '''') elems in if parts = [] then '''' else Clean (Join parts ''/''))"

text \<open>\<^verbatim>\<open>%q\<close> of a string. Bytes that are not ASCII are kept, as \<^verbatim>\<open>strconv.Quote\<close> does for printable text.\<close>

definition hex_digit :: "nat \<Rightarrow> char" where
  "hex_digit n = (''0123456789abcdef'' ! n)"

definition quote_char :: "char \<Rightarrow> string" where
  "quote_char c =
     (let n = of_char c :: nat in
      if c = CHR 0x22 \<or> c = CHR 0x5C then [CHR 0x5C, c]
      else if 7 \<le> n \<and> n \<le> 13 then [CHR 0x5C, ''abtnvfr'' ! (n - 7)]
      else if n < 32 \<or> n = 127 then [CHR 0x5C, CHR ''x'', hex_digit (n div 16), hex_digit (n mod 16)]
      else [c])"

definition Quote :: "string \<Rightarrow> string" where
  "Quote s = CHR 0x22 # concat (map quote_char s) @ [CHR 0x22]"

subsection \<open>Certificates\<close>

text \<open>
  The operating system, and what the program uses of \<^verbatim>\<open>crypto/x509\<close> and \<^verbatim>\<open>crypto/tls\<close>: a certificate with
  its private key read from their PEM forms, and the certificates found in a PEM file.
\<close>

record 'w os =
  os_Getenv :: "string \<Rightarrow> 'w \<Rightarrow> string"
  os_Stat :: "string \<Rightarrow> 'w \<Rightarrow> go_error option \<times> 'w"
  os_ReadFile :: "string \<Rightarrow> 'w \<Rightarrow> (go_error + bytes) \<times> 'w"

record ('cert, 'ca) x509 =
  X509KeyPair :: "bytes \<Rightarrow> bytes \<Rightarrow> go_error + 'cert"
  pem_certificates :: "bytes \<Rightarrow> 'ca list"

definition LoadX509KeyPair ::
    "'w os \<Rightarrow> ('cert, 'ca) x509 \<Rightarrow> string \<Rightarrow> string \<Rightarrow> 'w \<Rightarrow> (go_error + 'cert) \<times> 'w" where
  "LoadX509KeyPair os x certFile keyFile w =
     (case os_ReadFile os certFile w of
        (Inl err, w1) \<Rightarrow> (Inl err, w1)
      | (Inr certPEM, w1) \<Rightarrow>
          (case os_ReadFile os keyFile w1 of
             (Inl err, w2) \<Rightarrow> (Inl err, w2)
           | (Inr keyPEM, w2) \<Rightarrow> (X509KeyPair x certPEM keyPEM, w2)))"

text \<open>\<^verbatim>\<open>AppendCertsFromPEM\<close> reports whether it found a certificate.\<close>

definition ParseCAFile ::
    "'w os \<Rightarrow> ('cert, 'ca) x509 \<Rightarrow> string \<Rightarrow> 'w \<Rightarrow> (go_error + 'ca list) \<times> 'w" where
  "ParseCAFile os x caFile w =
     (case os_Stat os caFile w of
        (Some err, w1) \<Rightarrow> (Inl err, w1)
      | (None, w1) \<Rightarrow>
          (case os_ReadFile os caFile w1 of
             (Inl err, w2) \<Rightarrow> (Inl err, w2)
           | (Inr b, w2) \<Rightarrow>
               (let ca = pem_certificates x b in
                if ca = [] then (Inl (Errorf (''failed to parse root certificate: '' @ Quote caFile)), w2)
                else (Inr ca, w2))))"

datatype ClientAuthType = NoClientCert | RequireAndVerifyClientCert

record ('cert, 'ca) tls_Config =
  tc_Certificates :: "'cert list"
  tc_ClientCAs :: "'ca list"
  tc_ClientAuth :: ClientAuthType
  tc_ServerName :: string

text \<open>The configuration is changed in place: the directory of the certificates is filled in.\<close>

definition certs_dir :: "'w os \<Rightarrow> 'w Config \<Rightarrow> 'w \<Rightarrow> string" where
  "certs_dir os cfg w =
     (if c_TlsCerts cfg = '''' then
        (let certsDir = os_Getenv os TlsConfigDirEnv w in
         if certsDir \<noteq> '''' then certsDir else DefaultConfigDir)
      else c_TlsCerts cfg)"

definition SetupTLSConfig ::
    "'w os \<Rightarrow> ('cert, 'ca) x509 \<Rightarrow> 'w Config \<Rightarrow> 'w \<Rightarrow> (go_error + ('cert, 'ca) tls_Config) \<times> 'w Config \<times> 'w" where
  "SetupTLSConfig os x cfg0 w =
     (let cfg = cfg0\<lparr>c_TlsCerts := certs_dir os cfg0 w\<rparr>;
          certFile = path_Join [c_TlsCerts cfg, ServerCertFile];
          keyFile = path_Join [c_TlsCerts cfg, ServerKeyFile]
      in case LoadX509KeyPair os x certFile keyFile w of
           (Inl err, w1) \<Rightarrow> (Inl err, cfg, w1)
         | (Inr cert, w1) \<Rightarrow>
             (case ParseCAFile os x (path_Join [c_TlsCerts cfg, CAFile]) w1 of
                (Inl err, w2) \<Rightarrow> (Inl err, cfg, w2)
              | (Inr ca, w2) \<Rightarrow>
                  (Inr \<lparr>tc_Certificates = [cert],
                        tc_ClientCAs = (if c_TlsMutual cfg then ca else []),
                        tc_ClientAuth =
                          (if c_TlsMutual cfg then RequireAndVerifyClientCert else NoClientCert),
                        tc_ServerName = c_ServerAddress cfg\<rparr>, cfg, w2)))"

datatype ('cert, 'ca) credentials = Insecure | NewTLS "('cert, 'ca) tls_Config"

text \<open>A server: its credentials and the configuration its service runs with.\<close>

record ('w, 'cert, 'ca) grpc_server =
  gs_Creds :: "('cert, 'ca) credentials"
  gs_Config :: "'w Config"

definition NewGrpcServer ::
    "'w os \<Rightarrow> ('cert, 'ca) x509 \<Rightarrow> 'w Config \<Rightarrow> 'w \<Rightarrow> (go_error + ('w, 'cert, 'ca) grpc_server) \<times> 'w" where
  "NewGrpcServer os x cfg w =
     (case (if \<not> c_TlsEnabled cfg then (Inr Insecure, cfg, w)
            else (case SetupTLSConfig os x cfg w of
                    (Inl err, cfg1, w1) \<Rightarrow> (Inl err, cfg1, w1)
                  | (Inr serverTLSConfig, cfg1, w1) \<Rightarrow> (Inr (NewTLS serverTLSConfig), cfg1, w1))) of
        (Inl err, cfg1, w1) \<Rightarrow> (Inl err, w1)
      | (Inr creds, cfg1, w1) \<Rightarrow>
          (Inr \<lparr>gs_Creds = creds,
                gs_Config = (if c_Timeout cfg1 = 0 then cfg1\<lparr>c_Timeout := Grpc_DefaultTimeout\<rparr> else cfg1)\<rparr>,
           w1))"

section \<open>The credentials of a server\<close>

text \<open>
  What is relied on of the operating system: reading a file returns its contents, fails when
  there is no such file, and changes no file; \<^verbatim>\<open>Stat\<close> succeeds on a file that can be read.
\<close>

locale filesystem =
  fixes os :: "'w os" and files :: "'w \<Rightarrow> string \<rightharpoonup> bytes"
  assumes ReadFile_law: "os_ReadFile os p w = (r, w') \<Longrightarrow>
      files w' = files w \<and> (case files w p of None \<Rightarrow> \<exists>err. r = Inl err | Some b \<Rightarrow> r = Inr b)"
    and Stat_law: "os_Stat os p w = (e, w') \<Longrightarrow> files w' = files w \<and> (files w p \<noteq> None \<longrightarrow> e = None)"
begin

lemma LoadX509KeyPair_spec:
  assumes "LoadX509KeyPair os x certFile keyFile w = (r, w')"
  shows "files w' = files w \<and>
    (case (files w certFile, files w keyFile) of
       (Some c, Some k) \<Rightarrow> r = X509KeyPair x c k
     | _ \<Rightarrow> \<exists>err. r = Inl err)"
proof -
  obtain r1 w1 where r1: "os_ReadFile os certFile w = (r1, w1)" by fastforce
  obtain r2 w2 where r2: "os_ReadFile os keyFile w1 = (r2, w2)" by fastforce
  show ?thesis
    using assms r1 r2 ReadFile_law [OF r1] ReadFile_law [OF r2]
    by (cases "files w certFile"; cases "files w keyFile") (auto simp: LoadX509KeyPair_def split: sum.splits)
qed

lemma ParseCAFile_spec:
  assumes "ParseCAFile os x caFile w = (r, w')"
  shows "files w' = files w \<and>
    (case files w caFile of
       None \<Rightarrow> \<exists>err. r = Inl err
     | Some b \<Rightarrow> if pem_certificates x b = [] then \<exists>err. r = Inl err else r = Inr (pem_certificates x b))"
proof -
  obtain e w1 where e: "os_Stat os caFile w = (e, w1)" by fastforce
  obtain r2 w2 where r2: "os_ReadFile os caFile w1 = (r2, w2)" by fastforce
  show ?thesis
    using assms e r2 Stat_law [OF e] ReadFile_law [OF r2]
    by (cases "files w caFile"; cases e) (auto simp: ParseCAFile_def Let_def split: if_splits sum.splits)
qed

end

text \<open>The certificate and the authorities that the files under a directory hold, if they are all readable.\<close>

definition key_material :: "('cert, 'ca) x509 \<Rightarrow> (string \<rightharpoonup> bytes) \<Rightarrow> string \<Rightarrow> ('cert \<times> 'ca list) option" where
  "key_material x fs dir =
     (case (fs (path_Join [dir, ServerCertFile]), fs (path_Join [dir, ServerKeyFile]), fs (path_Join [dir, CAFile])) of
        (Some c, Some k, Some b) \<Rightarrow>
          (case X509KeyPair x c k of
             Inl err \<Rightarrow> None
           | Inr cert \<Rightarrow> if pem_certificates x b = [] then None else Some (cert, pem_certificates x b))
      | _ \<Rightarrow> None)"

text \<open>
  C25. \<^verbatim>\<open>NewGrpcServer\<close>: with TLS disabled, the server has no TLS credentials. With TLS enabled it
  always has: there is a server exactly when the certificate, its key and at least one authority can be
  read from the directory of the configuration, that of the environment, or the default one, in
  this order of preference; its certificate is that one, and it asks for client certificates exactly
  when mutual TLS is set, and then accepts only those of the authorities of that file. The service
  always has a time-out that is not zero, and otherwise runs with the configuration given.
\<close>

theorem NewGrpcServer_credentials:
  assumes "filesystem os files" and "NewGrpcServer os x cfg w = (r, w')"
  shows "if \<not> c_TlsEnabled cfg
         then \<exists>srv. r = Inr srv \<and> gs_Creds srv = Insecure \<and> c_Timeout (gs_Config srv) \<noteq> 0 \<and>
                (gs_Config srv)\<lparr>c_Timeout := c_Timeout cfg\<rparr> = cfg
         else (let dir = (if c_TlsCerts cfg \<noteq> '''' then c_TlsCerts cfg
                          else if os_Getenv os TlsConfigDirEnv w \<noteq> '''' then os_Getenv os TlsConfigDirEnv w
                          else DefaultConfigDir)
               in case key_material x (files w) dir of
                    None \<Rightarrow> \<exists>err. r = Inl err
                  | Some (cert, ca) \<Rightarrow>
                      \<exists>srv tc. r = Inr srv \<and> gs_Creds srv = NewTLS tc \<and> tc_Certificates tc = [cert] \<and>
                        (tc_ClientAuth tc = RequireAndVerifyClientCert \<longleftrightarrow> c_TlsMutual cfg) \<and>
                        (c_TlsMutual cfg \<longrightarrow> tc_ClientCAs tc = ca) \<and> c_Timeout (gs_Config srv) \<noteq> 0 \<and>
                        (gs_Config srv)\<lparr>c_Timeout := c_Timeout cfg\<rparr> = cfg\<lparr>c_TlsCerts := dir\<rparr>)"
proof (cases "c_TlsEnabled cfg")
  case False
  then show ?thesis using assms(2) by (auto simp: NewGrpcServer_def Grpc_DefaultTimeout_def)
next
  case True
  let ?dir = "certs_dir os cfg w"
  have dir: "?dir = (if c_TlsCerts cfg \<noteq> '''' then c_TlsCerts cfg
      else if os_Getenv os TlsConfigDirEnv w \<noteq> '''' then os_Getenv os TlsConfigDirEnv w else DefaultConfigDir)"
    by (simp add: certs_dir_def Let_def)
  obtain r1 w1 where r1: "LoadX509KeyPair os x (path_Join [?dir, ServerCertFile]) (path_Join [?dir, ServerKeyFile]) w = (r1, w1)"
    by fastforce
  obtain r2 w2 where r2: "ParseCAFile os x (path_Join [?dir, CAFile]) w1 = (r2, w2)" by fastforce
  note l1 = filesystem.LoadX509KeyPair_spec [OF assms(1) r1]
    and l2 = filesystem.ParseCAFile_spec [OF assms(1) r2]
  have run: "r = (case (r1, r2) of
      (Inr cert, Inr ca) \<Rightarrow>
        Inr \<lparr>gs_Creds = NewTLS \<lparr>tc_Certificates = [cert], tc_ClientCAs = (if c_TlsMutual cfg then ca else []),
               tc_ClientAuth = (if c_TlsMutual cfg then RequireAndVerifyClientCert else NoClientCert),
               tc_ServerName = c_ServerAddress cfg\<rparr>,
             gs_Config = cfg\<lparr>c_TlsCerts := ?dir,
               c_Timeout := if c_Timeout cfg = 0 then Grpc_DefaultTimeout else c_Timeout cfg\<rparr>\<rparr>
    | (Inl err, _) \<Rightarrow> Inl err | (_, Inl err) \<Rightarrow> Inl err)"
    using assms(2) True r1 r2 by (auto simp: NewGrpcServer_def SetupTLSConfig_def Let_def split: sum.splits)
  show ?thesis
  proof (cases "key_material x (files w) ?dir")
    case None
    then have "\<exists>err. r1 = Inl err \<or> r2 = Inl err"
      using l1 l2 by (fastforce simp: key_material_def split: option.splits sum.splits if_splits)
    then have "\<exists>err. r = Inl err" using run by (auto split: sum.splits)
    then show ?thesis using True None by (simp add: dir [symmetric] Let_def)
  next
    case (Some m)
    obtain cert ca where m: "m = (cert, ca)" by fastforce
    with Some have "r1 = Inr cert" "r2 = Inr ca"
      using l1 l2 by (auto simp: key_material_def split: option.splits sum.splits if_splits)
    then show ?thesis
      using run True Some m by (auto simp: dir [symmetric] Let_def Grpc_DefaultTimeout_def)
  qed
qed

text \<open>A host with the files of the default directory; a certificate is its text here.\<close>

definition key_files :: "string \<rightharpoonup> bytes" where
  "key_files = [''/etc/statemachine/certs/server.pem'' \<mapsto> ''cert'',
                ''/etc/statemachine/certs/server-key.pem'' \<mapsto> ''key'', ''/etc/statemachine/certs/ca.pem'' \<mapsto> ''root'']"

definition plain_host :: "mem os" where
  "plain_host =
     \<lparr>os_Getenv = (\<lambda>v w. ''''),
      os_Stat = (\<lambda>p w. (case key_files p of None \<Rightarrow> Some (Errorf ''no such file'') | Some b \<Rightarrow> None, w)),
      os_ReadFile = (\<lambda>p w. (case key_files p of None \<Rightarrow> Inl (Errorf ''no such file'') | Some b \<Rightarrow> Inr b, w))\<rparr>"

definition plain_x509 :: "(bytes, bytes) x509" where
  "plain_x509 = \<lparr>X509KeyPair = (\<lambda>c k. Inr c), pem_certificates = (\<lambda>b. [b])\<rparr>"

interpretation plain_host: filesystem plain_host "\<lambda>w. key_files"
  by unfold_locales (auto simp: plain_host_def split: option.splits)

theorem NewGrpcServer_credentials_witness:
  "\<exists>srv tc. fst (NewGrpcServer plain_host plain_x509 (open_server\<lparr>c_TlsEnabled := True, c_TlsMutual := True\<rparr>)
       (mem_world Map.empty)) = Inr srv \<and>
     gs_Creds srv = NewTLS tc \<and> tc_Certificates tc = [''cert''] \<and>
     tc_ClientAuth tc = RequireAndVerifyClientCert \<and> tc_ClientCAs tc = [''root'']"
proof -
  let ?cfg = "open_server\<lparr>c_TlsEnabled := True, c_TlsMutual := True\<rparr>"
  have "path_Join [DefaultConfigDir, ServerCertFile] = ''/etc/statemachine/certs/server.pem''"
    "path_Join [DefaultConfigDir, ServerKeyFile] = ''/etc/statemachine/certs/server-key.pem''"
    "path_Join [DefaultConfigDir, CAFile] = ''/etc/statemachine/certs/ca.pem''"
    by code_simp+
  then have "key_material plain_x509 key_files DefaultConfigDir = Some (''cert'', [''root''])"
    by (simp add: key_material_def plain_x509_def key_files_def)
  with NewGrpcServer_credentials [OF plain_host.filesystem_axioms prod.collapse [symmetric],
      of ?cfg plain_x509 "mem_world Map.empty"]
  show ?thesis by (auto simp: open_server_def plain_host_def Let_def)
qed

end
