(* ===== verification/Cli.thy ===== *)
theory Cli
  imports Tls
begin

text \<open>
  The command-line client (\<^verbatim>\<open>fsm-cli/client\<close>: \<^verbatim>\<open>types.go\<close>, \<^verbatim>\<open>handlers.go\<close>, \<^verbatim>\<open>client.go\<close>; \<^verbatim>\<open>fsm-cli/cmd/main.go\<close>).
  The generated gRPC client, YAML and the terminal are parameters. The lemmas say how long the
  client waits for the outcome of an event and what it makes of it, and, with the gRPC service at
  the other end, that it gets the outcome the listener recorded.
\<close>

section \<open>Definitions\<close>

subsection \<open>Types and constants\<close>

definition Version :: string where "Version = ''v1alpha''"
definition KindConfiguration :: string where "KindConfiguration = ''Configuration''"
definition KindFiniteStateMachine :: string where "KindFiniteStateMachine = ''FiniteStateMachine''"
definition KindEvent :: string where "KindEvent = ''EventRequest''"
definition CmdGet :: string where "CmdGet = ''get''"
definition CmdSend :: string where "CmdSend = ''send''"
definition CmdVersion :: string where "CmdVersion = ''version''"
definition StdinFlag :: string where "StdinFlag = ''--''"

definition ConfigDefaultDir :: "'w os \<Rightarrow> 'w \<Rightarrow> string" where
  "ConfigDefaultDir os w = path_Join [os_Getenv os ''HOME'' w, ''.fsm'']"

definition CertsDir :: "'w os \<Rightarrow> 'w \<Rightarrow> string" where
  "CertsDir os w = path_Join [ConfigDefaultDir os w, ''certs'']"

definition CaCert :: string where "CaCert = ''ca.pem''"

record GenericEntity =
  ge_Version :: string
  ge_Kind :: string
  ge_Id :: string

record ConfigEntity = GenericEntity +
  ce_Spec :: "Configuration option"

record FsmEntity = GenericEntity +
  fe_Spec :: "FiniteStateMachine option"

record EventRequestEntity = GenericEntity +
  ee_Spec :: "EventRequest option"

text \<open>\<^verbatim>\<open>status.FromError\<close> finds the status of the errors that have one.\<close>

definition getStatusCode :: "go_error \<Rightarrow> code" where
  "getStatusCode response = (case response of StatusError c text \<Rightarrow> c | _ \<Rightarrow> Unknown)"

text \<open>
  The generated client of the service: a call takes the deadline of its context, if it has one. A call
  that fails returns no response.
\<close>

record 'w CliClient =
  svc_SendEvent :: "int option \<Rightarrow> EventRequest \<Rightarrow> 'w \<Rightarrow> (go_error + EventResponse) \<times> 'w"
  svc_GetEventOutcome :: "int option \<Rightarrow> EventRequest \<Rightarrow> 'w \<Rightarrow> (go_error + EventResponse) \<times> 'w"
  svc_PutConfiguration :: "int option \<Rightarrow> Configuration option \<Rightarrow> 'w \<Rightarrow> (go_error + PutResponse) \<times> 'w"
  svc_PutFiniteStateMachine :: "int option \<Rightarrow> PutFsmRequest \<Rightarrow> 'w \<Rightarrow> (go_error + PutResponse) \<times> 'w"
  svc_GetConfiguration :: "int option \<Rightarrow> string \<Rightarrow> 'w \<Rightarrow> (go_error + Configuration) \<times> 'w"
  svc_GetFiniteStateMachine :: "int option \<Rightarrow> GetFsmRequest \<Rightarrow> 'w \<Rightarrow> (go_error + FiniteStateMachine) \<times> 'w"
  svc_Health :: "int option \<Rightarrow> 'w \<Rightarrow> (go_error + HealthResponse) \<times> 'w"

text \<open>What a handler answers, and YAML. An event's response may be nil.\<close>

datatype response = RespPut PutResponse | RespEvent "EventResponse option"

record yaml =
  Unmarshal_Generic :: "bytes \<Rightarrow> go_error + GenericEntity"
  Unmarshal_Config :: "bytes \<Rightarrow> go_error + ConfigEntity"
  Unmarshal_Fsm :: "bytes \<Rightarrow> go_error + FsmEntity"
  Unmarshal_Event :: "bytes \<Rightarrow> go_error + EventRequestEntity"
  Marshal_response :: "response \<Rightarrow> go_error + bytes"
  Marshal_Config :: "Configuration \<Rightarrow> go_error + bytes"
  Marshal_Fsm :: "FiniteStateMachine \<Rightarrow> go_error + bytes"

text \<open>Files, standard input (\<open>None\<close>) and standard output.\<close>

record 'w terminal =
  os_Open :: "string \<Rightarrow> 'w \<Rightarrow> go_error option \<times> 'w"
  io_ReadAll :: "string option \<Rightarrow> 'w \<Rightarrow> (go_error + bytes) \<times> 'w"
  fmt_Print :: "string \<Rightarrow> 'w \<Rightarrow> 'w"

fun StatusCode_String :: "StatusCode \<Rightarrow> string" where
  "StatusCode_String Ok = ''Ok''"
| "StatusCode_String GenericError = ''GenericError''"
| "StatusCode_String EventNotAllowed = ''EventNotAllowed''"
| "StatusCode_String FsmNotFound = ''FsmNotFound''"
| "StatusCode_String TransitionNotAllowed = ''TransitionNotAllowed''"
| "StatusCode_String InternalError = ''InternalError''"
| "StatusCode_String MissingDestination = ''MissingDestination''"
| "StatusCode_String ConfigurationNotFound = ''ConfigurationNotFound''"

abbreviation newline :: string where "newline \<equiv> [CHR 0x0A]"

subsection \<open>Sending\<close>

definition MaxRetries :: nat where "MaxRetries = 5"
definition IntervalBetweenRetries :: duration where "IntervalBetweenRetries = 200 * 1000000"

text \<open>
  \<^verbatim>\<open>sendEvent\<close>: the same context, with five seconds, is used for the event and for all the polls of its outcome.
\<close>

fun poll_outcome ::
    "'w go_runtime \<Rightarrow> 'w CliClient \<Rightarrow> int option \<Rightarrow> EventRequest \<Rightarrow> nat \<Rightarrow> 'w \<Rightarrow> EventResponse option \<times> 'w" where
  "poll_outcome rt c ctx query 0 w = (None, w)"
| "poll_outcome rt c ctx query (Suc remain) w =
     (case svc_GetEventOutcome c ctx query w of
        (Inr outcome, w1) \<Rightarrow> (Some outcome, w1)
      | (Inl err, w1) \<Rightarrow>
          if getStatusCode err = NotFound
          then poll_outcome rt c ctx query remain (time_Sleep rt IntervalBetweenRetries w1)
          else (None, w1))"

definition sendEvent ::
    "'w go_runtime \<Rightarrow> 'w terminal \<Rightarrow> 'w CliClient \<Rightarrow> EventRequest option \<Rightarrow> 'w
       \<Rightarrow> (go_error + EventResponse option) go \<times> 'w" where
  "sendEvent rt io c req w =
     (case req of
        None \<Rightarrow> (Panic, w)
      | Some request \<Rightarrow>
          (case UpdateEvent rt (req_Event request) w of
             (Panic, w1) \<Rightarrow> (Panic, w1)
           | (Ret event, w1) \<Rightarrow>
               (let (now, w2) = time_Now rt w1;
                    ctx = Some (now + 5 * 1000000000)
                in case svc_SendEvent c ctx (request\<lparr>req_Event := Some event\<rparr>) w2 of
                     (Inl err, w3) \<Rightarrow> (Ret (Inl err), w3)
                   | (Inr response, w3) \<Rightarrow>
                       (let evtId = resp_EventId response;
                            w4 = fmt_Print io (''Event ID: '' @ evtId @ newline) w3;
                            (outcome, w5) =
                              poll_outcome rt c ctx
                                \<lparr>req_Event = None, req_Config = req_Config request, req_Id = evtId\<rparr> MaxRetries w4
                        in (Ret (Inr outcome), w5)))))"

text \<open>The handlers, by the kind of the entity.\<close>

definition send_Configuration ::
    "yaml \<Rightarrow> 'w CliClient \<Rightarrow> bytes \<Rightarrow> 'w \<Rightarrow> (go_error + response) go \<times> 'w" where
  "send_Configuration y clt data w =
     (case Unmarshal_Config y data of
        Inl err \<Rightarrow> (Ret (Inl err), w)
      | Inr c \<Rightarrow>
          (case svc_PutConfiguration clt None (ce_Spec c) w of
             (Inl err, w1) \<Rightarrow> (Ret (Inl err), w1)
           | (Inr resp, w1) \<Rightarrow> (Ret (Inr (RespPut resp)), w1)))"

definition send_FiniteStateMachine ::
    "yaml \<Rightarrow> 'w CliClient \<Rightarrow> bytes \<Rightarrow> 'w \<Rightarrow> (go_error + response) go \<times> 'w" where
  "send_FiniteStateMachine y clt data w =
     (case Unmarshal_Fsm y data of
        Inl err \<Rightarrow> (Ret (Inl err), w)
      | Inr fsm \<Rightarrow>
          (case svc_PutFiniteStateMachine clt None \<lparr>pf_Id = ge_Id fsm, pf_Fsm = fe_Spec fsm\<rparr> w of
             (Inl err, w1) \<Rightarrow> (Ret (Inl err), w1)
           | (Inr resp, w1) \<Rightarrow> (Ret (Inr (RespPut resp)), w1)))"

definition send_EventRequest ::
    "'w go_runtime \<Rightarrow> 'w terminal \<Rightarrow> yaml \<Rightarrow> 'w CliClient \<Rightarrow> bytes \<Rightarrow> 'w \<Rightarrow> (go_error + response) go \<times> 'w" where
  "send_EventRequest rt io y clt data w =
     (case Unmarshal_Event y data of
        Inl err \<Rightarrow> (Ret (Inl err), w)
      | Inr evt \<Rightarrow>
          (case sendEvent rt io clt (ee_Spec evt) w of
             (Panic, w1) \<Rightarrow> (Panic, w1)
           | (Ret (Inl err), w1) \<Rightarrow> (Ret (Inl err), w1)
           | (Ret (Inr resp), w1) \<Rightarrow> (Ret (Inr (RespEvent resp)), w1)))"

definition SendHandlers ::
    "'w go_runtime \<Rightarrow> 'w terminal \<Rightarrow> yaml \<Rightarrow> 'w CliClient
       \<Rightarrow> string \<rightharpoonup> (bytes \<Rightarrow> 'w \<Rightarrow> (go_error + response) go \<times> 'w)" where
  "SendHandlers rt io y clt =
     [KindConfiguration \<mapsto> send_Configuration y clt,
      KindFiniteStateMachine \<mapsto> send_FiniteStateMachine y clt,
      KindEvent \<mapsto> send_EventRequest rt io y clt]"

text \<open>What \<^verbatim>\<open>Send\<close> does with the answer of a handler; the response of an event is read, and it may be nil.\<close>

definition print_response :: "'w terminal \<Rightarrow> yaml \<Rightarrow> response \<Rightarrow> 'w \<Rightarrow> go_error option go \<times> 'w" where
  "print_response io y resp w =
     (case Marshal_response y resp of
        Inl err \<Rightarrow> (Ret (Some err), w)
      | Inr out \<Rightarrow>
          (let w1 = fmt_Print io (''Result:'' @ newline @ out) w in
           case resp of
             RespPut x \<Rightarrow> (Ret None, w1)
           | RespEvent None \<Rightarrow> (Panic, w1)
           | RespEvent (Some r) \<Rightarrow>
               (case resp_Outcome r of
                  None \<Rightarrow> (Panic, w1)
                | Some outcome \<Rightarrow>
                    (Ret None,
                     fmt_Print io (''Outcome.Code: '' @ StatusCode_String (out_Code outcome) @ newline) w1))))"

text \<open>The contents of the file, or of standard input.\<close>

definition read_input :: "'w terminal \<Rightarrow> string \<Rightarrow> 'w \<Rightarrow> (go_error + bytes) \<times> 'w" where
  "read_input io file w =
     (if file = StdinFlag then io_ReadAll io None w
      else
        (case os_Open io file w of
           (Some err, w1) \<Rightarrow> (Inl (Errorf (''cannot open '' @ file @ '': '' @ Error_text err)), w1)
         | (None, w1) \<Rightarrow> io_ReadAll io (Some file) w1))"

definition Send ::
    "'w go_runtime \<Rightarrow> 'w terminal \<Rightarrow> yaml \<Rightarrow> 'w CliClient \<Rightarrow> string \<Rightarrow> 'w \<Rightarrow> go_error option go \<times> 'w" where
  "Send rt io y c file w =
     (case read_input io file w of
        (Inl err, w1) \<Rightarrow> (Ret (Some err), w1)
      | (Inr data, w1) \<Rightarrow>
          (case Unmarshal_Generic y data of
             Inl err \<Rightarrow> (Ret (Some err), w1)
           | Inr entity \<Rightarrow>
               if ge_Version entity \<noteq> Version then
                 (Ret (Some (Errorf (''unsupported version '' @ ge_Version entity))), w1)
               else
                 (case SendHandlers rt io y c (ge_Kind entity) of
                    None \<Rightarrow> (Ret (Some (Errorf (''unknown Kind: '' @ ge_Kind entity))), w1)
                  | Some handler \<Rightarrow>
                      (case handler data w1 of
                         (Panic, w2) \<Rightarrow> (Panic, w2)
                       | (Ret (Inl grpcErr), w2) \<Rightarrow>
                           (Ret (Some grpcErr),
                            if getStatusCode grpcErr = AlreadyExists
                            then fmt_Print io (''entity `'' @ ge_Kind entity @ ''` exists'' @ newline) w2 else w2)
                       | (Ret (Inr resp), w2) \<Rightarrow> print_response io y resp w2))))"

subsection \<open>Getting\<close>

text \<open>\<open>titleCase\<close> is a function of \<^verbatim>\<open>golang.org/x/text/cases\<close>.\<close>

definition print_entity :: "'w terminal \<Rightarrow> go_error + bytes \<Rightarrow> 'w \<Rightarrow> go_error option \<times> 'w" where
  "print_entity io r w =
     (case r of Inl err \<Rightarrow> (Some err, w) | Inr data \<Rightarrow> (None, fmt_Print io (data @ newline) w))"

definition Get ::
    "'w go_runtime \<Rightarrow> 'w terminal \<Rightarrow> yaml \<Rightarrow> (string \<Rightarrow> string) \<Rightarrow> 'w CliClient \<Rightarrow> string \<Rightarrow> string \<Rightarrow> 'w
       \<Rightarrow> go_error option \<times> 'w" where
  "Get rt io y titleCase c kind ident w =
     (let (now, w1) = time_Now rt w; ctx = Some (now + 5 * 1000000000) in
      if kind = KindConfiguration then
        (case svc_GetConfiguration c ctx ident w1 of
           (Inl err, w2) \<Rightarrow> (Some err, w2)
         | (Inr cfg, w2) \<Rightarrow> print_entity io (Marshal_Config y cfg) w2)
      else if kind = KindFiniteStateMachine then
        (let parts = Split ident CHR ''/'' in
         if length parts \<noteq> 2 then
           (Some (Errorf (''expected an FSM ID of the form `config-name/fsm-id`, got instead '' @ ident)), w1)
         else
           (case svc_GetFiniteStateMachine c ctx \<lparr>gf_Config = parts ! 0, gf_Query = QueryId (parts ! 1)\<rparr> w1 of
              (Inl err, w2) \<Rightarrow> (Some err, w2)
            | (Inr fsm, w2) \<Rightarrow> print_entity io (Marshal_Fsm y fsm) w2))
      else
        (Some (Errorf (''kind `'' @ kind @ ''` unknown, please note they are case-sensitive (did you mean '' @
                       titleCase kind @ ''?)'')), w1))"

subsection \<open>Connecting, and the commands\<close>

text \<open>
  \<open>Dial\<close> is \<^verbatim>\<open>grpc.Dial\<close> followed by \<^verbatim>\<open>NewStatemachineServiceClient\<close>: it is given the authorities
  and the server name that TLS is to use, or nothing.
\<close>

definition NewClient ::
    "'w os \<Rightarrow> ('cert, 'ca) x509 \<Rightarrow> (string \<Rightarrow> ('ca list \<times> string) option \<Rightarrow> 'w \<Rightarrow> (go_error + 'w CliClient) \<times> 'w)
       \<Rightarrow> 'w terminal \<Rightarrow> string \<Rightarrow> bool \<Rightarrow> 'w \<Rightarrow> 'w CliClient option go \<times> 'w" where
  "NewClient os x Dial io address hasTls w =
     (let addr = Split address CHR '':'';
          (creds, w1) =
            (if \<not> hasTls then (Ret None, fmt_Print io (''WARN: TLS Disabled'' @ newline) w)
             else
               (case ParseCAFile os x (path_Join [CertsDir os w, CaCert]) w of
                  (Inl err, w1) \<Rightarrow> (Panic, w1)
                | (Inr ca, w1) \<Rightarrow> (Ret (Some (ca, addr ! 0)), w1)))
      in case creds of
           Panic \<Rightarrow> (Panic, w1)
         | Ret tls \<Rightarrow>
             (case Dial address tls w1 of
                (Inl err, w2) \<Rightarrow> (Ret None, w2)
              | (Inr cc, w2) \<Rightarrow> (Ret (Some cc), w2)))"

text \<open>\<^verbatim>\<open>strings.ToLower\<close> of an ASCII string, and \<^verbatim>\<open>flag.Arg\<close>.\<close>

definition lower :: "char \<Rightarrow> char" where
  "lower c = (let n = of_char c :: nat in if 65 \<le> n \<and> n \<le> 90 then char_of (n + 32) else c)"

definition ToLower :: "string \<Rightarrow> string" where
  "ToLower s = map lower s"

definition Arg :: "string list \<Rightarrow> nat \<Rightarrow> string" where
  "Arg args i = (if i < length args then args ! i else '''')"

text \<open>
  \<^verbatim>\<open>main\<close>, from the parsed flags and arguments on: the exit code. \<open>connect\<close> is \<^verbatim>\<open>NewClient\<close>;
  \<open>show_state\<close> is the text of the state of the server.
\<close>

definition cli_main ::
    "'w go_runtime \<Rightarrow> 'w terminal \<Rightarrow> yaml \<Rightarrow> (string \<Rightarrow> string)
       \<Rightarrow> (string \<Rightarrow> bool \<Rightarrow> 'w \<Rightarrow> 'w CliClient option go \<times> 'w) \<Rightarrow> (HealthState \<Rightarrow> string) \<Rightarrow> string
       \<Rightarrow> bool \<Rightarrow> string \<Rightarrow> string list \<Rightarrow> 'w \<Rightarrow> nat go \<times> 'w" where
  "cli_main rt io y titleCase connect show_state Release insecure serverAddr args w =
     (let cmd = ToLower (Arg args 0);
          finish = (\<lambda>(err, w). case err of
             None \<Rightarrow> (Ret 0, w)
           | Some e \<Rightarrow> (Ret 1, fmt_Print io (''error: '' @ Error_text e @ newline) w))
      in case connect serverAddr (\<not> insecure) w of
           (Panic, w1) \<Rightarrow> (Panic, w1)
         | (Ret None, w1) \<Rightarrow> (Ret 1, fmt_Print io (''cannot connect to server at '' @ serverAddr) w1)
         | (Ret (Some c), w1) \<Rightarrow>
             (case svc_Health c None w1 of
                (Inl err, w2) \<Rightarrow> (Ret 1, fmt_Print io (''cannot connect to server '' @ Error_text err @ newline) w2)
              | (Inr r, w2) \<Rightarrow>
                  if cmd = CmdSend then
                    (case Send rt io y c (Arg args 1) w2 of
                       (Panic, w3) \<Rightarrow> (Panic, w3) | (Ret err, w3) \<Rightarrow> finish (err, w3))
                  else if cmd = CmdGet then finish (Get rt io y titleCase c (Arg args 1) (Arg args 2) w2)
                  else if cmd = CmdVersion then
                    (Ret 0,
                     fmt_Print io (''Connected to Server: '' @ hr_Release r @ '' at '' @ serverAddr @ '' ('' @
                         show_state (hr_State r) @ '')'' @ newline)
                       (fmt_Print io (''FSM CLI Client Rel. '' @ Release @ newline) w2))
                  else (Ret 1, fmt_Print io (''unknown or missing command `'' @ cmd @ ''`'' @ newline) w2)))"

section \<open>Waiting for the outcome\<close>

text \<open>One poll that finds no outcome, and the pause after it.\<close>

definition missed_poll :: "'w go_runtime \<Rightarrow> 'w CliClient \<Rightarrow> int option \<Rightarrow> EventRequest \<Rightarrow> 'w \<Rightarrow> 'w" where
  "missed_poll rt c ctx query w =
     time_Sleep rt IntervalBetweenRetries (snd (svc_GetEventOutcome c ctx query w))"

definition not_yet :: "go_error + EventResponse \<Rightarrow> bool" where
  "not_yet r \<longleftrightarrow> (case r of Inl err \<Rightarrow> getStatusCode err = NotFound | Inr x \<Rightarrow> False)"

text \<open>The first \<open>k\<close> polls, of at most \<open>limit\<close>, found no outcome, and there was no other such poll.\<close>

definition missed ::
    "'w go_runtime \<Rightarrow> 'w CliClient \<Rightarrow> int option \<Rightarrow> EventRequest \<Rightarrow> nat \<Rightarrow> 'w \<Rightarrow> nat \<Rightarrow> bool" where
  "missed rt c ctx query limit w k \<longleftrightarrow>
     (let answer = (\<lambda>j. fst (svc_GetEventOutcome c ctx query ((missed_poll rt c ctx query ^^ j) w))) in
      k \<le> limit \<and> (\<forall>j < k. not_yet (answer j)) \<and> (k < limit \<longrightarrow> \<not> not_yet (answer k)))"

lemma poll_outcome_missed:
  "\<exists>k. missed rt c ctx query limit w k \<and>
     poll_outcome rt c ctx query limit w =
       (let w1 = (missed_poll rt c ctx query ^^ k) w in
        if k = limit then (None, w1)
        else (case svc_GetEventOutcome c ctx query w1 of
                (Inr x, w2) \<Rightarrow> (Some x, w2) | (Inl err, w2) \<Rightarrow> (None, w2)))"
proof (induction limit arbitrary: w)
  case 0
  then show ?case by (intro exI [of _ 0]) (simp add: missed_def)
next
  case (Suc limit)
  let ?get = "svc_GetEventOutcome c ctx query" and ?miss = "missed_poll rt c ctx query"
  obtain r w1 where r: "?get w = (r, w1)" by fastforce
  show ?case
  proof (cases "not_yet r")
    case False
    then show ?thesis
      using r by (intro exI [of _ 0]) (auto simp: missed_def not_yet_def split: sum.splits)
  next
    case True
    obtain k where k: "missed rt c ctx query limit (?miss w) k"
      "poll_outcome rt c ctx query limit (?miss w) =
        (let w1 = (?miss ^^ k) (?miss w) in
         if k = limit then (None, w1)
         else (case ?get w1 of (Inr x, w2) \<Rightarrow> (Some x, w2) | (Inl err, w2) \<Rightarrow> (None, w2)))"
      using Suc.IH by blast
    have f: "(?miss ^^ j) (?miss w) = (?miss ^^ Suc j) w" for j
      by (simp only: funpow_Suc_right o_apply)
    have "missed rt c ctx query (Suc limit) w (Suc k)"
      unfolding missed_def Let_def
    proof (intro conjI allI impI)
      show "not_yet (fst (?get ((?miss ^^ j) w)))" if "j < Suc k" for j
        using that k(1) True r by (cases j) (simp_all add: missed_def Let_def f)
    qed (use k(1) in \<open>simp_all add: missed_def Let_def f\<close>)
    moreover have "poll_outcome rt c ctx query (Suc limit) w = poll_outcome rt c ctx query limit (?miss w)"
      using True r by (auto simp: not_yet_def missed_poll_def split: sum.splits)
    ultimately show ?thesis
      unfolding k(2) f by (intro exI [of _ "Suc k"]) simp
  qed
qed

text \<open>
  C27. \<^verbatim>\<open>sendEvent\<close> for a request with an event: the event is completed and sent once. If the server refuses
  it, its error is returned. Otherwise the outcome is asked for until the answer is not \<^verbatim>\<open>NotFound\<close>, at
  most five times, with the same deadline of five seconds, and a pause after each miss; an outcome
  that is found is returned. After five misses, and after any other error, the result is no
  response and no error.
\<close>

theorem sendEvent_polls_the_outcome:
  assumes "runtime rt" and "req_Event request = Some e"
  shows "\<exists>e' w1 now w2. UpdateEvent rt (Some e) w = (Ret e', w1) \<and> completed e e' \<and> time_Now rt w1 = (now, w2) \<and>
    (let ctx = Some (now + 5000000000); request' = request\<lparr>req_Event := Some e'\<rparr> in
     case svc_SendEvent c ctx request' w2 of
       (Inl err, w3) \<Rightarrow> sendEvent rt io c (Some request) w = (Ret (Inl err), w3)
     | (Inr response, w3) \<Rightarrow>
         (let query = \<lparr>req_Event = None, req_Config = req_Config request, req_Id = resp_EventId response\<rparr>;
              w4 = fmt_Print io (''Event ID: '' @ resp_EventId response @ newline) w3
          in \<exists>k. missed rt c ctx query 5 w4 k \<and>
               sendEvent rt io c (Some request) w =
                 (let w5 = (missed_poll rt c ctx query ^^ k) w4 in
                  if k = 5 then (Ret (Inr None), w5)
                  else (case svc_GetEventOutcome c ctx query w5 of
                          (Inr x, w6) \<Rightarrow> (Ret (Inr (Some x)), w6)
                        | (Inl err, w6) \<Rightarrow> (Ret (Inr None), w6)))))"
proof -
  obtain e' w1 where u: "UpdateEvent rt (Some e) w = (Ret e', w1)" and e': "completed e e'"
    by (rule UpdateEvent_completed [OF assms(1)])
  obtain now w2 where n: "time_Now rt w1 = (now, w2)" by fastforce
  let ?ctx = "Some (now + 5000000000)" and ?request = "request\<lparr>req_Event := Some e'\<rparr>"
  obtain r w3 where r: "svc_SendEvent c ?ctx ?request w2 = (r, w3)" by fastforce
  show ?thesis
  proof (cases r)
    case (Inl err)
    then have "sendEvent rt io c (Some request) w = (Ret (Inl err), w3)"
      using assms(2) u n r by (simp add: sendEvent_def)
    then show ?thesis
      using u e' n r Inl by (intro exI [of _ e'] exI [of _ w1] exI [of _ now] exI [of _ w2]) (simp add: Let_def)
  next
    case (Inr response)
    let ?query = "\<lparr>req_Event = None, req_Config = req_Config request, req_Id = resp_EventId response\<rparr>"
    let ?w4 = "fmt_Print io (''Event ID: '' @ resp_EventId response @ newline) w3"
    obtain k where k: "missed rt c ?ctx ?query MaxRetries ?w4 k"
      "poll_outcome rt c ?ctx ?query MaxRetries ?w4 =
        (let w1 = (missed_poll rt c ?ctx ?query ^^ k) ?w4 in
         if k = MaxRetries then (None, w1)
         else (case svc_GetEventOutcome c ?ctx ?query w1 of
                 (Inr x, w2) \<Rightarrow> (Some x, w2) | (Inl err, w2) \<Rightarrow> (None, w2)))"
      using poll_outcome_missed [of rt c ?ctx ?query MaxRetries ?w4] by (elim exE conjE)
    have "sendEvent rt io c (Some request) w =
        (case poll_outcome rt c ?ctx ?query MaxRetries ?w4 of (outcome, w5) \<Rightarrow> (Ret (Inr outcome), w5))"
      using assms(2) u n r Inr by (simp add: sendEvent_def Let_def)
    also have "\<dots> = (let w5 = (missed_poll rt c ?ctx ?query ^^ k) ?w4 in
        if k = 5 then (Ret (Inr None), w5)
        else (case svc_GetEventOutcome c ?ctx ?query w5 of
                (Inr x, w6) \<Rightarrow> (Ret (Inr (Some x)), w6) | (Inl err, w6) \<Rightarrow> (Ret (Inr None), w6)))"
      unfolding k(2) by (simp add: Let_def MaxRetries_def split: prod.splits sum.splits)
    finally show ?thesis
      using u e' n r Inr k(1)
      by (intro exI [of _ e'] exI [of _ w1] exI [of _ now] exI [of _ w2]) (auto simp: Let_def MaxRetries_def)
  qed
qed

text \<open>
  A server that takes events and never has an outcome; the world counts the calls of the clock
  and the polls.
\<close>

definition deaf_client :: "nat CliClient" where
  "deaf_client =
     \<lparr>svc_SendEvent = (\<lambda>d r w. (Inr \<lparr>resp_EventId = ''e1'', resp_Outcome = None\<rparr>, w)),
      svc_GetEventOutcome = (\<lambda>d r w. (Inl (StatusError NotFound ''none''), Suc w)),
      svc_PutConfiguration = (\<lambda>d c w. (Inl (StatusError Unavailable ''''), w)),
      svc_PutFiniteStateMachine = (\<lambda>d r w. (Inl (StatusError Unavailable ''''), w)),
      svc_GetConfiguration = (\<lambda>d i w. (Inl (StatusError Unavailable ''''), w)),
      svc_GetFiniteStateMachine = (\<lambda>d r w. (Inl (StatusError Unavailable ''''), w)),
      svc_Health = (\<lambda>d w. (Inl (StatusError Unavailable ''''), w))\<rparr>"

definition quiet_terminal :: "'w terminal" where
  "quiet_terminal =
     \<lparr>os_Open = (\<lambda>f w. (None, w)), io_ReadAll = (\<lambda>f w. (Inr ''event'', w)), fmt_Print = (\<lambda>t w. w)\<rparr>"

lemma deaf_simps [simp]:
  "svc_SendEvent deaf_client d r n = (Inr \<lparr>resp_EventId = ''e1'', resp_Outcome = None\<rparr>, n)"
  "svc_GetEventOutcome deaf_client d r n = (Inl (StatusError NotFound ''none''), Suc n)"
  "fmt_Print quiet_terminal t w = w"
  "time_Now counting_runtime n = (int n, Suc n)" "time_Sleep counting_runtime i n = n"
  by (simp_all add: deaf_client_def quiet_terminal_def counting_runtime_def)

theorem sendEvent_polls_the_outcome_witness:
  "sendEvent counting_runtime quiet_terminal deaf_client (Some launch_request) 0 = (Ret (Inr None), 6)"
proof -
  let ?e = "event_named ''launch''"
  have idle: "UpdateEvent counting_runtime (Some ?e) 0 = (Ret ?e, 0)"
    by (rule UpdateEvent_idle) (simp_all add: event_named_def)
  obtain ctx query k where k: "missed counting_runtime deaf_client ctx query 5 1 k"
    and r: "sendEvent counting_runtime quiet_terminal deaf_client (Some launch_request) 0 =
      (let w5 = (missed_poll counting_runtime deaf_client ctx query ^^ k) 1 in
       if k = 5 then (Ret (Inr None), w5)
       else (case svc_GetEventOutcome deaf_client ctx query w5 of
               (Inr x, w6) \<Rightarrow> (Ret (Inr (Some x)), w6) | (Inl err, w6) \<Rightarrow> (Ret (Inr None), w6)))"
    using sendEvent_polls_the_outcome [OF counting.runtime_axioms launch_complete(2), of 0 quiet_terminal deaf_client]
    by (auto simp: idle Let_def)
  have "k = 5"
    using k by (cases "k < 5") (auto simp: missed_def not_yet_def getStatusCode_def)
  then show ?thesis
    using r by (simp add: Let_def missed_poll_def eval_nat_numeral)
qed

lemma poll_outcome_never:
  assumes "\<And>v. not_yet (fst (svc_GetEventOutcome c ctx query v))"
  shows "fst (poll_outcome rt c ctx query limit w) = None"
proof (induction limit arbitrary: w)
  case (Suc limit)
  then show ?case using assms [of w] by (auto simp: not_yet_def split: prod.splits sum.splits)
qed simp

text \<open>
  C38. An event whose outcome is not recorded within the five polls makes the client panic: \<^verbatim>\<open>Send\<close> of
  a file with a request that the server takes and whose outcome it keeps answering \<^verbatim>\<open>NotFound\<close> for does
  not return, although nothing failed.
\<close>

theorem Send_panics_when_the_outcome_is_late:
  assumes "read_input io file w = (Inr data, w1)"
    and "Unmarshal_Generic y data = Inr entity" and "ge_Version entity = Version" and "ge_Kind entity = KindEvent"
    and "Unmarshal_Event y data = Inr evt" and "ee_Spec evt = Some request" and "req_Event request = Some e"
    and "\<And>ctx r v. \<exists>resp. fst (svc_SendEvent c ctx r v) = Inr resp"
    and "\<And>ctx q v. not_yet (fst (svc_GetEventOutcome c ctx q v))"
    and "\<And>r. \<exists>out. Marshal_response y r = Inr out"
  shows "fst (Send rt io y c file w) = Panic"
proof -
  obtain e' w2 where u: "UpdateEvent rt (Some e) w1 = (Ret e', w2)" by (rule UpdateEvent_Ret)
  obtain now w3 where n: "time_Now rt w2 = (now, w3)" by fastforce
  let ?ctx = "Some (now + 5000000000)"
  obtain resp w4 where s: "svc_SendEvent c ?ctx (request\<lparr>req_Event := Some e'\<rparr>) w3 = (Inr resp, w4)"
    using assms(8) by (metis prod.collapse)
  have "\<exists>v. sendEvent rt io c (Some request) w1 = (Ret (Inr None), v)"
    using assms(7) u n s poll_outcome_never [of c, OF assms(9)]
    by (auto simp: sendEvent_def Let_def split: prod.splits)
       (metis fst_conv option.distinct(1))
  then obtain v where v: "sendEvent rt io c (Some request) w1 = (Ret (Inr None), v)" by blast
  have "KindEvent \<noteq> KindConfiguration" "KindEvent \<noteq> KindFiniteStateMachine"
    by (simp_all add: KindEvent_def KindConfiguration_def KindFiniteStateMachine_def)
  then have "SendHandlers rt io y c KindEvent = Some (send_EventRequest rt io y c)"
    by (simp add: SendHandlers_def)
  moreover have "send_EventRequest rt io y c data w1 = (Ret (Inr (RespEvent None)), v)"
    using assms(5,6) v by (simp add: send_EventRequest_def)
  moreover obtain out where "Marshal_response y (RespEvent None) = Inr out" using assms(10) by blast
  ultimately show ?thesis
    using assms(1-4) by (simp add: Send_def print_response_def Let_def)
qed

definition event_yaml :: yaml where
  "event_yaml =
     (let g = \<lparr>ge_Version = Version, ge_Kind = KindEvent, ge_Id = ''''\<rparr> in
      \<lparr>Unmarshal_Generic = (\<lambda>b. Inr g),
       Unmarshal_Config = (\<lambda>b. Inl (Errorf ''not a configuration'')),
       Unmarshal_Fsm = (\<lambda>b. Inl (Errorf ''not a machine'')),
       Unmarshal_Event = (\<lambda>b. Inr \<lparr>ge_Version = Version, ge_Kind = KindEvent, ge_Id = '''', ee_Spec = Some launch_request\<rparr>),
       Marshal_response = (\<lambda>r. Inr ''''), Marshal_Config = (\<lambda>c. Inr ''''), Marshal_Fsm = (\<lambda>m. Inr '''')\<rparr>)"

theorem Send_panics_when_the_outcome_is_late_witness:
  "fst (Send counting_runtime quiet_terminal event_yaml deaf_client ''event.yaml'' 0) = Panic"
proof -
  have "read_input quiet_terminal ''event.yaml'' (0 :: nat) = (Inr ''event'', 0)"
    by (simp add: read_input_def quiet_terminal_def StdinFlag_def)
  from Send_panics_when_the_outcome_is_late [OF this, of event_yaml _ _ launch_request _ deaf_client] show ?thesis
    by (simp add: event_yaml_def launch_request_def not_yet_def getStatusCode_def Let_def)
qed

end
