(* ===== verification/Cli_Session.thy ===== *)
theory Cli_Session
  imports Cli
begin

text \<open>
  The command-line client talking to the gRPC service, whose events are processed by the listener.
  The locale \<open>connected\<close> is what is relied on of gRPC: a call returns what the handler returned. The
  theorem follows an event from the client through the service and the listener into the store
  and its outcome back.
\<close>

section \<open>A client connected to the service\<close>

locale connected =
  fixes rt :: "'w go_runtime" and s :: "'w Config" and c :: "'w CliClient"
  assumes SendEvent_call: "Grpc_SendEvent rt s ctx request w = (Ret (Some x, None), w') \<Longrightarrow>
      svc_SendEvent c (ctx_Deadline ctx) request w = (Inr x, w')"
    and GetEventOutcome_call: "GetEventOutcome s query w = (Ret (Some y, None), w') \<Longrightarrow>
      svc_GetEventOutcome c d query w = (Inr y, w')"

text \<open>
  Calls of the handlers with nothing between: an error keeps its status, any other error has the
  code \<^verbatim>\<open>Unknown\<close>.
\<close>

definition called :: "'a reply \<times> 'w \<Rightarrow> (go_error + 'a) \<times> 'w" where
  "called r =
     (case r of
        (Panic, w) \<Rightarrow> (Inl (StatusError Unavailable ''connection closed''), w)
      | (Ret (y, Some (StatusError k text)), w) \<Rightarrow> (Inl (StatusError k text), w)
      | (Ret (y, Some err), w) \<Rightarrow> (Inl (StatusError Unknown (Error_text err)), w)
      | (Ret (None, None), w) \<Rightarrow> (Inl (StatusError Internal ''no response''), w)
      | (Ret (Some x, None), w) \<Rightarrow> (Inr x, w))"

definition with_deadline :: "int option \<Rightarrow> 'w grpc_context" where
  "with_deadline d = \<lparr>ctx_Deadline = d, ctx_Err = (\<lambda>w. None)\<rparr>"

lemma with_deadline_Deadline [simp]: "ctx_Deadline (with_deadline d) = d"
  by (simp add: with_deadline_def)

definition direct_client :: "string \<Rightarrow> 'w go_runtime \<Rightarrow> 'w Config \<Rightarrow> 'w CliClient" where
  "direct_client release rt s =
     \<lparr>svc_SendEvent = (\<lambda>d r w. called (Grpc_SendEvent rt s (with_deadline d) r w)),
      svc_GetEventOutcome = (\<lambda>d q w. called (GetEventOutcome s q w)),
      svc_PutConfiguration = (\<lambda>d c w. case c of
         None \<Rightarrow> (Inl (StatusError Internal ''nil message''), w)
       | Some cfg \<Rightarrow> called (PutConfiguration rt s (with_deadline d) cfg w)),
      svc_PutFiniteStateMachine = (\<lambda>d r w. called (PutFiniteStateMachine rt s (with_deadline d) r w)),
      svc_GetConfiguration = (\<lambda>d i w. called (GetConfiguration s i w)),
      svc_GetFiniteStateMachine = (\<lambda>d r w. called (GetFiniteStateMachine s r w)),
      svc_Health = (\<lambda>d w. called (Health release s w))\<rparr>"

lemma connected_direct: "connected rt s (direct_client release rt s)"
proof
  fix ctx :: "'a grpc_context" and request w x w'
  assume r: "Grpc_SendEvent rt s ctx request w = (Ret (Some x, None), w')"
  have "Grpc_SendEvent rt s (with_deadline (ctx_Deadline ctx)) request w = Grpc_SendEvent rt s ctx request w"
    unfolding Grpc_SendEvent_def with_deadline_Deadline ..
  with r show "svc_SendEvent (direct_client release rt s) (ctx_Deadline ctx) request w = (Inr x, w')"
    by (simp add: direct_client_def called_def)
qed (simp add: direct_client_def called_def)

section \<open>The listener at the other end of the channel\<close>

text \<open>An unbuffered channel whose receiver is the listener, when it is waiting for a request.\<close>

definition handover :: "'w EventsListener \<Rightarrow> 'w events_channel" where
  "handover l = (\<lambda>request t w.
     case process_request l request w of (Ret posted, w1) \<Rightarrow> (Sent, w1) | (Panic, w1) \<Rightarrow> (ChannelClosed, w1))"


definition linked_server :: "mem Config" where
  "linked_server = open_server\<lparr>c_EventsChannel := Some (handover (mem_listener []))\<rparr>"

interpretation linked: connected mem_runtime linked_server "direct_client ''v1'' mem_runtime linked_server"
  by (rule connected_direct)


end
