(* ===== verification/Server_Main.thy ===== *)
theory Server_Main
  imports Tls Subscriber
begin

text \<open>
  Starting the server (\<^verbatim>\<open>cmd/main.go\<close>) and the constructors of the store (\<^verbatim>\<open>NewRedisStore\<close> of
  \<^verbatim>\<open>pkg/storage/redis_store.go\<close>): from the command-line flags to the services that run. Stopping it is in theory
  \<open>Shutdown\<close>. The lemmas say which services are started, and with what.
\<close>

section \<open>Definitions\<close>

subsection \<open>The store\<close>

text \<open>
  The constructors of the Redis client: the nodes of a cluster, or an address and a database; with
  TLS or without.
\<close>

record 'w redis_driver =
  NewClusterClient :: "bool \<Rightarrow> string list \<Rightarrow> 'w redis_client"
  NewRedisClient :: "bool \<Rightarrow> string \<Rightarrow> int \<Rightarrow> 'w redis_client"

definition NewRedisStore ::
    "'w os \<Rightarrow> 'w redis_driver \<Rightarrow> string \<Rightarrow> bool \<Rightarrow> int \<Rightarrow> duration \<Rightarrow> int \<Rightarrow> 'w \<Rightarrow> 'w RedisStore" where
  "NewRedisStore os drv address isCluster db timeout maxRetries w =
     (let tls = (os_Getenv os ''REDIS_TLS'' w \<noteq> '''');
          client = (if isCluster then NewClusterClient drv tls (Split address CHR '','')
                    else NewRedisClient drv tls address db)
      in \<lparr>rs_client = client, rs_Timeout = timeout, rs_MaxRetries = word_of_int maxRetries\<rparr>)"

definition DefaultRedisDb :: int where "DefaultRedisDb = 0"

definition NewRedisStoreWithDefaults :: "'w os \<Rightarrow> 'w redis_driver \<Rightarrow> string \<Rightarrow> 'w \<Rightarrow> 'w RedisStore" where
  "NewRedisStoreWithDefaults os drv address w =
     NewRedisStore os drv address False DefaultRedisDb DefaultTimeout (int DefaultMaxRetries) w"

subsection \<open>The services\<close>

record flags =
  fl_endpoint_url :: string
  fl_cluster :: bool
  fl_debug :: bool
  fl_events :: string
  fl_grpc_port :: int
  fl_insecure :: bool
  fl_max_retries :: int
  fl_notifications :: string
  fl_redis :: string
  fl_timeout :: duration
  fl_trace :: bool

definition default_flags :: flags where
  "default_flags =
     \<lparr>fl_endpoint_url = '''', fl_cluster = False, fl_debug = False, fl_events = '''', fl_grpc_port = 7398,
      fl_insecure = False, fl_max_retries = int DefaultMaxRetries, fl_notifications = '''', fl_redis = '''',
      fl_timeout = DefaultTimeout, fl_trace = False\<rparr>"

datatype Level = InfoLevel | DebugLevel | TraceLevel

definition setLogLevel :: "bool \<Rightarrow> bool \<Rightarrow> Level" where
  "setLogLevel debug trace =
     (if debug \<and> \<not> trace then DebugLevel else if trace then TraceLevel else InfoLevel)"

text \<open>
  The events channel, as its users see it: an offer with a time-out, a send that waits, and what is
  received from it. The notifications channel is what the publisher receives from it.
\<close>

record 'w channels =
  ch_offer :: "'w events_channel"
  ch_send :: "EventRequest \<Rightarrow> 'w \<Rightarrow> unit go \<times> 'w"
  ch_received :: "EventRequest list"
  ch_notified :: "EventResponse list"

text \<open>The parts of the world outside the program.\<close>

record ('w, 'cert, 'ca) host =
  h_os :: "'w os"
  h_x509 :: "('cert, 'ca) x509"
  h_aws :: "'w aws"
  h_redis :: "'w redis_driver"
  h_Listen :: "int \<Rightarrow> 'w \<Rightarrow> go_error option \<times> 'w"

definition startGrpcServer ::
    "('w, 'cert, 'ca) host \<Rightarrow> 'w StoreManager \<Rightarrow> int \<Rightarrow> bool \<Rightarrow> 'w events_channel \<Rightarrow> 'w
       \<Rightarrow> ('w, 'cert, 'ca) grpc_server go \<times> 'w" where
  "startGrpcServer h store port disableTls events w =
     (case h_Listen h port w of
        (Some err, w1) \<Rightarrow> (Panic, w1)
      | (None, w1) \<Rightarrow>
          (case NewGrpcServer (h_os h) (h_x509 h)
                  \<lparr>c_EventsChannel = Some events, c_Store = Some store, c_Timeout = 0, c_ServerAddress = '''',
                   c_TlsEnabled = \<not> disableTls, c_TlsCerts = '''', c_TlsMutual = False\<rparr> w1 of
             (Inl err, w2) \<Rightarrow> (Panic, w2)
           | (Inr grpcServer, w2) \<Rightarrow> (Ret grpcServer, w2)))"

text \<open>What is running when the server is ready.\<close>

record ('w, 'cert, 'ca) services =
  sv_store :: "'w RedisStore"
  sv_subscriber :: "('w SqsSubscriber \<times> string) option"
  sv_publisher :: "('w SqsPublisher \<times> string) option"
  sv_listener :: "'w EventsListener"
  sv_grpc :: "('w, 'cert, 'ca) grpc_server"
  sv_level :: Level

definition start_subscriber ::
    "('w, 'cert, 'ca) host \<Rightarrow> 'w channels \<Rightarrow> flags \<Rightarrow> 'w \<Rightarrow> ('w SqsSubscriber \<times> string) option go \<times> 'w" where
  "start_subscriber h ch f w =
     (if fl_events f = '''' then (Ret None, w)
      else
        (case NewSqsSubscriber (h_aws h) (ch_send ch) (Some (fl_endpoint_url f)) w of
           (Panic, w1) \<Rightarrow> (Panic, w1)
         | (Ret None, w1) \<Rightarrow> (Panic, w1)
         | (Ret (Some sub), w1) \<Rightarrow> (Ret (Some (sub, fl_events f)), w1)))"

definition start_publisher ::
    "('w, 'cert, 'ca) host \<Rightarrow> 'w channels \<Rightarrow> flags \<Rightarrow> 'w \<Rightarrow> ('w SqsPublisher \<times> string) option go \<times> 'w" where
  "start_publisher h ch f w =
     (if fl_notifications f = '''' then (Ret None, w)
      else
        (case NewSqsPublisher (h_aws h) (ch_notified ch) (Some (fl_endpoint_url f)) w of
           (Panic, w1) \<Rightarrow> (Panic, w1)
         | (Ret None, w1) \<Rightarrow> (Panic, w1)
         | (Ret (Some pub), w1) \<Rightarrow> (Ret (Some (pub, fl_notifications f)), w1)))"

text \<open>\<^verbatim>\<open>main\<close>, up to the point where it waits for a signal; \<^verbatim>\<open>logger.Fatal\<close> ends the program.\<close>

definition server_main ::
    "('w, 'cert, 'ca) host \<Rightarrow> 'w go_runtime \<Rightarrow> codecs \<Rightarrow> 'w channels \<Rightarrow> flags \<Rightarrow> 'w
       \<Rightarrow> ('w, 'cert, 'ca) services go \<times> 'w" where
  "server_main h rt cs ch f w =
     (if fl_redis f = '''' then (Panic, w)
      else
        (let store = NewRedisStore (h_os h) (h_redis h) (fl_redis f) (fl_cluster f) 1 (fl_timeout f) (fl_max_retries f) w;
             manager = RedisStore_manager rt cs store
         in case start_subscriber h ch f w of
              (Panic, w1) \<Rightarrow> (Panic, w1)
            | (Ret sub, w1) \<Rightarrow>
                (case start_publisher h ch f w1 of
                   (Panic, w2) \<Rightarrow> (Panic, w2)
                 | (Ret pub, w2) \<Rightarrow>
                     (let listener = NewEventsListener
                            \<lparr>EventsChannel = ch_received ch, NotificationsChannel = (fl_notifications f \<noteq> ''''),
                             StatemachinesStore = manager\<rparr>
                      in case startGrpcServer h manager (fl_grpc_port f) (fl_insecure f) (ch_offer ch) w2 of
                           (Panic, w3) \<Rightarrow> (Panic, w3)
                         | (Ret svr, w3) \<Rightarrow>
                             (Ret \<lparr>sv_store = store, sv_subscriber = sub, sv_publisher = pub, sv_listener = listener,
                                   sv_grpc = svr, sv_level = setLogLevel (fl_debug f) (fl_trace f)\<rparr>, w3)))))"

section \<open>The services that run\<close>

lemma NewGrpcServer_keeps:
  assumes "NewGrpcServer os x cfg w = (Inr srv, w')"
  shows "c_Store (gs_Config srv) = c_Store cfg" "c_EventsChannel (gs_Config srv) = c_EventsChannel cfg"
    "gs_Creds srv = Insecure \<longleftrightarrow> \<not> c_TlsEnabled cfg"
    "c_Timeout (gs_Config srv) = (if c_Timeout cfg = 0 then Grpc_DefaultTimeout else c_Timeout cfg)"
  using assms
  by (auto simp: NewGrpcServer_def SetupTLSConfig_def Let_def split: if_splits sum.splits prod.splits)

lemma getSqsClient_region:
  "getSqsClient aws (Some url) w = (Ret (Some client), w') \<Longrightarrow> os_LookupEnv aws ''AWS_REGION'' w \<noteq> None"
  by (auto simp: getSqsClient_def split: option.splits)

lemma start_subscriber_Ret:
  assumes "start_subscriber h ch f w = (Ret sub, w')"
  shows "case sub of None \<Rightarrow> fl_events f = '''' \<and> w' = w
    | Some (s, topic) \<Rightarrow> topic = fl_events f \<and> topic \<noteq> '''' \<and> sub_events s = ch_send ch \<and>
        sub_MessageRemoveRetries s = 3 \<and> os_LookupEnv (h_aws h) ''AWS_REGION'' w \<noteq> None"
  using assms getSqsClient_region
  by (fastforce simp: start_subscriber_def NewSqsSubscriber_def DefaultRetries_def
      split: if_splits prod.splits go.splits option.splits)

lemma start_publisher_Ret:
  assumes "start_publisher h ch f w = (Ret pub, w')"
  shows "case pub of None \<Rightarrow> fl_notifications f = '''' \<and> w' = w
    | Some (p, topic) \<Rightarrow> topic = fl_notifications f \<and> topic \<noteq> '''' \<and> pub_notifications p = ch_notified ch \<and>
        os_LookupEnv (h_aws h) ''AWS_REGION'' w \<noteq> None"
  using assms getSqsClient_region
  by (fastforce simp: start_publisher_def NewSqsPublisher_def
      split: if_splits prod.splits go.splits option.splits)

lemma startGrpcServer_Ret:
  assumes "startGrpcServer h store port disableTls events w = (Ret svr, w')"
  shows "c_Store (gs_Config svr) = Some store" "c_EventsChannel (gs_Config svr) = Some events"
    "gs_Creds svr = Insecure \<longleftrightarrow> disableTls" "c_Timeout (gs_Config svr) = Grpc_DefaultTimeout"
  using assms NewGrpcServer_keeps
  by (fastforce simp: startGrpcServer_def split: prod.splits option.splits sum.splits)+

text \<open>
  C26. When the server is ready: a Redis address was given, and the gRPC service and the listener use
  one store, the one at that address with the retries and the time-out of the flags; the service has TLS
  credentials unless the flag turns them off; events reach the listener from the service and, exactly
  when a topic is given, from an SQS subscriber; the listener posts failures, and a publisher sends
  them, exactly when there is a topic for them. With a topic for events the AWS region must be set in the environment.
\<close>

theorem server_main_services:
  assumes "server_main h rt cs ch f w = (Ret sv, w')"
  shows "fl_redis f \<noteq> '''' \<and>
    sv_store sv = NewRedisStore (h_os h) (h_redis h) (fl_redis f) (fl_cluster f) 1 (fl_timeout f) (fl_max_retries f) w \<and>
    l_store (sv_listener sv) = RedisStore_manager rt cs (sv_store sv) \<and>
    c_Store (gs_Config (sv_grpc sv)) = Some (l_store (sv_listener sv)) \<and>
    (gs_Creds (sv_grpc sv) = Insecure \<longleftrightarrow> fl_insecure f) \<and>
    c_EventsChannel (gs_Config (sv_grpc sv)) = Some (ch_offer ch) \<and>
    c_Timeout (gs_Config (sv_grpc sv)) = 200000000 \<and>
    l_events (sv_listener sv) = ch_received ch \<and>
    (case sv_subscriber sv of
       None \<Rightarrow> fl_events f = ''''
     | Some (s, topic) \<Rightarrow> topic = fl_events f \<and> topic \<noteq> '''' \<and> sub_events s = ch_send ch \<and> sub_MessageRemoveRetries s = 3) \<and>
    (case sv_publisher sv of
       None \<Rightarrow> \<not> l_notifications (sv_listener sv) \<and> fl_notifications f = ''''
     | Some (p, topic) \<Rightarrow> l_notifications (sv_listener sv) \<and> topic = fl_notifications f \<and> topic \<noteq> '''' \<and>
         pub_notifications p = ch_notified ch) \<and>
    (sv_subscriber sv = None \<or> os_LookupEnv (h_aws h) ''AWS_REGION'' w \<noteq> None)"
proof -
  let ?store = "NewRedisStore (h_os h) (h_redis h) (fl_redis f) (fl_cluster f) 1 (fl_timeout f) (fl_max_retries f) w"
  let ?m = "RedisStore_manager rt cs ?store"
  have redis: "fl_redis f \<noteq> ''''" using assms by (auto simp: server_main_def split: if_splits)
  then obtain sub w1 where sub: "start_subscriber h ch f w = (Ret sub, w1)"
    using assms by (auto simp: server_main_def Let_def split: prod.splits go.splits)
  then obtain pub w2 where pub: "start_publisher h ch f w1 = (Ret pub, w2)"
    using assms redis by (auto simp: server_main_def Let_def split: prod.splits go.splits)
  then obtain svr where
    svr: "startGrpcServer h ?m (fl_grpc_port f) (fl_insecure f) (ch_offer ch) w2 = (Ret svr, w')"
    and sv: "sv = \<lparr>sv_store = ?store, sv_subscriber = sub, sv_publisher = pub,
      sv_listener = NewEventsListener \<lparr>EventsChannel = ch_received ch,
        NotificationsChannel = (fl_notifications f \<noteq> ''''), StatemachinesStore = ?m\<rparr>,
      sv_grpc = svr, sv_level = setLogLevel (fl_debug f) (fl_trace f)\<rparr>"
    using assms redis sub by (auto simp: server_main_def Let_def split: prod.splits go.splits)
  show ?thesis
    using redis start_subscriber_Ret [OF sub] start_publisher_Ret [OF pub] startGrpcServer_Ret [OF svr]
    by (auto simp: sv NewEventsListener_def Grpc_DefaultTimeout_def split: option.splits)
qed

text \<open>A host without AWS, with the key files of the default directory and a Redis server.\<close>

definition plain_server_host :: "(mem, bytes, bytes) host" where
  "plain_server_host =
     \<lparr>h_os = plain_host, h_x509 = plain_x509,
      h_aws = \<lparr>os_LookupEnv = (\<lambda>v w. None), NewSessionWithOptions = (\<lambda>opts w. (Inl (Errorf ''no credentials''), w))\<rparr>,
      h_redis = \<lparr>NewClusterClient = (\<lambda>tls addrs. mem_client), NewRedisClient = (\<lambda>tls addr db. mem_client)\<rparr>,
      h_Listen = (\<lambda>port w. (None, w))\<rparr>"

definition idle_channels :: "mem channels" where
  "idle_channels =
     \<lparr>ch_offer = (\<lambda>request t w. (Expired, w)), ch_send = (\<lambda>request w. (Ret (), w)), ch_received = [], ch_notified = []\<rparr>"

theorem server_main_services_witness:
  "\<exists>sv w'. server_main plain_server_host mem_runtime plain_codecs idle_channels
       (default_flags\<lparr>fl_redis := ''redis:6379''\<rparr>) (mem_world Map.empty) = (Ret sv, w') \<and>
     gs_Creds (sv_grpc sv) \<noteq> Insecure \<and> sv_subscriber sv = None \<and>
     c_Store (gs_Config (sv_grpc sv)) = Some (l_store (sv_listener sv))"
proof -
  let ?f = "default_flags\<lparr>fl_redis := ''redis:6379''\<rparr>"
  let ?main = "server_main plain_server_host mem_runtime plain_codecs idle_channels ?f (mem_world Map.empty)"
  have "\<not> panics (fst ?main)" by code_simp
  then obtain sv where "fst ?main = Ret sv" by (auto simp: not_panics_iff)
  then have sv: "?main = (Ret sv, snd ?main)" by (metis prod.collapse)
  from server_main_services [OF sv]
  have "gs_Creds (sv_grpc sv) \<noteq> Insecure" "sv_subscriber sv = None"
    "c_Store (gs_Config (sv_grpc sv)) = Some (l_store (sv_listener sv))"
    by (auto simp: default_flags_def split: option.splits prod.splits)
  with sv show ?thesis by blast
qed

end
