(* ===== verification/Shutdown.thy ===== *)
theory Shutdown
  imports Server_Main
begin

text \<open>
  The server as the goroutines that \<^verbatim>\<open>main\<close> starts, and how it stops (\<^verbatim>\<open>RunUntilStopped\<close> of
  \<^verbatim>\<open>cmd/main.go\<close>). A step is one action of one goroutine; any interleaving is a run. What a request
  does to the store is the subject of the other theories: here only who waits for whom matters. The lemmas
  are by induction over the runs.
\<close>

section \<open>Definitions\<close>

text \<open>
  How far the main goroutine is: waiting for a signal; \<^verbatim>\<open>done\<close> closed; \<^verbatim>\<open>eventsCh\<close> closed; in
  \<^verbatim>\<open>GracefulStop\<close>; in \<^verbatim>\<open>wg.Wait\<close>; returned.
\<close>

datatype phase = Serving | DoneClosed | EventsClosed | Stopping | Waiting_for_services | Finished

datatype listening = Idle | Busy | Exited

text \<open>
  The subscriber's loop and the goroutine in \<^verbatim>\<open>Serve\<close> are running or not. \<open>p_handlers\<close> is the number of
  calls of \<^verbatim>\<open>SendEvent\<close> that wait at the events channel, \<open>p_senders\<close> that of the goroutines in
  \<^verbatim>\<open>ProcessMessage\<close> that do. The counters are the events that were accepted (the call was answered with
  the event's id, or the message goes on to be removed) and those the listener is done with.
\<close>

record process =
  p_phase :: phase
  p_subscriber :: bool
  p_serve :: bool
  p_handlers :: nat
  p_senders :: nat
  p_listener :: listening
  p_accepted :: nat
  p_processed :: nat
  p_crashed :: bool

definition done_closed :: "process \<Rightarrow> bool" where
  "done_closed s \<longleftrightarrow> p_phase s \<noteq> Serving"

definition events_closed :: "process \<Rightarrow> bool" where
  "events_closed s \<longleftrightarrow> p_phase s \<notin> {Serving, DoneClosed}"

text \<open>The program goes on: it has not crashed and \<^verbatim>\<open>main\<close> has not returned.\<close>

definition alive :: "process \<Rightarrow> bool" where
  "alive s \<longleftrightarrow> \<not> p_crashed s \<and> p_phase s \<noteq> Finished"

text \<open>The services that main has started; the subscriber is optional.\<close>

definition started_with :: "bool \<Rightarrow> process" where
  "started_with subscriber =
     \<lparr>p_phase = Serving, p_subscriber = subscriber, p_serve = True, p_handlers = 0, p_senders = 0,
      p_listener = Idle, p_accepted = 0, p_processed = 0, p_crashed = False\<rparr>"

text \<open>
  The steps. A send on a closed channel panics, and a panic ends the program. New calls are
  accepted until \<^verbatim>\<open>GracefulStop\<close>, which returns when no call is left.
\<close>

inductive step :: "process \<Rightarrow> process \<Rightarrow> bool" where
  call: "alive s \<Longrightarrow> p_phase s \<in> {Serving, DoneClosed, EventsClosed} \<Longrightarrow>
    step s (s\<lparr>p_handlers := Suc (p_handlers s)\<rparr>)"
| call_taken: "alive s \<Longrightarrow> p_handlers s = Suc n \<Longrightarrow> \<not> events_closed s \<Longrightarrow> p_listener s = Idle \<Longrightarrow>
    step s (s\<lparr>p_handlers := n, p_listener := Busy, p_accepted := Suc (p_accepted s)\<rparr>)"
| call_expired: "alive s \<Longrightarrow> p_handlers s = Suc n \<Longrightarrow> step s (s\<lparr>p_handlers := n\<rparr>)"
| call_panics: "alive s \<Longrightarrow> p_handlers s \<noteq> 0 \<Longrightarrow> events_closed s \<Longrightarrow> step s (s\<lparr>p_crashed := True\<rparr>)"
| message: "alive s \<Longrightarrow> p_subscriber s \<Longrightarrow> step s (s\<lparr>p_senders := Suc (p_senders s)\<rparr>)"
| message_taken: "alive s \<Longrightarrow> p_senders s = Suc n \<Longrightarrow> \<not> events_closed s \<Longrightarrow> p_listener s = Idle \<Longrightarrow>
    step s (s\<lparr>p_senders := n, p_listener := Busy, p_accepted := Suc (p_accepted s)\<rparr>)"
| message_panics: "alive s \<Longrightarrow> p_senders s \<noteq> 0 \<Longrightarrow> events_closed s \<Longrightarrow> step s (s\<lparr>p_crashed := True\<rparr>)"
| listener_done: "alive s \<Longrightarrow> p_listener s = Busy \<Longrightarrow>
    step s (s\<lparr>p_listener := Idle, p_processed := Suc (p_processed s)\<rparr>)"
| listener_exits: "alive s \<Longrightarrow> p_listener s = Idle \<Longrightarrow> events_closed s \<Longrightarrow> step s (s\<lparr>p_listener := Exited\<rparr>)"
| subscriber_exits: "alive s \<Longrightarrow> p_subscriber s \<Longrightarrow> done_closed s \<Longrightarrow> step s (s\<lparr>p_subscriber := False\<rparr>)"
| signal: "alive s \<Longrightarrow> p_phase s = Serving \<Longrightarrow> step s (s\<lparr>p_phase := DoneClosed\<rparr>)"
| close_events: "alive s \<Longrightarrow> p_phase s = DoneClosed \<Longrightarrow> step s (s\<lparr>p_phase := EventsClosed\<rparr>)"
| graceful_stop: "alive s \<Longrightarrow> p_phase s = EventsClosed \<Longrightarrow> step s (s\<lparr>p_phase := Stopping\<rparr>)"
| stopped: "alive s \<Longrightarrow> p_phase s = Stopping \<Longrightarrow> p_handlers s = 0 \<Longrightarrow>
    step s (s\<lparr>p_phase := Waiting_for_services\<rparr>)"
| serve_exits: "alive s \<Longrightarrow> p_phase s = Waiting_for_services \<Longrightarrow> p_serve s \<Longrightarrow> step s (s\<lparr>p_serve := False\<rparr>)"
| returns: "alive s \<Longrightarrow> p_phase s = Waiting_for_services \<Longrightarrow> \<not> p_serve s \<Longrightarrow> \<not> p_subscriber s \<Longrightarrow>
    p_listener s = Exited \<Longrightarrow> step s (s\<lparr>p_phase := Finished\<rparr>)"

inductive_cases stepE: "step s s'"

abbreviation runs_to :: "process \<Rightarrow> process \<Rightarrow> bool" where
  "runs_to \<equiv> step\<^sup>*\<^sup>*"

lemmas then_run = converse_rtranclp_into_rtranclp [of step]

section \<open>What holds in every run\<close>

text \<open>
  The listener is done with every event but the one it is at work on; no call waits once
  \<^verbatim>\<open>GracefulStop\<close> has returned; the listener and the subscriber exit only after their channel is closed;
  when \<^verbatim>\<open>main\<close> has returned all services have.
\<close>

definition consistent :: "process \<Rightarrow> bool" where
  "consistent s \<longleftrightarrow>
     p_accepted s = p_processed s + (if p_listener s = Busy then 1 else 0) \<and>
     (p_phase s \<in> {Waiting_for_services, Finished} \<longrightarrow> p_handlers s = 0) \<and>
     (p_listener s = Exited \<longrightarrow> events_closed s) \<and>
     (p_phase s = Finished \<longrightarrow> p_listener s = Exited \<and> \<not> p_subscriber s \<and> \<not> p_serve s)"

lemmas process_simps = alive_def consistent_def events_closed_def done_closed_def

lemma step_consistent: "step s s' \<Longrightarrow> consistent s \<Longrightarrow> consistent s'"
  by (induction rule: step.induct) (auto simp: process_simps)

lemma run_consistent:
  assumes "runs_to (started_with b) s"
  shows "consistent s"
  using assms
proof (induction rule: rtranclp_induct)
  case base
  show ?case by (simp add: started_with_def consistent_def)
next
  case (step s s')
  then show ?case by (blast intro: step_consistent)
qed

text \<open>
  C17. No accepted event is lost when the server stops gracefully: in every run, when \<^verbatim>\<open>main\<close> returns, the
  listener, the subscriber's loop and the gRPC service have returned, no call is waiting, and the
  listener is done with every event that was accepted; an event is never processed without
  having been accepted.
\<close>

theorem graceful_shutdown_loses_no_event:
  assumes "runs_to (started_with b) s"
  shows "p_processed s \<le> p_accepted s \<and> p_accepted s \<le> Suc (p_processed s) \<and>
    (p_phase s = Finished \<longrightarrow>
       p_listener s = Exited \<and> \<not> p_subscriber s \<and> \<not> p_serve s \<and> p_handlers s = 0 \<and> p_processed s = p_accepted s)"
  using run_consistent [OF assms] by (auto simp: consistent_def split: if_splits)

text \<open>A run: one event is accepted and processed, then the server stops.\<close>

definition after_call :: process where
  "after_call = (started_with True)\<lparr>p_handlers := 1\<rparr>"

definition after_event :: process where
  "after_event = (started_with True)\<lparr>p_accepted := 1, p_processed := 1\<rparr>"

lemma event_run: "runs_to (started_with True) after_call" "runs_to (started_with True) after_event"
proof -
  let ?busy = "(started_with True)\<lparr>p_listener := Busy, p_accepted := 1\<rparr>"
  have a: "step (started_with True) after_call"
    using step.call [of "started_with True"] by (simp add: process_simps started_with_def after_call_def)
  have b: "step after_call ?busy"
    using step.call_taken [of after_call 0] by (simp add: process_simps started_with_def after_call_def)
  have c: "step ?busy after_event"
    using step.listener_done [of ?busy] by (simp add: process_simps started_with_def after_event_def)
  show "runs_to (started_with True) after_call" using a by blast
  show "runs_to (started_with True) after_event"
    by (rule then_run [OF a then_run [OF b then_run [OF c rtranclp.rtrancl_refl]]])
qed

lemma stop_run:
  "runs_to after_event (after_event\<lparr>p_phase := Finished, p_listener := Exited, p_subscriber := False, p_serve := False\<rparr>)"
proof -
  let ?w = "after_event\<lparr>p_phase := Waiting_for_services\<rparr>"
  note sims = process_simps started_with_def after_event_def
  have s1: "step after_event (after_event\<lparr>p_phase := DoneClosed\<rparr>)"
    using step.signal [of after_event] by (simp add: sims)
  have s2: "step (after_event\<lparr>p_phase := DoneClosed\<rparr>) (after_event\<lparr>p_phase := EventsClosed\<rparr>)"
    using step.close_events [of "after_event\<lparr>p_phase := DoneClosed\<rparr>"] by (simp add: sims)
  have s3: "step (after_event\<lparr>p_phase := EventsClosed\<rparr>) (after_event\<lparr>p_phase := Stopping\<rparr>)"
    using step.graceful_stop [of "after_event\<lparr>p_phase := EventsClosed\<rparr>"] by (simp add: sims)
  have s4: "step (after_event\<lparr>p_phase := Stopping\<rparr>) ?w"
    using step.stopped [of "after_event\<lparr>p_phase := Stopping\<rparr>"] by (simp add: sims)
  have s5: "step ?w (?w\<lparr>p_listener := Exited\<rparr>)"
    using step.listener_exits [of ?w] by (simp add: sims)
  have s6: "step (?w\<lparr>p_listener := Exited\<rparr>) (?w\<lparr>p_listener := Exited, p_subscriber := False\<rparr>)"
    using step.subscriber_exits [of "?w\<lparr>p_listener := Exited\<rparr>"] by (simp add: sims)
  have s7: "step (?w\<lparr>p_listener := Exited, p_subscriber := False\<rparr>)
      (?w\<lparr>p_listener := Exited, p_subscriber := False, p_serve := False\<rparr>)"
    using step.serve_exits [of "?w\<lparr>p_listener := Exited, p_subscriber := False\<rparr>"] by (simp add: sims)
  have s8: "step (?w\<lparr>p_listener := Exited, p_subscriber := False, p_serve := False\<rparr>)
      (after_event\<lparr>p_phase := Finished, p_listener := Exited, p_subscriber := False, p_serve := False\<rparr>)"
    using step.returns [of "?w\<lparr>p_listener := Exited, p_subscriber := False, p_serve := False\<rparr>"] by (simp add: sims)
  show ?thesis
    by (rule then_run [OF s1 then_run [OF s2 then_run [OF s3 then_run [OF s4 then_run [OF s5
          then_run [OF s6 then_run [OF s7 then_run [OF s8 rtranclp.rtrancl_refl]]]]]]]])
qed

theorem graceful_shutdown_loses_no_event_witness:
  "\<exists>s. runs_to (started_with True) s \<and> p_phase s = Finished \<and> p_accepted s = 1 \<and> p_processed s = 1"
proof -
  let ?s = "after_event\<lparr>p_phase := Finished, p_listener := Exited, p_subscriber := False, p_serve := False\<rparr>"
  have run: "runs_to (started_with True) ?s" using event_run(2) stop_run by (rule rtranclp_trans)
  moreover have "p_phase ?s = Finished" "p_accepted ?s = 1" by (simp_all add: after_event_def)
  ultimately show ?thesis using graceful_shutdown_loses_no_event [OF run] by metis
qed

section \<open>Stopping\<close>

lemma step_run: "step s s' \<Longrightarrow> runs_to s s'"
  by (rule r_into_rtranclp)

lemma unchanged [simp]:
  fixes s :: process
  shows "p_phase s = x \<Longrightarrow> s\<lparr>p_phase := x\<rparr> = s" "p_handlers s = n \<Longrightarrow> s\<lparr>p_handlers := n\<rparr> = s"
    "p_subscriber s = b \<Longrightarrow> s\<lparr>p_subscriber := b\<rparr> = s" "p_serve s = b \<Longrightarrow> s\<lparr>p_serve := b\<rparr> = s"
    "p_listener s = l \<Longrightarrow> s\<lparr>p_listener := l\<rparr> = s" "p_processed s = n \<Longrightarrow> s\<lparr>p_processed := n\<rparr> = s"
  by (cases s; simp)+

text \<open>The main goroutine can always go on to \<^verbatim>\<open>GracefulStop\<close>, and the calls that wait can expire.\<close>

lemma to_stopping:
  assumes "alive s" and "p_phase s \<in> {Serving, DoneClosed, EventsClosed, Stopping}"
  shows "runs_to s (s\<lparr>p_phase := Stopping\<rparr>)"
proof -
  have e: "runs_to s (s\<lparr>p_phase := Stopping\<rparr>)" if "alive s" "p_phase s = EventsClosed" for s
    using that by (intro step_run step.graceful_stop)
  have d: "runs_to s (s\<lparr>p_phase := Stopping\<rparr>)" if "alive s" "p_phase s = DoneClosed" for s
  proof -
    have "runs_to s (s\<lparr>p_phase := EventsClosed\<rparr>)" using that by (intro step_run step.close_events)
    moreover have "runs_to (s\<lparr>p_phase := EventsClosed\<rparr>) (s\<lparr>p_phase := EventsClosed, p_phase := Stopping\<rparr>)"
      using that by (intro e) (simp_all add: alive_def)
    ultimately show ?thesis by simp
  qed
  have "runs_to s (s\<lparr>p_phase := Stopping\<rparr>)" if "p_phase s = Serving"
  proof -
    have "runs_to s (s\<lparr>p_phase := DoneClosed\<rparr>)" using assms that by (intro step_run step.signal)
    moreover have "runs_to (s\<lparr>p_phase := DoneClosed\<rparr>) (s\<lparr>p_phase := DoneClosed, p_phase := Stopping\<rparr>)"
      using assms that by (intro d) (simp_all add: alive_def)
    ultimately show ?thesis by simp
  qed
  then show ?thesis using assms d e by auto
qed

lemma calls_expire:
  assumes "alive s"
  shows "runs_to s (s\<lparr>p_handlers := 0\<rparr>)"
  using assms
proof (induction "p_handlers s" arbitrary: s)
  case 0
  then show ?case by simp
next
  case (Suc n)
  then have "step s (s\<lparr>p_handlers := n\<rparr>)" by (intro step.call_expired) simp_all
  moreover have "runs_to (s\<lparr>p_handlers := n\<rparr>) (s\<lparr>p_handlers := n, p_handlers := 0\<rparr>)"
    using Suc by (intro Suc.hyps(1)) (simp_all add: alive_def)
  ultimately show ?case by (simp add: then_run)
qed

lemma listener_can_exit:
  assumes "alive s" and "events_closed s"
  obtains n where "runs_to s (s\<lparr>p_processed := n, p_listener := Exited\<rparr>)"
proof -
  have idle: "runs_to s (s\<lparr>p_listener := Exited\<rparr>)" if "alive s" "events_closed s" "p_listener s = Idle" for s
    using that by (intro step_run step.listener_exits)
  show thesis
  proof (cases "p_listener s")
    case Idle
    then show thesis using idle [OF assms] that [of "p_processed s"] by simp
  next
    case Busy
    let ?s = "s\<lparr>p_listener := Idle, p_processed := Suc (p_processed s)\<rparr>"
    have "step s ?s" using assms Busy by (intro step.listener_done)
    moreover have "runs_to ?s (?s\<lparr>p_listener := Exited\<rparr>)"
      using assms by (intro idle) (simp_all add: alive_def events_closed_def)
    ultimately show thesis using that [of "Suc (p_processed s)"] by (simp add: then_run)
  next
    case Exited
    then show thesis using that [of "p_processed s"] by simp
  qed
qed

lemma services_exit:
  assumes "alive s" and "p_phase s = Waiting_for_services" and "p_listener s = Exited"
  shows "\<exists>s'. runs_to s s' \<and> p_phase s' = Finished"
proof -
  have sub: "runs_to s (s\<lparr>p_subscriber := False\<rparr>)"
  proof (cases "p_subscriber s")
    case True
    then show ?thesis using assms by (intro step_run step.subscriber_exits) (simp_all add: done_closed_def)
  qed simp
  let ?s1 = "s\<lparr>p_subscriber := False\<rparr>"
  have serve: "runs_to ?s1 (?s1\<lparr>p_serve := False\<rparr>)"
  proof (cases "p_serve s")
    case True
    then show ?thesis using assms by (intro step_run step.serve_exits) (simp_all add: alive_def)
  qed simp
  have "step (?s1\<lparr>p_serve := False\<rparr>) (?s1\<lparr>p_serve := False, p_phase := Finished\<rparr>)"
    using assms by (intro step.returns) (simp_all add: alive_def)
  with sub serve have "runs_to s (?s1\<lparr>p_serve := False, p_phase := Finished\<rparr>)"
    by (meson rtranclp.rtrancl_into_rtrancl rtranclp_trans)
  moreover have "p_phase (?s1\<lparr>p_serve := False, p_phase := Finished\<rparr>) = Finished" by simp
  ultimately show ?thesis by blast
qed





end
