(* ===== verification/Programs.thy ===== *)
theory Programs
  imports Subscriber Cli
begin

text \<open>
  The two small programs beside the server: the health check that runs in its container
  (\<^verbatim>\<open>docker/grpc_health.go\<close>) and the example of a client that sends events over SQS
  (\<^verbatim>\<open>docs/examples/sqs_client.go\<close>). The lemmas show that the health check succeeds whatever state the
  server reports, and that the server cannot read what the example sends.
\<close>

section \<open>Definitions\<close>

text \<open>
  The health check: its exit code. \<open>Dial\<close> connects, with TLS that does not verify the server or
  without; \<open>marshal_json\<close> is \<^verbatim>\<open>protojson.Marshal\<close>. \<^verbatim>\<open>log.Fatal\<close> exits with code 1.
\<close>

definition health_main ::
    "'w go_runtime \<Rightarrow> 'w terminal \<Rightarrow> (string \<Rightarrow> bool \<Rightarrow> 'w \<Rightarrow> (go_error + 'w CliClient) \<times> 'w)
       \<Rightarrow> (HealthResponse \<Rightarrow> go_error + string) \<Rightarrow> string \<Rightarrow> duration \<Rightarrow> bool \<Rightarrow> 'w \<Rightarrow> nat \<times> 'w" where
  "health_main rt io Dial marshal_json address timeout noTLS w =
     (case Dial address (\<not> noTLS) w of
        (Inl err, w1) \<Rightarrow> (1, w1)
      | (Inr client, w1) \<Rightarrow>
          (let (now, w2) = time_Now rt w1 in
           case svc_Health client (Some (now + timeout)) w2 of
             (Inl err, w3) \<Rightarrow> (1, w3)
           | (Inr resp, w3) \<Rightarrow>
               (case marshal_json resp of
                  Inl err \<Rightarrow> (1, w3)
                | Inr jsonBytes \<Rightarrow> (0, fmt_Print io (jsonBytes @ newline) w3))))"

text \<open>The example. The type of the total is \<^verbatim>\<open>float64\<close>, of which only the one literal is used.\<close>

record 'f OrderDetails =
  od_OrderId :: string
  od_CustomerId :: string
  od_OrderDate :: int
  od_OrderTotal :: 'f

definition NewOrderDetails :: "'w go_runtime \<Rightarrow> string \<Rightarrow> string \<Rightarrow> 'f \<Rightarrow> 'w \<Rightarrow> 'f OrderDetails \<times> 'w" where
  "NewOrderDetails rt orderId customerId orderTotal w =
     (let (now, w1) = time_Now rt w in
      (\<lparr>od_OrderId = orderId, od_CustomerId = customerId, od_OrderDate = now, od_OrderTotal = orderTotal\<rparr>, w1))"

definition OrderDetails_String :: "('f OrderDetails \<Rightarrow> go_error + string) \<Rightarrow> 'f OrderDetails \<Rightarrow> string go" where
  "OrderDetails_String json_Marshal ord = (case json_Marshal ord of Inl err \<Rightarrow> Panic | Inr res \<Rightarrow> Ret res)"

text \<open>\<open>decode\<close> is the JSON decoder, on the contents of the file.\<close>

definition ReadConfig ::
    "'w terminal \<Rightarrow> (bytes \<Rightarrow> go_error + Configuration) \<Rightarrow> string \<Rightarrow> 'w \<Rightarrow> (go_error + Configuration) \<times> 'w" where
  "ReadConfig io decode filePath w =
     (case os_Open io filePath w of
        (Some err, w1) \<Rightarrow> (Inl err, w1)
      | (None, w1) \<Rightarrow>
          (case io_ReadAll io (Some filePath) w1 of
             (Inl err, w2) \<Rightarrow> (Inl err, w2)
           | (Inr data, w2) \<Rightarrow> (decode data, w2)))"

definition NewSqs :: "'w os \<Rightarrow> 'w aws \<Rightarrow> string \<Rightarrow> 'w \<Rightarrow> 'w sqs_client go \<times> 'w" where
  "NewSqs os aws endpoint w =
     (let env = os_Getenv os ''AWS_REGION'' w;
          region = (if env = '''' then ''us-west-2'' else env)
      in Must (NewSessionWithOptions aws (Some (endpoint, region)) w))"

record example_flags =
  ex_endpoint :: string
  ex_q :: string
  ex_config :: string
  ex_id :: string
  ex_evt :: string

text \<open>The request it sends: everything is filled in.\<close>

definition example_request ::
    "'w go_runtime \<Rightarrow> ('f OrderDetails \<Rightarrow> go_error + string) \<Rightarrow> 'f \<Rightarrow> example_flags \<Rightarrow> 'w
       \<Rightarrow> EventRequest go \<times> 'w" where
  "example_request rt json_Marshal amount f w =
     (let (orderId, w1) = uuid_NewString rt w;
          (ord, w2) = NewOrderDetails rt orderId ''sqs-cust-1234'' amount w1;
          (eventId, w3) = uuid_NewString rt w2;
          (now, w4) = time_Now rt w3
      in case OrderDetails_String json_Marshal ord of
           Panic \<Rightarrow> (Panic, w4)
         | Ret details \<Rightarrow>
             (Ret \<lparr>req_Event = Some \<lparr>evt_EventId = eventId, evt_Timestamp = Some now,
                     evt_Transition = Some \<lparr>t_From = '''', t_To = '''', t_Event = ex_evt f\<rparr>,
                     evt_Originator = ''New SQS Client with Details'', evt_Details = details\<rparr>,
                   req_Config = ex_config f, req_Id = ex_id f\<rparr>, w4))"

text \<open>\<^verbatim>\<open>main\<close> of the example; \<open>MarshalTextString\<close> is the text format of the protobuf library. The SDK
  refuses a message without the URL of a queue.\<close>

definition example_main ::
    "'w os \<Rightarrow> 'w aws \<Rightarrow> 'w go_runtime \<Rightarrow> ('f OrderDetails \<Rightarrow> go_error + string) \<Rightarrow> 'f
       \<Rightarrow> (EventRequest \<Rightarrow> string) \<Rightarrow> example_flags \<Rightarrow> 'w \<Rightarrow> unit go \<times> 'w" where
  "example_main os aws rt json_Marshal amount MarshalTextString f w =
     (case NewSqs os aws (ex_endpoint f) w of
        (Panic, w1) \<Rightarrow> (Panic, w1)
      | (Ret queue, w1) \<Rightarrow>
          (case sqs_GetQueueUrl queue (ex_q f) w1 of
             (Inl err, w2) \<Rightarrow> (Panic, w2)
           | (Inr queueUrl, w2) \<Rightarrow>
               if ex_id f = '''' \<or> ex_evt f = '''' then (Panic, w2)
               else
                 (case example_request rt json_Marshal amount f w2 of
                    (Panic, w3) \<Rightarrow> (Panic, w3)
                  | (Ret msg, w3) \<Rightarrow>
                      (case queueUrl of
                         None \<Rightarrow> (Panic, w3)
                       | Some url \<Rightarrow>
                           (case sqs_SendMessage queue url (MarshalTextString msg) w3 of
                              (Inl err, w4) \<Rightarrow> (Panic, w4)
                            | (Inr ident, w4) \<Rightarrow> (Ret (), w4))))))"

section \<open>The health check\<close>

text \<open>
  The health check succeeds as soon as the server answers: a server that reports that it is not ready
  passes it.
\<close>

lemma health_main_ignores_the_state:
  assumes "Dial address (\<not> noTLS) w = (Inr client, w1)" and "time_Now rt w1 = (now, w2)"
    and "svc_Health client (Some (now + timeout)) w2 = (Inr resp, w3)" and "marshal_json resp = Inr j"
  shows "health_main rt io Dial marshal_json address timeout noTLS w = (0, fmt_Print io (j @ newline) w3)"
  using assms by (simp add: health_main_def)

section \<open>What the example sends\<close>

lemma digit_value_in: "digit_value c = Some i \<Longrightarrow> c \<in> set alphabet"
proof -
  have "position c xs = Some i \<Longrightarrow> c \<in> set xs" for xs i
    by (induction xs arbitrary: i) (auto split: if_splits)
  then show "digit_value c = Some i \<Longrightarrow> c \<in> set alphabet" by (simp add: digit_value_def)
qed

lemma decode_quads_alphabet: "decode_quads t = Some bs \<Longrightarrow> set t \<subseteq> set alphabet \<union> {CHR ''=''}"
  by (induction t arbitrary: bs rule: decode_quads.induct)
     (auto split: option.splits if_splits dest: digit_value_in)

lemma DecodeString_alphabet:
  assumes "c \<in> set t" and "c \<notin> set alphabet \<union> {CHR ''='', CHR 0x0A, CHR 0x0D}"
  shows "DecodeString t = None"
  using assms decode_quads_alphabet [of "filter (\<lambda>c. c \<noteq> CHR 0x0A \<and> c \<noteq> CHR 0x0D) t"]
  by (cases "DecodeString t") (auto simp: DecodeString_def)

text \<open>
  In the text format a field and its value are separated by a colon, which is not a Base64 digit: the
  subscriber does nothing with such a message, which stays in the queue.
\<close>

lemma text_format_is_not_read:
  assumes "CHR '':'' \<in> set t" and "msg_MessageId msg = Some ident" and "msg_Body msg = Some t"
  shows "ProcessMessage rt cs s msg url w = (Ret (), w)"
proof -
  have "CHR '':'' \<notin> set alphabet \<union> {CHR ''='', CHR 0x0A, CHR 0x0D}" by (simp add: alphabet_def)
  then have "DecodeString t = None" using assms(1) by (rule DecodeString_alphabet [rotated])
  then show ?thesis using assms(2,3) by (simp add: ProcessMessage_def UnmarshalFromText_def)
qed

end
