(* ===== verification/Spec2Isabelle.thy ===== *)
theory Spec2Isabelle
  imports Concurrent_Listeners Pipeline Streams Cli_Session Shutdown Programs
begin

text \<open>
  A verification development for \<^verbatim>\<open>go-statemachine\<close>, a server that keeps finite state machines in
  Redis and moves them by events.

  \<^bold>\<open>The program.\<close> A configuration (states, transitions, starting state) has a name and a version; a
  machine follows a configuration and has a current state and a history. Events reach the server by gRPC
  or from an SQS queue; both put them on one channel, from which a listener takes them, one at a
  time. For each it stores the event, has the store apply it to its machine in a transaction, and
  stores an outcome; failures are posted to a second channel and published to an SQS queue. Clients
  store configurations and machines, read them, and ask for outcomes, by gRPC; a command-line client
  does so from YAML files.

  \<^bold>\<open>The theories\<close>, in the order they build on each other:
  \<^item> \<open>Prelude\<close>: results of code that may panic, and the string functions of the Go library;
  \<^item> \<open>Protos\<close>: the messages, the error values, and the services of the runtime (clock, identifiers, sleep)
    as operations on the world the program runs in;
  \<^item> \<open>Api\<close> (\<^verbatim>\<open>pkg/api/fsm.go\<close>): validation, machines, the transition an event takes;
  \<^item> \<open>Keys\<close> (\<^verbatim>\<open>pkg/storage/keys.go\<close>); \<open>Regexp\<close> and \<open>Store_Types\<close> (\<^verbatim>\<open>pkg/storage/types.go\<close>): the keys of the
    store, its errors and how they are recognised;
  \<^item> \<open>Redis_Client\<close>, \<open>Wire\<close>: the Redis client and the serialisation of messages, which are not part of the
    repository: records of operations, what is documented of them as the locales \<open>redis_server\<close>,
    \<open>reliable_redis\<close> and \<open>wire\<close>, and executable instances;
  \<^item> \<open>Redis_Store\<close> (\<^verbatim>\<open>pkg/storage/redis_store.go\<close>): one definition per method, with the retry loops;
  \<^item> \<open>Store_Laws\<close>: what the methods do when calls may fail, time out, or be applied with the reply lost;
  \<^item> \<open>Shared_Store\<close>: \<^verbatim>\<open>TxProcessEvent\<close> while other clients write to the database between any two commands of it
    (\<open>shared_store\<close>, over a relation \<open>rely\<close> for what the others do);
  \<^item> \<open>Store_Programs\<close>, \<open>Interleaving\<close>, \<open>Concurrent_Servers\<close>: \<^verbatim>\<open>TxProcessEvent\<close>, \<^verbatim>\<open>PutEvent\<close> and \<^verbatim>\<open>AddEventOutcome\<close> once
    more, as trees of commands (\<open>prog\<close>), shown equal to the methods by executing them (\<open>run\<close>); the commands as a
    step relation (\<open>command\<close>), with the client's pending calls as a stack; and any number of sessions that take
    such steps in one database (\<open>interleaved\<close>, with the locales \<open>concurrent\<close> and \<open>processing\<close>);
  \<^item> \<open>Store_Manager\<close>: the interface \<^verbatim>\<open>StoreManager\<close> and its contract, the locale \<open>store_manager\<close>, over an
    abstract store (\<open>store_state\<close>, \<open>process\<close>); \<open>Reliable_Store\<close>: the store over a server that answers
    refines it, as a sublocale;
  \<^item> \<open>Listener\<close> (\<^verbatim>\<open>pkg/pubsub/listener.go\<close>), \<open>Grpc_Server\<close> (\<^verbatim>\<open>pkg/grpc/grpc_server.go\<close>): clients of that contract;
  \<^item> \<open>Listener_Programs\<close>, \<open>Concurrent_Listeners\<close>: the listener's loop as a program of commands, and any number of
    listeners interleaved;
  \<^item> \<open>System\<close>, \<open>Streams\<close>: any interleaving of the writing operations (\<open>system_run\<close>), its invariants, and the
    streaming calls on it;
  \<^item> \<open>Tls\<close>: \<^verbatim>\<open>NewGrpcServer\<close> and the files its credentials come from;
  \<^item> \<open>Base64\<close>, \<open>Sqs\<close>, \<open>Subscriber\<close> (\<^verbatim>\<open>pkg/pubsub/sqs_pub.go\<close>, \<^verbatim>\<open>sqs_sub.go\<close>): text form of messages, publisher,
    subscriber and its polling loop; \<open>Pipeline\<close>: subscriber, listener and publisher together, from the events
    queue to the errors queue, over any store that keeps its contract (\<open>queues\<close>);
  \<^item> \<open>Server_Main\<close>, \<open>Shutdown\<close> (\<^verbatim>\<open>cmd/main.go\<close>): which services are started with what, and the goroutines as
    a step relation, up to the return of \<^verbatim>\<open>main\<close>;
  \<^item> \<open>Cli\<close>, \<open>Cli_Session\<close> (\<^verbatim>\<open>fsm-cli\<close>): the command-line client, and an event's way from it through the service
    and the listener into the store and back;
  \<^item> \<open>Programs\<close> (\<^verbatim>\<open>docker/grpc_health.go\<close>, \<^verbatim>\<open>docs/examples/sqs_client.go\<close>): the two small programs;
  \<^item> this theory: properties of the running server.

  \<^bold>\<open>How code is modelled.\<close> Effects are explicit: an operation takes the world \<open>'w\<close> and returns the next
  one. A returned error is a value, a nil-pointer dereference, a send on a closed channel or \<^verbatim>\<open>log.Fatal\<close> is
  \<open>Panic\<close>. Code outside the repository is an argument (a record of operations), and what is relied on of it is
  a locale with an interpretation on an executable instance (\<open>mem_store\<close>, \<open>planned_store\<close>, \<open>plain_codecs\<close>,
  \<open>plain_host\<close>, \<open>direct_client\<close>, \<open>queue_store\<close>), on which the witnesses are evaluated. A channel is what is received from it, or
  an operation that offers to it. Logging is left out.

  \<^bold>\<open>What is shown.\<close> \<open>TxProcessEvent\<close>: with an unreliable server an event is applied at most once, exactly
  once on success, and only the machine and its listing change; with other clients at work it advances the machine
  that is there when the transaction is executed, so that no update is lost; of any number of servers, in every
  interleaving of their commands, each machine's history is the events of the executed transactions in their order,
  an outcome \<^verbatim>\<open>Ok\<close> is only stored for an event that was applied, once, exactly then if no reply is lost, and
  every request is processed to its end; with a server that answers it
  implements the atomic specification. The server: the listing by state is exact, histories are paths of the
  configuration, outcomes say what happened and can be read back, streams return what is stored,
  configurations never change. The listener: every request gets an outcome, and which requests make it panic; a
  message from the events queue is removed only after its event has been processed, and the errors queue gets exactly the failures.
  Start-up, TLS, polling, publishing, the client and the shutdown: the behaviour on every branch, when loops end,
  and that no accepted event is lost. Where the code does not do what it means to, a closed theorem shows it:
  \<open>failed_transaction_moves_the_listing\<close>, \<open>lost_EXISTS_replaces_a_configuration\<close>,
  \<open>racing_PutConfig_replaces_a_configuration\<close>,
  \<open>storing_again_leaves_a_stale_listing\<close>, \<open>keys_collide_for_names_with_colons\<close>,
  \<open>valid_machine_may_become_invalid\<close>, \<open>shutdown_may_crash\<close>, \<open>Send_panics_when_the_outcome_is_late\<close>.

  \<^bold>\<open>Bounds and termination.\<close> No definition has fuel. The retry loops of the store count down a 64-bit
  word and end because it reaches zero, and so do those of the programs of \<open>Store_Programs\<close>, whose trees are finite along
  every branch; the other loops are over lists or bounded counters, except the polling loop,
  which is a \<open>partial_function\<close> whose result is \<open>None\<close> when it never ends. Durations and times are
  unbounded integers, as nothing here reaches their limits.

  \<^bold>\<open>Assumptions.\<close> Where the database is said to answer, no other client uses it meanwhile
  (\<open>reliable_redis\<close>); where others do (\<open>shared_redis\<close>, \<open>interleaved\<close>), they change no stored configuration, which
  \<^verbatim>\<open>PutConfig\<close> keeps except in a race with itself; configuration names have no separator in them (\<open>plain\<close>), as the keys need; an
  interleaving in \<open>System\<close> is one of whole handler calls. \<open>Shutdown\<close> interleaves single actions of goroutines, without the
  store. A command whose reply is lost has been applied by the time the client gives up waiting for it, or never is.

  \<^bold>\<open>Not modelled.\<close> Logging; the parsing of flags; the generated protobuf and gRPC code, the AWS SDK, YAML and
  certificate parsing (parameters); values that expire (the program never sets a lifetime);
  \<^verbatim>\<open>pkg/internal/testing\<close>, which starts containers for the tests. Interference of several servers with one
  database is modelled command by command for what the listener does; the calls of the service appear there as
  writes that replace no configuration or machine, which excludes storing a machine again under its id.
\<close>

section \<open>The server as a whole\<close>

text \<open>
  C11. In any interleaving of calls of \<^verbatim>\<open>PutConfiguration\<close>, \<^verbatim>\<open>PutFiniteStateMachine\<close> for ids that are not
  in use, and requests processed by the listener, whatever their results, over a store that keeps
  its contract: \<^verbatim>\<open>GetAllInState\<close> of a configuration name and a state returns exactly the ids of the
  machines of that name that are stored with that state.
\<close>

theorem GetAllInState_lists_the_machines_in_a_state:
  assumes "store_manager sm rt st sound can_cfg can_fsm can_evt can_out"
    and "c_Store s = Some sm" and "l_store l = sm"
    and "system_run fresh rt s l st w0 w" and "sound w0" and "well_listed (st w0)"
    and "plain n" and "n \<noteq> ''''" and "x \<noteq> ''''"
  shows "\<exists>ids. fst (Grpc_GetAllInState s \<lparr>gf_Config = n, gf_Query = QueryState x\<rparr> w) = Ret (Some ids, None) \<and>
           distinct ids \<and> set ids = {i. \<exists>m. s_machines (st w) (i, n) = Some m \<and> fsm_State m = x}"
proof -
  have sw: "sound w" and wl: "well_listed (st w)"
    using store_manager.run_sound [OF assms(1,4,2,3,5)] store_manager.run_well_listed [OF assms(1,4,2,3,5,6)] .
  obtain ids w' where g: "sm_GetAllInState sm n x w = (ids, w')" by fastforce
  have "distinct ids" "fset_of_list ids = s_listing (st w) (n, x)"
    using store_manager.GetAllInState_law [OF assms(1) g sw assms(7)] by auto
  moreover from this(2) have "i \<in> set ids \<longleftrightarrow> (\<exists>m. s_machines (st w) (i, n) = Some m \<and> fsm_State m = x)" for i
    using well_listedD [OF wl assms(9), of i n] fset_of_list_elem [of i ids] by simp
  moreover have "fst (Grpc_GetAllInState s \<lparr>gf_Config = n, gf_Query = QueryState x\<rparr> w) = Ret (Some ids, None)"
    using g assms(2,8,9) by (simp add: Grpc_GetAllInState_def with_store_def replies_def)
  ultimately show ?thesis by (intro exI [of _ ids]) auto
qed

theorem GetAllInState_lists_the_machines_in_a_state_witness:
  "\<exists>ids. fst (Grpc_GetAllInState open_server \<lparr>gf_Config = ''rover'', gf_Query = QueryState ''orbit''\<rparr> launched) =
       Ret (Some ids, None) \<and> ''m7'' \<in> set ids"
proof -
  have "plain ''rover''" by (simp add: plain_def)
  moreover have "map_option fsm_State (s_machines (mem_st launched) (''m7'', ''rover'')) = Some ''orbit''"
    by code_simp
  then have "\<exists>m. s_machines (mem_st launched) (''m7'', ''rover'') = Some m \<and> fsm_State m = ''orbit''"
    by auto
  ultimately show ?thesis
    using GetAllInState_lists_the_machines_in_a_state [OF mem_store.refines open_server_simps(1)
        mem_listener_store(1) launched_run sound_mem_world empty_store(1), of "''rover''" "''orbit''"]
    by auto
qed

text \<open>
  C12. In any such interleaving in which clients store machines without a state and without history,
  every stored machine has its configuration in the store, and its history is a path of that
  configuration's transitions from the starting state to the state it is in.
\<close>

theorem stored_histories_are_paths:
  assumes "store_manager sm rt st sound can_cfg can_fsm can_evt can_out"
    and "c_Store s = Some sm" and "l_store l = sm"
    and "system_run untouched rt s l st w0 w" and "sound w0" and "well_formed_histories (st w0)"
    and "s_machines (st w) (i, n) = Some m"
  shows "\<exists>c. s_configs (st w) (fsm_ConfigId m) = Some c \<and>
           path (cfg_Transitions c) (cfg_StartingState c) (fsm_History m) (fsm_State m)"
  using store_manager.run_histories [OF assms(1,4,2,3,5,6)] assms(7)
  by (auto simp: well_formed_histories_def untouched_def)

theorem stored_histories_are_paths_witness:
  "\<exists>m c. s_machines (mem_st launched) (''m7'', ''rover'') = Some m \<and>
     s_configs (mem_st launched) (fsm_ConfigId m) = Some c \<and>
     path (cfg_Transitions c) (cfg_StartingState c) (fsm_History m) (fsm_State m)"
proof -
  have "s_machines (mem_st launched) (''m7'', ''rover'') \<noteq> None" by code_simp
  then obtain m where "s_machines (mem_st launched) (''m7'', ''rover'') = Some m" by blast
  moreover from stored_histories_are_paths [OF mem_store.refines open_server_simps(1)
      mem_listener_store(1) launched_run sound_mem_world empty_store(2) this]
  obtain c where "s_configs (mem_st launched) (fsm_ConfigId m) = Some c"
    "path (cfg_Transitions c) (cfg_StartingState c) (fsm_History m) (fsm_State m)" by blast
  ultimately show ?thesis by blast
qed

text \<open>
  C13. The outcome of an event can be read back. After the listener has processed a complete request,
  over a store that keeps its contract, \<^verbatim>\<open>GetEventOutcome\<close> for the event's id and configuration name
  returns an outcome for the machine of the request whose code says what happened: \<^verbatim>\<open>Ok\<close> exactly when
  the event fired a transition of the stored machine.
\<close>

theorem outcome_can_be_read_back:
  assumes "store_manager sm rt st sound can_cfg can_fsm can_evt can_out"
    and "c_Store s = Some sm" and "l_store l = sm"
    and "complete request" and "req_Event request = Some e"
    and "sound w" and "plain (req_Config request)"
    and "can_evt e" and "\<And>r. can_out (outcome_for request r)"
    and "process_request l request w = (p, w')"
  shows "\<exists>out. fst (GetEventOutcome s \<lparr>req_Event = None, req_Config = req_Config request, req_Id = evt_EventId e\<rparr> w') =
             Ret (Some \<lparr>resp_EventId = evt_EventId e, resp_Outcome = Some out\<rparr>, None) \<and>
           out_Id out = req_Id request \<and> out_Config out = req_Config request \<and>
           out_Code out = expected_code can_fsm (st w) (req_Id request) (req_Config request) e"
proof -
  obtain r where "\<exists>posted. p = Ret posted" "sound w'"
    "outcome_code r = expected_code can_fsm (st w) (req_Id request) (req_Config request) e"
    "s_outcomes (st w') (evt_EventId e, req_Config request) = Some (outcome_for request r)"
    "\<forall>v. sound v \<and> s_outcomes (st v) (evt_EventId e, req_Config request) = Some (outcome_for request r) \<longrightarrow>
       fst (GetEventOutcome s \<lparr>req_Event = None, req_Config = req_Config request, req_Id = evt_EventId e\<rparr> v) =
       Ret (Some \<lparr>resp_EventId = evt_EventId e, resp_Outcome = Some (outcome_for request r)\<rparr>, None)"
    by (rule store_manager.outcome_read_back [OF assms])
  then show ?thesis by (auto simp: outcome_for_def)
qed

theorem outcome_can_be_read_back_witness:
  "\<exists>out. fst (GetEventOutcome open_server \<lparr>req_Event = None, req_Config = ''rover'', req_Id = ''e1''\<rparr>
       (snd (process_request (mem_listener []) launch_request (mem_world rover_db)))) =
     Ret (Some \<lparr>resp_EventId = ''e1'', resp_Outcome = Some out\<rparr>, None) \<and> out_Code out = Ok"
proof -
  have s: "sound_db plain_codecs (v_db (mem_view (mem_world rover_db)))"
    by (simp add: mem_world_def start_view_def)
  have "expected_code (can_marshal (fsm_codec plain_codecs)) (abs_db plain_codecs rover_db) ''m1'' ''rover''
      (event_named ''launch'') = Ok"
    by code_simp
  moreover have "evt_EventId (event_named ''launch'') = ''e1''" by (simp add: event_named_def)
  moreover note outcome_can_be_read_back [OF mem_store.refines open_server_simps(1) mem_listener_store(1)
      launch_complete(1,2) s launch_complete(3) plain_can_marshal(3,4) prod.collapse [symmetric], of "[]"]
  ultimately show ?thesis
    by (auto simp: launch_request_def mem_world_def start_view_def)
qed


end
